theory Spec2Isabelle
  imports Main "HOL-Library.Word"
begin

unbundle bit_operations_syntax

section \<open>The SPI test driver, in two variants\<close>

text \<open>
  The repository holds the test driver \<^verbatim>\<open>spi-test.c\<close> in two variants that the
  properties below are about:
  \<^item> the variant of \<^verbatim>\<open>src/spi-test.c\<close> (its first 475 lines), with three
    iteration axes (length, tx offset, rx offset); its definitions carry the suffix
    \<open>_base\<close>;
  \<^item> the richer variant of \<^verbatim>\<open>src/unnamed/part_000\<close>, with the loopback check and
    the alignment axes; its definitions carry the suffix \<open>_rich\<close>.
  Every function of the driver is translated into a HOL function of the same name.
  Pointers are addresses (natural numbers, 0 is \<^verbatim>\<open>NULL\<close>), memory is a function from
  addresses to bytes, return codes are integers as in C (0 is success), and a function
  that stores through the null pointer returns \<open>None\<close>: the kernel stops there.
\<close>

subsection \<open>Constants\<close>

text \<open>The error numbers of \<^verbatim>\<open>include/uapi/asm-generic/errno-base.h\<close>.\<close>

definition EIO :: int where "EIO = 5"
definition E2BIG :: int where "E2BIG = 7"
definition ENOMEM :: int where "ENOMEM = 12"
definition EFAULT :: int where "EFAULT = 14"
definition EINVAL :: int where "EINVAL = 22"

definition SPI_TEST_MAX_TRANSFERS :: nat where "SPI_TEST_MAX_TRANSFERS = 4"
definition SPI_TEST_MAX_ITERATE :: nat where "SPI_TEST_MAX_ITERATE = 12"

text \<open>
  Addresses and lengths are natural numbers, 0 is the null pointer. The sums
  \<^verbatim>\<open>*ptr + len\<close> of the translator therefore do not wrap: the model describes the
  driver on the inputs whose sums stay below the width of a pointer, and it takes
  \<^verbatim>\<open>2<<30\<close> of \<^verbatim>\<open>spi-test.c\<close> as the unsigned value \<open>2 ^ 31\<close>.

  \<^verbatim>\<open>PAGE_SIZE\<close> belongs to the kernel configuration, not to this repository: every
  definition that needs it takes it as a parameter (\<open>ps\<close>, or the field \<open>page_size\<close> of the
  environment).
\<close>

definition SPI_TEST_MAX_SIZE :: "nat \<Rightarrow> nat" where
  "SPI_TEST_MAX_SIZE ps = 32 * ps"

definition SPI_TEST_MAX_SIZE_PLUS :: "nat \<Rightarrow> nat" where
  "SPI_TEST_MAX_SIZE_PLUS ps = SPI_TEST_MAX_SIZE ps + ps"

type_synonym addr = nat
type_synonym u8 = "8 word"
type_synonym u32 = "32 word"

text \<open>
  The placeholder addresses: \<^verbatim>\<open>RX_START\<close> is bit 30 and \<^verbatim>\<open>TX_START\<close> is bit 31
  (\<^verbatim>\<open>2<<30\<close> in \<^verbatim>\<open>spi-test.c\<close>, \<^verbatim>\<open>BIT(31)\<close> in the richer variant).
\<close>

definition RX_START :: addr where "RX_START = 2 ^ 30"
definition TX_START :: addr where "TX_START = 2 ^ 31"
definition RX :: "nat \<Rightarrow> addr" where "RX off = RX_START + off"
definition TX :: "nat \<Rightarrow> addr" where "TX off = TX_START + off"

subsection \<open>The address translator\<close>

text \<open>
  \<^verbatim>\<open>spi_test_translate(spi, ptr, len, tx, rx)\<close> rewrites \<^verbatim>\<open>*ptr\<close> in place and
  returns the error code; the model returns the code and the new value of \<^verbatim>\<open>*ptr\<close>.
  \<^verbatim>\<open>spi-test.c\<close> compares with \<^verbatim>\<open><\<close> against \<^verbatim>\<open>SPI_TEST_MAX_SIZE\<close>, the richer
  variant with \<^verbatim>\<open><=\<close> against \<^verbatim>\<open>SPI_TEST_MAX_SIZE_PLUS\<close>.
\<close>

definition spi_test_translate_base :: "nat \<Rightarrow> addr \<Rightarrow> nat \<Rightarrow> addr \<Rightarrow> addr \<Rightarrow> int \<times> addr" where
  "spi_test_translate_base ps ptr n tx rx =
     (if ptr = 0 then (0, ptr)
      else if RX 0 \<le> ptr \<and> ptr + n < RX (SPI_TEST_MAX_SIZE ps)
        then (0, rx + (ptr - RX 0))
      else if TX 0 \<le> ptr \<and> ptr + n < TX (SPI_TEST_MAX_SIZE ps)
        then (0, tx + (ptr - TX 0))
      else (- EINVAL, ptr))"

definition spi_test_translate_rich :: "nat \<Rightarrow> addr \<Rightarrow> nat \<Rightarrow> addr \<Rightarrow> addr \<Rightarrow> int \<times> addr" where
  "spi_test_translate_rich ps ptr n tx rx =
     (if ptr = 0 then (0, ptr)
      else if RX 0 \<le> ptr \<and> ptr + n \<le> RX (SPI_TEST_MAX_SIZE_PLUS ps)
        then (0, rx + (ptr - RX 0))
      else if TX 0 \<le> ptr \<and> ptr + n \<le> TX (SPI_TEST_MAX_SIZE_PLUS ps)
        then (0, tx + (ptr - TX 0))
      else (- EINVAL, ptr))"

subsection \<open>Transfers, test cases, memory and the environment\<close>

text \<open>
  \<^verbatim>\<open>struct spi_transfer\<close>, as far as the driver uses it. A buffer pointer that is 0 is
  the null pointer: the transfer has no buffer in that direction.
\<close>

record spi_transfer =
  tx_buf :: addr
  rx_buf :: addr
  len :: nat

definition no_transfer :: spi_transfer where
  "no_transfer = \<lparr>tx_buf = 0, rx_buf = 0, len = 0\<rparr>"

type_synonym memory = "addr \<Rightarrow> u8"
type_synonym store = "addr \<times> u8"

text \<open>
  The custom test function of a test case (\<^verbatim>\<open>test->test\<close>) and the transport
  (\<^verbatim>\<open>spi_sync\<close>) are not code of the repository: they are parameters. Both see the
  message (the transfers in order), the memory and the state \<open>'d\<close> of the device, and
  return their code with the new memory and device state; the transport also returns
  \<^verbatim>\<open>frame_length\<close> and \<^verbatim>\<open>actual_length\<close> of the message.
\<close>

type_synonym 'd custom_test =
  "spi_transfer list \<Rightarrow> addr \<Rightarrow> addr \<Rightarrow> memory \<Rightarrow> 'd \<Rightarrow> int \<times> memory \<times> 'd"

type_synonym 'd transport =
  "spi_transfer list \<Rightarrow> memory \<Rightarrow> 'd \<Rightarrow> int \<times> memory \<times> 'd \<times> nat \<times> nat"

text \<open>
  \<^verbatim>\<open>struct spi_test\<close>. The fields that both variants have come first; each variant
  extends them with its own. The arrays that the driver only reads are lists (the C
  initialiser; the entries it does not give are 0, see \<open>array_get\<close>), the array of
  transfers, which the driver updates in place, is a function of the index. In
  \<^verbatim>\<open>spi-test.c\<close> the number of transfers is the field \<^verbatim>\<open>transfers\<close> and the array
  is \<^verbatim>\<open>xfers\<close>; in the richer variant the number is \<^verbatim>\<open>transfer_count\<close> and the
  array is \<^verbatim>\<open>transfers\<close>, so the number of \<^verbatim>\<open>spi-test.c\<close> is called
  \<open>transfers_base\<close> here.
\<close>

record 'd spi_test =
  description :: string
  iterate_len :: "nat list"
  test :: "'d custom_test option"
  expected_return :: int
  fill :: u32
  fill_option :: u32

record 'd spi_test_base = "'d spi_test" +
  iterate_tx_off :: "nat list"
  iterate_rx_off :: "nat list"
  transfers_base :: nat
  xfers :: "nat \<Rightarrow> spi_transfer"

record 'd spi_test_rich = "'d spi_test" +
  iterate_tx_align :: nat
  iterate_rx_align :: nat
  transfer_count :: nat
  transfers :: "nat \<Rightarrow> spi_transfer"

definition array_get :: "nat list \<Rightarrow> nat \<Rightarrow> nat" where
  "array_get xs i = (if i < length xs then xs ! i else 0)"

definition FILL_MEMSET_8 :: u32 where "FILL_MEMSET_8 = 0"
definition FILL_MEMSET_16 :: u32 where "FILL_MEMSET_16 = 1"
definition FILL_MEMSET_24 :: u32 where "FILL_MEMSET_24 = 2"
definition FILL_MEMSET_32 :: u32 where "FILL_MEMSET_32 = 3"
definition FILL_COUNT_8 :: u32 where "FILL_COUNT_8 = 4"
definition FILL_COUNT_16 :: u32 where "FILL_COUNT_16 = 5"
definition FILL_COUNT_24 :: u32 where "FILL_COUNT_24 = 6"
definition FILL_COUNT_32 :: u32 where "FILL_COUNT_32 = 7"
definition FILL_TRANSFER_BYTE_8 :: u32 where "FILL_TRANSFER_BYTE_8 = 8"
definition FILL_TRANSFER_BYTE_16 :: u32 where "FILL_TRANSFER_BYTE_16 = 9"
definition FILL_TRANSFER_BYTE_24 :: u32 where "FILL_TRANSFER_BYTE_24 = 10"
definition FILL_TRANSFER_BYTE_32 :: u32 where "FILL_TRANSFER_BYTE_32 = 11"
definition FILL_TRANSFER_NUM :: u32 where "FILL_TRANSFER_NUM = 16"

text \<open>
  Of the diagnostics the model keeps the two progress lines of \<^verbatim>\<open>spi_test_run_iter\<close>
  (\<^verbatim>\<open>Running test %s\<close> and \<^verbatim>\<open>with iteration values: ...\<close>) and the two error lines of
  the loopback check; the message dumps and the other lines are left out.
\<close>

datatype event =
    Info_running_test string
  | Info_iteration_values nat nat nat
  | Err_loopback_idle u8
  | Err_loopback_mismatch nat u8 u8

record 'd world =
  mem :: memory
  dev :: 'd
  msgs :: "event list"

text \<open>
  What the driver takes from outside: the page size, the byte order it was compiled
  for (\<^verbatim>\<open>__BIG_ENDIAN\<close>), the module parameters \<^verbatim>\<open>simulate_only\<close>, \<^verbatim>\<open>dump_messages\<close>
  and \<^verbatim>\<open>loopback\<close>, \<^verbatim>\<open>spi->master->dma_alignment\<close> and the transport.
  \<^verbatim>\<open>spi_test_run_iter\<close> of the richer variant increments two local counters that it
  never initialises; the values they start from are \<open>stack_tx_count\<close> and
  \<open>stack_rx_count\<close>.
\<close>

record 'd env =
  page_size :: nat
  big_endian :: bool
  simulate_only :: int
  dump_messages :: int
  loopback :: int
  dma_alignment :: nat
  spi_sync :: "'d transport"
  stack_tx_count :: "32 word"
  stack_rx_count :: "32 word"

subsection \<open>The fill patterns\<close>

text \<open>
  \<^verbatim>\<open>GET_VALUE_BYTE(value, index, bytes)\<close> ignores its \<^verbatim>\<open>index\<close> and shifts by the
  variable \<^verbatim>\<open>count\<close> of the function it is used in.
\<close>

definition GET_VALUE_BYTE :: "bool \<Rightarrow> nat \<Rightarrow> nat \<Rightarrow> nat \<Rightarrow> nat \<Rightarrow> nat" where
  "GET_VALUE_BYTE be count val index bytes =
     drop_bit (8 * (if be then bytes - 1 - count mod bytes else count mod bytes)) val"

text \<open>
  The \<^verbatim>\<open>switch\<close> on \<^verbatim>\<open>fill_option\<close>: the byte to store, \<open>None\<close> in the default case
  (\<^verbatim>\<open>return -EINVAL\<close>). In \<^verbatim>\<open>spi-test.c\<close> the four counter cases also run
  \<^verbatim>\<open>count++\<close>, so there the switch returns the counter as well.
\<close>

definition fill_byte_rich :: "bool \<Rightarrow> u32 \<Rightarrow> u32 \<Rightarrow> nat \<Rightarrow> nat \<Rightarrow> nat \<Rightarrow> u8 option" where
  "fill_byte_rich be fopt fillv i j count =
     (if fopt = FILL_MEMSET_8 then Some (of_nat (unat fillv))
      else if fopt = FILL_MEMSET_16 then Some (of_nat (GET_VALUE_BYTE be count (unat fillv) count 2))
      else if fopt = FILL_MEMSET_24 then Some (of_nat (GET_VALUE_BYTE be count (unat fillv) count 3))
      else if fopt = FILL_MEMSET_32 then Some (of_nat (GET_VALUE_BYTE be count (unat fillv) count 4))
      else if fopt = FILL_COUNT_8 then Some (of_nat count)
      else if fopt = FILL_COUNT_16 then Some (of_nat (GET_VALUE_BYTE be count count count 2))
      else if fopt = FILL_COUNT_24 then Some (of_nat (GET_VALUE_BYTE be count count count 3))
      else if fopt = FILL_COUNT_32 then Some (of_nat (GET_VALUE_BYTE be count count count 4))
      else if fopt = FILL_TRANSFER_BYTE_8 then Some (of_nat j)
      else if fopt = FILL_TRANSFER_BYTE_16 then Some (of_nat (GET_VALUE_BYTE be count j j 2))
      else if fopt = FILL_TRANSFER_BYTE_24 then Some (of_nat (GET_VALUE_BYTE be count j j 3))
      else if fopt = FILL_TRANSFER_BYTE_32 then Some (of_nat (GET_VALUE_BYTE be count j j 4))
      else if fopt = FILL_TRANSFER_NUM then Some (of_nat i)
      else None)"

definition fill_byte_base :: "bool \<Rightarrow> u32 \<Rightarrow> u32 \<Rightarrow> nat \<Rightarrow> nat \<Rightarrow> nat \<Rightarrow> (u8 \<times> nat) option" where
  "fill_byte_base be fopt fillv i j count =
     (if fopt = FILL_MEMSET_8 then Some (of_nat (unat fillv), count)
      else if fopt = FILL_MEMSET_16 then Some (of_nat (GET_VALUE_BYTE be count (unat fillv) count 2), count)
      else if fopt = FILL_MEMSET_24 then Some (of_nat (GET_VALUE_BYTE be count (unat fillv) count 3), count)
      else if fopt = FILL_MEMSET_32 then Some (of_nat (GET_VALUE_BYTE be count (unat fillv) count 4), count)
      else if fopt = FILL_COUNT_8 then Some (of_nat count, count + 1)
      else if fopt = FILL_COUNT_16 then Some (of_nat (GET_VALUE_BYTE be count count count 2), count + 1)
      else if fopt = FILL_COUNT_24 then Some (of_nat (GET_VALUE_BYTE be count count count 3), count + 1)
      else if fopt = FILL_COUNT_32 then Some (of_nat (GET_VALUE_BYTE be count count count 4), count + 1)
      else if fopt = FILL_TRANSFER_BYTE_8 then Some (of_nat j, count)
      else if fopt = FILL_TRANSFER_BYTE_16 then Some (of_nat (GET_VALUE_BYTE be count j j 2), count)
      else if fopt = FILL_TRANSFER_BYTE_24 then Some (of_nat (GET_VALUE_BYTE be count j j 3), count)
      else if fopt = FILL_TRANSFER_BYTE_32 then Some (of_nat (GET_VALUE_BYTE be count j j 4), count)
      else if fopt = FILL_TRANSFER_NUM then Some (of_nat i, count)
      else None)"

text \<open>
  The fill pass only stores, it reads no memory. Its two loops therefore collect the
  stores in program order, and \<open>store_bytes\<close> applies them to the memory; a store through
  the null pointer stops the kernel (\<open>None\<close>). The inner loop runs over the bytes of
  transfer \<open>i\<close> (\<open>n\<close> is its length, \<open>p\<close> the pointer that walks the buffer).
\<close>

function fill_bytes_rich ::
  "bool \<Rightarrow> u32 \<Rightarrow> u32 \<Rightarrow> nat \<Rightarrow> nat \<Rightarrow> addr \<Rightarrow> nat \<Rightarrow> nat \<Rightarrow> store list
     \<Rightarrow> int \<times> nat \<times> store list" where
  "fill_bytes_rich be fopt fillv i n p j count stores =
     (if j < n then
        (case fill_byte_rich be fopt fillv i j count of
           None \<Rightarrow> (- EINVAL, count, stores)
         | Some v \<Rightarrow>
             fill_bytes_rich be fopt fillv i n (p + 1) (j + 1) (count + 1) (stores @ [(p, v)]))
      else (0, count, stores))"
  by pat_completeness auto
termination
  by (relation "measure (\<lambda>(be, fopt, fillv, i, n, p, j, count, stores). n - j)") auto

declare fill_bytes_rich.simps [simp del]

function fill_xfers_rich ::
  "bool \<Rightarrow> 'd spi_test_rich \<Rightarrow> nat \<Rightarrow> nat \<Rightarrow> store list \<Rightarrow> int \<times> store list" where
  "fill_xfers_rich be t i count stores =
     (if i < transfer_count t then
        (if tx_buf (transfers t i) = 0 then fill_xfers_rich be t (i + 1) count stores
         else
           (case fill_bytes_rich be (fill_option t) (fill t) i (len (transfers t i))
                   (tx_buf (transfers t i)) 0 count stores of
              (ret, count', stores') \<Rightarrow>
                if ret \<noteq> 0 then (ret, stores')
                else fill_xfers_rich be t (i + 1) count' stores'))
      else (0, stores))"
  by pat_completeness auto
termination
  by (relation "measure (\<lambda>(be, t, i, count, stores). transfer_count t - i)") auto

declare fill_xfers_rich.simps [simp del]

function fill_bytes_base ::
  "bool \<Rightarrow> u32 \<Rightarrow> u32 \<Rightarrow> nat \<Rightarrow> nat \<Rightarrow> addr \<Rightarrow> nat \<Rightarrow> nat \<Rightarrow> store list
     \<Rightarrow> int \<times> nat \<times> store list" where
  "fill_bytes_base be fopt fillv i n p j count stores =
     (if j < n then
        (case fill_byte_base be fopt fillv i j count of
           None \<Rightarrow> (- EINVAL, count, stores)
         | Some (v, count') \<Rightarrow>
             fill_bytes_base be fopt fillv i n (p + 1) (j + 1) (count' + 1) (stores @ [(p, v)]))
      else (0, count, stores))"
  by pat_completeness auto
termination
  by (relation "measure (\<lambda>(be, fopt, fillv, i, n, p, j, count, stores). n - j)") auto

declare fill_bytes_base.simps [simp del]

function fill_xfers_base ::
  "bool \<Rightarrow> 'd spi_test_base \<Rightarrow> nat \<Rightarrow> nat \<Rightarrow> store list \<Rightarrow> int \<times> store list" where
  "fill_xfers_base be t i count stores =
     (if i < transfers_base t then
        (case fill_bytes_base be (fill_option t) (fill t) i (len (xfers t i))
                (tx_buf (xfers t i)) 0 count stores of
           (ret, count', stores') \<Rightarrow>
             if ret \<noteq> 0 then (ret, stores')
             else fill_xfers_base be t (i + 1) count' stores')
      else (0, stores))"
  by pat_completeness auto
termination
  by (relation "measure (\<lambda>(be, t, i, count, stores). transfers_base t - i)") auto

declare fill_xfers_base.simps [simp del]

fun store_bytes :: "memory \<Rightarrow> store list \<Rightarrow> memory option" where
  "store_bytes m [] = Some m"
| "store_bytes m ((a, v) # ss) = (if a = 0 then None else store_bytes (m(a := v)) ss)"

text \<open>The return code and the stores of the whole pass, from \<^verbatim>\<open>count = 0\<close>.\<close>

definition fill_stores_rich :: "bool \<Rightarrow> 'd spi_test_rich \<Rightarrow> int \<times> store list" where
  "fill_stores_rich be t = fill_xfers_rich be t 0 0 []"

definition fill_stores_base :: "bool \<Rightarrow> 'd spi_test_base \<Rightarrow> int \<times> store list" where
  "fill_stores_base be t = fill_xfers_base be t 0 0 []"

definition spi_test_fill_tx_rich ::
  "bool \<Rightarrow> 'd spi_test_rich \<Rightarrow> 'd world \<Rightarrow> (int \<times> 'd world) option" where
  "spi_test_fill_tx_rich be t w =
     (case fill_stores_rich be t of
        (ret, stores) \<Rightarrow>
          (case store_bytes (mem w) stores of
             None \<Rightarrow> None
           | Some m \<Rightarrow> Some (ret, w\<lparr>mem := m\<rparr>)))"

definition spi_test_fill_tx_base ::
  "bool \<Rightarrow> 'd spi_test_base \<Rightarrow> 'd world \<Rightarrow> (int \<times> 'd world) option" where
  "spi_test_fill_tx_base be t w =
     (case fill_stores_base be t of
        (ret, stores) \<Rightarrow>
          (case store_bytes (mem w) stores of
             None \<Rightarrow> None
           | Some m \<Rightarrow> Some (ret, w\<lparr>mem := m\<rparr>)))"

subsection \<open>Execution and the loopback check\<close>

text \<open>
  \<^verbatim>\<open>spi_test_check_loopback_result\<close> (richer variant only). Its two inner loops start
  at byte 1 and leave at the first byte that differs (\<^verbatim>\<open>goto mismatch_error\<close>), with
  the index and the two bytes that the error line prints.
\<close>

function loopback_compare :: "memory \<Rightarrow> spi_transfer \<Rightarrow> nat \<Rightarrow> (nat \<times> u8 \<times> u8) option" where
  "loopback_compare m x i =
     (if i < len x then
        (let txb = m (tx_buf x + i); rxb = m (rx_buf x + i)
         in if txb \<noteq> rxb then Some (i, txb, rxb) else loopback_compare m x (i + 1))
      else None)"
  by pat_completeness auto
termination
  by (relation "measure (\<lambda>(m, x, i). len x - i)") auto

declare loopback_compare.simps [simp del]

function loopback_constant ::
  "memory \<Rightarrow> spi_transfer \<Rightarrow> u8 \<Rightarrow> nat \<Rightarrow> (nat \<times> u8 \<times> u8) option" where
  "loopback_constant m x txb i =
     (if i < len x then
        (let rxb = m (rx_buf x + i)
         in if rxb \<noteq> txb then Some (i, txb, rxb) else loopback_constant m x txb (i + 1))
      else None)"
  by pat_completeness auto
termination
  by (relation "measure (\<lambda>(m, x, txb, i). len x - i)") auto

declare loopback_constant.simps [simp del]

fun spi_test_check_loopback_result :: "memory \<Rightarrow> spi_transfer list \<Rightarrow> int \<times> event list" where
  "spi_test_check_loopback_result m [] = (0, [])"
| "spi_test_check_loopback_result m (x # xs) =
     (if rx_buf x = 0 then spi_test_check_loopback_result m xs
      else if tx_buf x \<noteq> 0 then
        (case loopback_compare m x 1 of
           Some (i, txb, rxb) \<Rightarrow> (- EINVAL, [Err_loopback_mismatch i txb rxb])
         | None \<Rightarrow> spi_test_check_loopback_result m xs)
      else
        (let txb = m (rx_buf x)
         in if \<not> (txb = 0 \<or> txb = 0xff) then (- EINVAL, [Err_loopback_idle txb])
            else
              (case loopback_constant m x txb 1 of
                 Some (i, txb', rxb) \<Rightarrow> (- EINVAL, [Err_loopback_mismatch i txb' rxb])
               | None \<Rightarrow> spi_test_check_loopback_result m xs)))"

text \<open>
  \<^verbatim>\<open>spi_test_dump_message\<close> of the richer variant. Its lines are not kept, but with
  \<^verbatim>\<open>dump_data\<close> it reads the buffers: \<^verbatim>\<open>print_hex_dump\<close> reads \<^verbatim>\<open>xfer->len\<close> bytes
  from the buffer it is given. The dump of the transmit data is guarded by
  \<^verbatim>\<open>xfer->tx_buf\<close>; the dump of the receive data is guarded by \<^verbatim>\<open>xfer->rx_buf\<close> and
  is given \<^verbatim>\<open>xfer->tx_buf\<close> as well, so for a transfer that has a receive buffer, no
  transmit buffer and a length other than 0 it reads through the null pointer, which
  stops the kernel (\<open>None\<close>). The dump of \<^verbatim>\<open>spi-test.c\<close> prints the addresses only.
\<close>

fun spi_test_dump_message :: "spi_transfer list \<Rightarrow> bool \<Rightarrow> unit option" where
  "spi_test_dump_message [] dump_data = Some ()"
| "spi_test_dump_message (x # xs) dump_data =
     (if dump_data \<and> rx_buf x \<noteq> 0 \<and> tx_buf x = 0 \<and> len x \<noteq> 0 then None
      else spi_test_dump_message xs dump_data)"

text \<open>
  \<^verbatim>\<open>spi_test_execute_msg\<close>. In \<^verbatim>\<open>spi-test.c\<close> it is the transport's result unless
  \<^verbatim>\<open>simulate_only\<close> is set (with \<^verbatim>\<open>dump_messages\<close> it first prints the message). The
  richer variant adds the check of the lengths and, with \<^verbatim>\<open>loopback\<close>, the loopback
  check; at its \<^verbatim>\<open>exit\<close> label it dumps the message when \<^verbatim>\<open>dump_messages\<close> is set or
  the result is an error, with the data when \<^verbatim>\<open>dump_messages\<close> is 2 or the result is an
  error. \<open>execute_result_rich\<close> is the part before the label.
\<close>

definition spi_test_execute_msg_base ::
  "'d env \<Rightarrow> spi_transfer list \<Rightarrow> 'd world \<Rightarrow> int \<times> 'd world" where
  "spi_test_execute_msg_base e msg w =
     (if simulate_only e \<noteq> 0 then (0, w)
      else
        (case spi_sync e msg (mem w) (dev w) of
           (ret, m, d, frame_length, actual_length) \<Rightarrow> (ret, w\<lparr>mem := m, dev := d\<rparr>)))"

definition execute_result_rich ::
  "'d env \<Rightarrow> spi_transfer list \<Rightarrow> 'd world \<Rightarrow> int \<times> 'd world" where
  "execute_result_rich e msg w =
     (if simulate_only e = 0 then
        (case spi_sync e msg (mem w) (dev w) of
           (ret, m, d, frame_length, actual_length) \<Rightarrow>
             (let w1 = w\<lparr>mem := m, dev := d\<rparr>
              in if ret \<noteq> 0 then (ret, w1)
                 else if frame_length \<noteq> actual_length then (- EIO, w1)
                 else if loopback e \<noteq> 0 then
                   (case spi_test_check_loopback_result m msg of
                      (ret', es) \<Rightarrow> (ret', w1\<lparr>msgs := msgs w1 @ es\<rparr>))
                 else (ret, w1)))
      else (0, w))"

definition spi_test_execute_msg_rich ::
  "'d env \<Rightarrow> spi_transfer list \<Rightarrow> 'd world \<Rightarrow> (int \<times> 'd world) option" where
  "spi_test_execute_msg_rich e msg w =
     (case execute_result_rich e msg w of
        (ret, w1) \<Rightarrow>
          if dump_messages e \<noteq> 0 \<or> ret \<noteq> 0 then
            (case spi_test_dump_message msg (dump_messages e = 2 \<or> ret \<noteq> 0) of
               None \<Rightarrow> None
             | Some u \<Rightarrow> Some (ret, w1))
          else Some (ret, w1))"

text \<open>
  The end of \<^verbatim>\<open>_spi_test_run\<close> (\<^verbatim>\<open>/* handle result */\<close>), the same in both variants:
  the result \<open>ret\<close> of the execution against \<^verbatim>\<open>test->expected_return\<close>.
\<close>

definition handle_result :: "int \<Rightarrow> int \<Rightarrow> int" where
  "handle_result ret expected =
     (if ret = expected then 0 else if ret \<noteq> 0 then ret else - EFAULT)"

subsection \<open>Building and running one message\<close>

text \<open>
  The loop of \<^verbatim>\<open>_spi_test_run\<close> that translates the buffers of the transfers in
  place, first \<^verbatim>\<open>tx_buf\<close>, then \<^verbatim>\<open>rx_buf\<close>, and returns at the first error. The
  message is the list of the transfers in order (\<^verbatim>\<open>spi_message_add_tail\<close>).
\<close>

function translate_xfers_base ::
  "nat \<Rightarrow> 'd spi_test_base \<Rightarrow> addr \<Rightarrow> addr \<Rightarrow> nat \<Rightarrow> int \<times> 'd spi_test_base" where
  "translate_xfers_base ps t tx rx i =
     (if i < transfers_base t then
        (case spi_test_translate_base ps (tx_buf (xfers t i)) (len (xfers t i)) tx rx of
           (ret, p) \<Rightarrow>
             (let t1 = t\<lparr>xfers := (xfers t)(i := (xfers t i)\<lparr>tx_buf := p\<rparr>)\<rparr>
              in if ret \<noteq> 0 then (ret, t1)
                 else
                   (case spi_test_translate_base ps (rx_buf (xfers t1 i)) (len (xfers t1 i)) tx rx of
                      (ret', q) \<Rightarrow>
                        (let t2 = t1\<lparr>xfers := (xfers t1)(i := (xfers t1 i)\<lparr>rx_buf := q\<rparr>)\<rparr>
                         in if ret' \<noteq> 0 then (ret', t2)
                            else translate_xfers_base ps t2 tx rx (i + 1)))))
      else (0, t))"
  by pat_completeness auto
termination
  by (relation "measure (\<lambda>(ps, t, tx, rx, i). transfers_base t - i)") auto

declare translate_xfers_base.simps [simp del]

function translate_xfers_rich ::
  "nat \<Rightarrow> 'd spi_test_rich \<Rightarrow> addr \<Rightarrow> addr \<Rightarrow> nat \<Rightarrow> int \<times> 'd spi_test_rich" where
  "translate_xfers_rich ps t tx rx i =
     (if i < transfer_count t then
        (case spi_test_translate_rich ps (tx_buf (transfers t i)) (len (transfers t i)) tx rx of
           (ret, p) \<Rightarrow>
             (let t1 = t\<lparr>transfers := (transfers t)(i := (transfers t i)\<lparr>tx_buf := p\<rparr>)\<rparr>
              in if ret \<noteq> 0 then (ret, t1)
                 else
                   (case spi_test_translate_rich ps (rx_buf (transfers t1 i))
                           (len (transfers t1 i)) tx rx of
                      (ret', q) \<Rightarrow>
                        (let t2 = t1\<lparr>transfers := (transfers t1)(i := (transfers t1 i)\<lparr>rx_buf := q\<rparr>)\<rparr>
                         in if ret' \<noteq> 0 then (ret', t2)
                            else translate_xfers_rich ps t2 tx rx (i + 1)))))
      else (0, t))"
  by pat_completeness auto
termination
  by (relation "measure (\<lambda>(ps, t, tx, rx, i). transfer_count t - i)") auto

declare translate_xfers_rich.simps [simp del]

definition message_base :: "'d spi_test_base \<Rightarrow> spi_transfer list" where
  "message_base t = map (xfers t) [0..<transfers_base t]"

definition message_rich :: "'d spi_test_rich \<Rightarrow> spi_transfer list" where
  "message_rich t = map (transfers t) [0..<transfer_count t]"

text \<open>
  The custom test function, when the test case has one, else \<^verbatim>\<open>spi_test_execute_msg\<close>.
\<close>

definition execute_base ::
  "'d env \<Rightarrow> 'd spi_test_base \<Rightarrow> addr \<Rightarrow> addr \<Rightarrow> 'd world \<Rightarrow> int \<times> 'd world" where
  "execute_base e t tx rx w =
     (case test t of
        Some f \<Rightarrow>
          (case f (message_base t) tx rx (mem w) (dev w) of
             (ret, m, d) \<Rightarrow> (ret, w\<lparr>mem := m, dev := d\<rparr>))
      | None \<Rightarrow> spi_test_execute_msg_base e (message_base t) w)"

definition execute_rich ::
  "'d env \<Rightarrow> 'd spi_test_rich \<Rightarrow> addr \<Rightarrow> addr \<Rightarrow> 'd world \<Rightarrow> (int \<times> 'd world) option" where
  "execute_rich e t tx rx w =
     (case test t of
        Some f \<Rightarrow>
          (case f (message_rich t) tx rx (mem w) (dev w) of
             (ret, m, d) \<Rightarrow> Some (ret, w\<lparr>mem := m, dev := d\<rparr>))
      | None \<Rightarrow> spi_test_execute_msg_rich e (message_rich t) w)"

text \<open>
  \<^verbatim>\<open>_spi_test_run\<close> (an Isabelle name cannot start with an underscore, so it is
  \<open>u_spi_test_run\<close> here). It works on the test case it is given: the model returns the
  code, the test case with the translated transfers and the world. \<^verbatim>\<open>spi-test.c\<close>
  checks the number of transfers here; the richer variant does it in \<^verbatim>\<open>spi_test_run\<close>.
\<close>

definition u_spi_test_run_base ::
  "'d env \<Rightarrow> 'd spi_test_base \<Rightarrow> addr \<Rightarrow> addr \<Rightarrow> 'd world
     \<Rightarrow> (int \<times> 'd spi_test_base \<times> 'd world) option" where
  "u_spi_test_run_base e t tx rx w =
     (if SPI_TEST_MAX_TRANSFERS \<le> transfers_base t then Some (- E2BIG, t, w)
      else
        (case translate_xfers_base (page_size e) t tx rx 0 of
           (ret, t1) \<Rightarrow>
             if ret \<noteq> 0 then Some (ret, t1, w)
             else
               (case spi_test_fill_tx_base (big_endian e) t1 w of
                  None \<Rightarrow> None
                | Some (ret', w1) \<Rightarrow>
                    if ret' \<noteq> 0 then Some (ret', t1, w1)
                    else
                      (case execute_base e t1 tx rx w1 of
                         (ret'', w2) \<Rightarrow>
                           Some (handle_result ret'' (expected_return t1), t1, w2)))))"

definition u_spi_test_run_rich ::
  "'d env \<Rightarrow> 'd spi_test_rich \<Rightarrow> addr \<Rightarrow> addr \<Rightarrow> 'd world
     \<Rightarrow> (int \<times> 'd spi_test_rich \<times> 'd world) option" where
  "u_spi_test_run_rich e t tx rx w =
     (case translate_xfers_rich (page_size e) t tx rx 0 of
        (ret, t1) \<Rightarrow>
          if ret \<noteq> 0 then Some (ret, t1, w)
          else
            (case spi_test_fill_tx_rich (big_endian e) t1 w of
               None \<Rightarrow> None
             | Some (ret', w1) \<Rightarrow>
                 if ret' \<noteq> 0 then Some (ret', t1, w1)
                 else
                   (case execute_rich e t1 tx rx w1 of
                      None \<Rightarrow> None
                    | Some (ret'', w2) \<Rightarrow>
                        Some (handle_result ret'' (expected_return t1), t1, w2))))"

subsection \<open>One iteration point\<close>

text \<open>
  \<^verbatim>\<open>spi_test_run_iter\<close> copies the template, patches the copy with the values of the
  iteration point and runs it. In \<^verbatim>\<open>spi-test.c\<close> an offset is added when it is not 0
  and the buffer is there.
\<close>

definition patch_xfer_base :: "nat \<Rightarrow> nat \<Rightarrow> nat \<Rightarrow> spi_transfer \<Rightarrow> spi_transfer" where
  "patch_xfer_base n tx_off rx_off x =
     (let x1 = (if n \<noteq> 0 then x\<lparr>len := n\<rparr> else x);
          x2 = (if tx_off \<noteq> 0 \<and> tx_buf x1 \<noteq> 0 then x1\<lparr>tx_buf := tx_buf x1 + tx_off\<rparr> else x1);
          x3 = (if rx_off \<noteq> 0 \<and> rx_buf x2 \<noteq> 0 then x2\<lparr>rx_buf := rx_buf x2 + rx_off\<rparr> else x2)
      in x3)"

function patch_xfers_base ::
  "'d spi_test_base \<Rightarrow> nat \<Rightarrow> nat \<Rightarrow> nat \<Rightarrow> nat \<Rightarrow> 'd spi_test_base" where
  "patch_xfers_base t n tx_off rx_off i =
     (if i < transfers_base t then
        patch_xfers_base (t\<lparr>xfers := (xfers t)(i := patch_xfer_base n tx_off rx_off (xfers t i))\<rparr>)
          n tx_off rx_off (i + 1)
      else t)"
  by pat_completeness auto
termination
  by (relation "measure (\<lambda>(t, n, tx_off, rx_off, i). transfers_base t - i)") auto

declare patch_xfers_base.simps [simp del]

definition spi_test_run_iter_base ::
  "'d env \<Rightarrow> 'd spi_test_base \<Rightarrow> addr \<Rightarrow> addr \<Rightarrow> nat \<Rightarrow> nat \<Rightarrow> nat \<Rightarrow> 'd world
     \<Rightarrow> (int \<times> 'd world) option" where
  "spi_test_run_iter_base e testtemplate tx rx n tx_off rx_off w =
     (let w1 = w\<lparr>msgs := msgs w @
                 [if \<not> (n \<noteq> 0 \<or> tx_off \<noteq> 0 \<or> rx_off \<noteq> 0)
                  then Info_running_test (description testtemplate)
                  else Info_iteration_values n tx_off rx_off]\<rparr>;
          t1 = patch_xfers_base testtemplate n tx_off rx_off 0
      in case u_spi_test_run_base e t1 tx rx w1 of
           None \<Rightarrow> None
         | Some (ret, t2, w2) \<Rightarrow> Some (ret, w2))"

text \<open>
  The richer variant first sets \<^verbatim>\<open>transfer_count\<close> when it is 0 (the number of leading
  transfers with a length), then counts the transfers that have a tx and an rx buffer
  into \<^verbatim>\<open>tx_count\<close> and \<^verbatim>\<open>rx_count\<close> (32-bit counters that start from whatever the
  stack holds), and leaves with 0 when an offset is asked for and the counter of its
  direction is 0. At a point other than (0, 0, 0) it patches every transfer: the length
  when it is given, \<^verbatim>\<open>tx_buf\<close> when \<^verbatim>\<open>tx_buf\<close> is there, and \<^verbatim>\<open>rx_buf\<close> when
  \<^verbatim>\<open>tx_buf\<close> is there.
\<close>

function count_transfers :: "(nat \<Rightarrow> spi_transfer) \<Rightarrow> nat \<Rightarrow> nat \<Rightarrow> nat" where
  "count_transfers xs i c =
     (if i < SPI_TEST_MAX_TRANSFERS \<and> len (xs i) \<noteq> 0 then count_transfers xs (i + 1) (c + 1)
      else c)"
  by pat_completeness auto
termination
  by (relation "measure (\<lambda>(xs, i, c). SPI_TEST_MAX_TRANSFERS - i)") auto

declare count_transfers.simps [simp del]

function count_buffers ::
  "'d spi_test_rich \<Rightarrow> nat \<Rightarrow> 32 word \<Rightarrow> 32 word \<Rightarrow> 32 word \<times> 32 word" where
  "count_buffers t i tx_count rx_count =
     (if i < transfer_count t then
        count_buffers t (i + 1)
          (if tx_buf (transfers t i) \<noteq> 0 then tx_count + 1 else tx_count)
          (if rx_buf (transfers t i) \<noteq> 0 then rx_count + 1 else rx_count)
      else (tx_count, rx_count))"
  by pat_completeness auto
termination
  by (relation "measure (\<lambda>(t, i, tx_count, rx_count). transfer_count t - i)") auto

declare count_buffers.simps [simp del]

definition patch_xfer_rich :: "nat \<Rightarrow> nat \<Rightarrow> nat \<Rightarrow> spi_transfer \<Rightarrow> spi_transfer" where
  "patch_xfer_rich n tx_off rx_off x =
     (let x1 = (if n \<noteq> 0 then x\<lparr>len := n\<rparr> else x);
          x2 = (if tx_buf x1 \<noteq> 0 then x1\<lparr>tx_buf := tx_buf x1 + tx_off\<rparr> else x1);
          x3 = (if tx_buf x2 \<noteq> 0 then x2\<lparr>rx_buf := rx_buf x2 + rx_off\<rparr> else x2)
      in x3)"

function patch_xfers_rich ::
  "'d spi_test_rich \<Rightarrow> nat \<Rightarrow> nat \<Rightarrow> nat \<Rightarrow> nat \<Rightarrow> 'd spi_test_rich" where
  "patch_xfers_rich t n tx_off rx_off i =
     (if i < transfer_count t then
        patch_xfers_rich
          (t\<lparr>transfers := (transfers t)(i := patch_xfer_rich n tx_off rx_off (transfers t i))\<rparr>)
          n tx_off rx_off (i + 1)
      else t)"
  by pat_completeness auto
termination
  by (relation "measure (\<lambda>(t, n, tx_off, rx_off, i). transfer_count t - i)") auto

declare patch_xfers_rich.simps [simp del]

definition spi_test_run_iter_rich ::
  "'d env \<Rightarrow> 'd spi_test_rich \<Rightarrow> addr \<Rightarrow> addr \<Rightarrow> nat \<Rightarrow> nat \<Rightarrow> nat \<Rightarrow> 'd world
     \<Rightarrow> (int \<times> 'd world) option" where
  "spi_test_run_iter_rich e testtemplate tx rx n tx_off rx_off w =
     (let t1 = (if transfer_count testtemplate = 0
                then testtemplate\<lparr>transfer_count := count_transfers (transfers testtemplate) 0 0\<rparr>
                else testtemplate);
          (tx_count, rx_count) = count_buffers t1 0 (stack_tx_count e) (stack_rx_count e)
      in if tx_off \<noteq> 0 \<and> tx_count = 0 then Some (0, w)
         else if rx_off \<noteq> 0 \<and> rx_count = 0 then Some (0, w)
         else
           (let (t2, w1) =
                  (if \<not> (n \<noteq> 0 \<or> tx_off \<noteq> 0 \<or> rx_off \<noteq> 0)
                   then (t1, w\<lparr>msgs := msgs w @ [Info_running_test (description t1)]\<rparr>)
                   else (patch_xfers_rich t1 n tx_off rx_off 0,
                         w\<lparr>msgs := msgs w @ [Info_iteration_values n tx_off rx_off]\<rparr>))
            in case u_spi_test_run_rich e t2 tx rx w1 of
                 None \<Rightarrow> None
               | Some (ret, t3, w2) \<Rightarrow> Some (ret, w2)))"

subsection \<open>The iteration driver and the catalog driver\<close>

text \<open>
  The macro \<^verbatim>\<open>FOR_EACH_ITERATE(var, defaultvalue)\<close>: the index starts at -1, where the
  variable has its default; from index 0 on the variable is the entry of the array, and
  the loop ends at the first entry that is 0 or at \<^verbatim>\<open>SPI_TEST_MAX_ITERATE\<close>. The body
  is a parameter: it returns the code and the world, and a code other than 0 is the
  \<^verbatim>\<open>return ret\<close> that leaves all the loops.
\<close>

function FOR_EACH_ITERATE ::
  "nat list \<Rightarrow> nat \<Rightarrow> (nat \<Rightarrow> 'w \<Rightarrow> (int \<times> 'w) option) \<Rightarrow> int \<Rightarrow> 'w \<Rightarrow> (int \<times> 'w) option" where
  "FOR_EACH_ITERATE arr defaultvalue body idx w =
     (if idx < 0 \<or> (idx < int SPI_TEST_MAX_ITERATE \<and> array_get arr (nat idx) \<noteq> 0) then
        (case body (if idx < 0 then defaultvalue else array_get arr (nat idx)) w of
           None \<Rightarrow> None
         | Some (ret, w1) \<Rightarrow>
             if ret \<noteq> 0 then Some (ret, w1)
             else FOR_EACH_ITERATE arr defaultvalue body (idx + 1) w1)
      else Some (0, w))"
  by pat_completeness auto
termination
  by (relation "measure (\<lambda>(arr, defaultvalue, body, idx, w). nat (int SPI_TEST_MAX_ITERATE - idx))")
     auto

declare FOR_EACH_ITERATE.simps [simp del]

text \<open>
  The macro \<^verbatim>\<open>FOR_EACH_ALIGNMENT(var)\<close> of the richer variant: the variable runs from 0
  to the bound, which is 1 when the axis is not configured, else the alignment of the
  controller when that is not 0, else the configured value.
\<close>

definition alignment_bound :: "'d env \<Rightarrow> nat \<Rightarrow> nat" where
  "alignment_bound e a = (if a \<noteq> 0 then (if dma_alignment e \<noteq> 0 then dma_alignment e else a) else 1)"

function FOR_EACH_ALIGNMENT ::
  "nat \<Rightarrow> (nat \<Rightarrow> 'w \<Rightarrow> (int \<times> 'w) option) \<Rightarrow> nat \<Rightarrow> 'w \<Rightarrow> (int \<times> 'w) option" where
  "FOR_EACH_ALIGNMENT bound body var w =
     (if var < bound then
        (case body var w of
           None \<Rightarrow> None
         | Some (ret, w1) \<Rightarrow>
             if ret \<noteq> 0 then Some (ret, w1)
             else FOR_EACH_ALIGNMENT bound body (var + 1) w1)
      else Some (0, w))"
  by pat_completeness auto
termination
  by (relation "measure (\<lambda>(bound, body, var, w). bound - var)") auto

declare FOR_EACH_ALIGNMENT.simps [simp del]

text \<open>
  \<^verbatim>\<open>spi_test_run\<close>: the three nested loops. In \<^verbatim>\<open>spi-test.c\<close> it first prints the
  heading \<^verbatim>\<open>Running test %s with iterations\<close> when an axis is configured (one of the
  lines that the model leaves out); the richer variant first checks the number of
  transfers.
\<close>

definition spi_test_run_base ::
  "'d env \<Rightarrow> addr \<Rightarrow> addr \<Rightarrow> 'd spi_test_base \<Rightarrow> 'd world \<Rightarrow> (int \<times> 'd world) option" where
  "spi_test_run_base e tx rx t w =
     FOR_EACH_ITERATE (iterate_len t) 0
       (\<lambda>n. FOR_EACH_ITERATE (iterate_tx_off t) 0
          (\<lambda>tx_off. FOR_EACH_ITERATE (iterate_rx_off t) 0
             (\<lambda>rx_off. spi_test_run_iter_base e t tx rx n tx_off rx_off) (- 1)) (- 1)) (- 1) w"

definition spi_test_run_rich ::
  "'d env \<Rightarrow> addr \<Rightarrow> addr \<Rightarrow> 'd spi_test_rich \<Rightarrow> 'd world \<Rightarrow> (int \<times> 'd world) option" where
  "spi_test_run_rich e tx rx t w =
     (if SPI_TEST_MAX_TRANSFERS \<le> transfer_count t then Some (- E2BIG, w)
      else
        FOR_EACH_ITERATE (iterate_len t) 0
          (\<lambda>n. FOR_EACH_ALIGNMENT (alignment_bound e (iterate_tx_align t))
             (\<lambda>tx_align. FOR_EACH_ALIGNMENT (alignment_bound e (iterate_rx_align t))
                (\<lambda>rx_align. spi_test_run_iter_rich e t tx rx n tx_align rx_align) 0) 0) (- 1) w)"

text \<open>
  \<^verbatim>\<open>spi_test_probe\<close> walks the table up to its first entry with an empty description
  and stops at the first test that fails. The two buffers come from \<^verbatim>\<open>kzalloc\<close>, which
  is the kernel's: the addresses it returned are the arguments \<open>rx\<close> and \<open>tx\<close> (0 when
  the allocation failed, and then the second one is not tried).
\<close>

fun run_tests_base ::
  "'d env \<Rightarrow> addr \<Rightarrow> addr \<Rightarrow> 'd spi_test_base list \<Rightarrow> 'd world \<Rightarrow> (int \<times> 'd world) option" where
  "run_tests_base e tx rx [] w = Some (0, w)"
| "run_tests_base e tx rx (t # ts) w =
     (if description t = [] then Some (0, w)
      else
        (case spi_test_run_base e tx rx t w of
           None \<Rightarrow> None
         | Some (ret, w1) \<Rightarrow>
             if ret \<noteq> 0 then Some (ret, w1) else run_tests_base e tx rx ts w1))"

fun run_tests_rich ::
  "'d env \<Rightarrow> addr \<Rightarrow> addr \<Rightarrow> 'd spi_test_rich list \<Rightarrow> 'd world \<Rightarrow> (int \<times> 'd world) option" where
  "run_tests_rich e tx rx [] w = Some (0, w)"
| "run_tests_rich e tx rx (t # ts) w =
     (if description t = [] then Some (0, w)
      else
        (case spi_test_run_rich e tx rx t w of
           None \<Rightarrow> None
         | Some (ret, w1) \<Rightarrow>
             if ret \<noteq> 0 then Some (ret, w1) else run_tests_rich e tx rx ts w1))"

definition spi_test_probe_base ::
  "'d env \<Rightarrow> 'd spi_test_base list \<Rightarrow> addr \<Rightarrow> addr \<Rightarrow> 'd world \<Rightarrow> (int \<times> 'd world) option" where
  "spi_test_probe_base e spi_tests rx tx w =
     (if rx = 0 then Some (- ENOMEM, w)
      else if tx = 0 then Some (- ENOMEM, w)
      else run_tests_base e tx rx spi_tests w)"

definition spi_test_probe_rich ::
  "'d env \<Rightarrow> 'd spi_test_rich list \<Rightarrow> addr \<Rightarrow> addr \<Rightarrow> 'd world \<Rightarrow> (int \<times> 'd world) option" where
  "spi_test_probe_rich e spi_tests rx tx w =
     (if rx = 0 then Some (- ENOMEM, w)
      else if tx = 0 then Some (- ENOMEM, w)
      else run_tests_rich e tx rx spi_tests w)"

subsection \<open>The catalogs\<close>

text \<open>
  The tables \<^verbatim>\<open>spi_tests\<close>. An initialiser sets the fields it names and leaves the
  others 0, so every entry is an update of the entry that ends the table.
  \<^verbatim>\<open>ITERATE_ALIGN\<close> is \<^verbatim>\<open>sizeof(int)\<close>.
\<close>

definition end_of_tests_base :: "'d spi_test_base" where
  "end_of_tests_base =
     \<lparr>description = [], iterate_len = [], test = None, expected_return = 0, fill = 0,
      fill_option = 0, iterate_tx_off = [], iterate_rx_off = [], transfers_base = 0,
      xfers = (\<lambda>i. no_transfer)\<rparr>"

definition end_of_tests_rich :: "'d spi_test_rich" where
  "end_of_tests_rich =
     \<lparr>description = [], iterate_len = [], test = None, expected_return = 0, fill = 0,
      fill_option = 0, iterate_tx_align = 0, iterate_rx_align = 0, transfer_count = 0,
      transfers = (\<lambda>i. no_transfer)\<rparr>"

definition spi_tests_base :: "nat \<Rightarrow> 'd spi_test_base list" where
  "spi_tests_base ps =
     [end_of_tests_base
        \<lparr>description := ''simple tx-transfer'',
         iterate_len := [16, 32, 64, 128, 256, 1024, ps, 32768, 65536, SPI_TEST_MAX_SIZE ps],
         iterate_tx_off := [1, 2, 3, 4, 5, 6, 7],
         transfers_base := 1,
         xfers := (\<lambda>i. no_transfer)(0 := \<lparr>tx_buf = TX 0, rx_buf = 0, len = 1\<rparr>)\<rparr>,
      end_of_tests_base
        \<lparr>description := ''simple rx-transfer'',
         iterate_len := [16, 32, 64, 128, 256, 1024, ps, 32768, 65536, SPI_TEST_MAX_SIZE ps],
         iterate_rx_off := [1, 2, 3, 4, 5, 6, 7],
         transfers_base := 1,
         xfers := (\<lambda>i. no_transfer)(0 := \<lparr>tx_buf = 0, rx_buf = RX 0, len = 1\<rparr>)\<rparr>,
      end_of_tests_base
        \<lparr>description := ''simple tx/rx-transfer'',
         iterate_len := [16, 32, 64, 128, 256, 1024, ps, 32768, 65536, SPI_TEST_MAX_SIZE ps],
         iterate_tx_off := [1, 2, 3, 4, 5, 6, 7],
         iterate_rx_off := [1, 2, 3, 4, 5, 6, 7],
         transfers_base := 1,
         xfers := (\<lambda>i. no_transfer)(0 := \<lparr>tx_buf = TX 0, rx_buf = RX 0, len = 1\<rparr>)\<rparr>,
      end_of_tests_base]"

definition ITERATE_LEN :: "nat \<Rightarrow> nat list" where
  "ITERATE_LEN ps = [16, 32, 64, 128, 256, 1024, ps, SPI_TEST_MAX_SIZE ps]"

definition ITERATE_ALIGN :: nat where
  "ITERATE_ALIGN = 4"

definition spi_tests_rich :: "nat \<Rightarrow> 'd spi_test_rich list" where
  "spi_tests_rich ps =
     [end_of_tests_rich
        \<lparr>description := ''tx/rx-transfer - start of page'',
         fill_option := FILL_COUNT_8,
         iterate_len := ITERATE_LEN ps,
         iterate_tx_align := ITERATE_ALIGN,
         iterate_rx_align := ITERATE_ALIGN,
         transfers := (\<lambda>i. no_transfer)(0 := \<lparr>tx_buf = TX 0, rx_buf = RX 0, len = 1\<rparr>)\<rparr>,
      end_of_tests_rich
        \<lparr>description := ''tx/rx-transfer - crossing PAGE_SIZE'',
         fill_option := FILL_COUNT_8,
         iterate_len := ITERATE_LEN ps,
         iterate_tx_align := ITERATE_ALIGN,
         iterate_rx_align := ITERATE_ALIGN,
         transfers := (\<lambda>i. no_transfer)
           (0 := \<lparr>tx_buf = TX (ps - 4), rx_buf = RX (ps - 4), len = 1\<rparr>)\<rparr>,
      end_of_tests_rich
        \<lparr>description := ''tx-transfer - only'',
         fill_option := FILL_COUNT_8,
         iterate_len := ITERATE_LEN ps,
         iterate_tx_align := ITERATE_ALIGN,
         transfers := (\<lambda>i. no_transfer)(0 := \<lparr>tx_buf = TX 0, rx_buf = 0, len = 1\<rparr>)\<rparr>,
      end_of_tests_rich
        \<lparr>description := ''rx-transfer - only'',
         fill_option := FILL_COUNT_8,
         iterate_len := ITERATE_LEN ps,
         iterate_rx_align := ITERATE_ALIGN,
         transfers := (\<lambda>i. no_transfer)(0 := \<lparr>tx_buf = 0, rx_buf = RX 0, len = 1\<rparr>)\<rparr>,
      end_of_tests_rich]"

subsection \<open>Notions used to state the properties\<close>

text \<open>
  These definitions are not code of the driver. The fill options that the \<^verbatim>\<open>switch\<close>
  knows; the addresses of the transmit buffer of a transfer (none when it has no
  transmit buffer) and the number of such bytes of a test case; the four counter
  modes with their width in bytes, and the byte that a counter mode of width \<open>w\<close> puts
  at position \<open>k\<close>: byte number \<open>k mod w\<close> of the value \<open>k\<close> itself, counted from the
  least significant byte (from the most significant of the \<open>w\<close> bytes on a big-endian
  machine).
\<close>

definition fill_option_known :: "u32 \<Rightarrow> bool" where
  "fill_option_known fopt =
     (fopt \<in> set [FILL_MEMSET_8, FILL_MEMSET_16, FILL_MEMSET_24, FILL_MEMSET_32,
        FILL_COUNT_8, FILL_COUNT_16, FILL_COUNT_24, FILL_COUNT_32,
        FILL_TRANSFER_BYTE_8, FILL_TRANSFER_BYTE_16, FILL_TRANSFER_BYTE_24,
        FILL_TRANSFER_BYTE_32, FILL_TRANSFER_NUM])"

definition tx_range :: "spi_transfer \<Rightarrow> addr list" where
  "tx_range x = (if tx_buf x = 0 then [] else map (\<lambda>j. tx_buf x + j) [0..<len x])"

definition tx_bytes :: "'d spi_test_rich \<Rightarrow> nat" where
  "tx_bytes t = length (concat (map (\<lambda>k. tx_range (transfers t k)) [0..<transfer_count t]))"

definition count_modes :: "(u32 \<times> nat) list" where
  "count_modes = [(FILL_COUNT_8, 1), (FILL_COUNT_16, 2), (FILL_COUNT_24, 3), (FILL_COUNT_32, 4)]"

definition count_byte :: "bool \<Rightarrow> nat \<Rightarrow> nat \<Rightarrow> u8" where
  "count_byte be w k = of_nat (drop_bit (8 * (if be then w - 1 - k mod w else k mod w)) k)"

text \<open>
  The drivers, as the specification describes them: \<open>run_points\<close> runs a list of
  points in order and stops at the first code other than 0; \<open>iterate_values\<close> are the
  values of one iteration axis (the default, then the entries of the array up to the
  first 0 or to \<^verbatim>\<open>SPI_TEST_MAX_ITERATE\<close>); the iteration points of a test case are the
  product of its axes, the first axis varying slowest.
\<close>

fun run_points :: "('p \<Rightarrow> 'w \<Rightarrow> (int \<times> 'w) option) \<Rightarrow> 'p list \<Rightarrow> 'w \<Rightarrow> (int \<times> 'w) option" where
  "run_points body [] w = Some (0, w)"
| "run_points body (p # ps) w =
     (case body p w of
        None \<Rightarrow> None
      | Some (ret, w1) \<Rightarrow> if ret \<noteq> 0 then Some (ret, w1) else run_points body ps w1)"

definition iterate_values :: "nat list \<Rightarrow> nat \<Rightarrow> nat list" where
  "iterate_values arr defaultvalue =
     defaultvalue # takeWhile (\<lambda>v. v \<noteq> 0) (map (array_get arr) [0..<SPI_TEST_MAX_ITERATE])"

definition iteration_points_base :: "'d spi_test_base \<Rightarrow> (nat \<times> nat \<times> nat) list" where
  "iteration_points_base t =
     List.product (iterate_values (iterate_len t) 0)
       (List.product (iterate_values (iterate_tx_off t) 0) (iterate_values (iterate_rx_off t) 0))"

definition iteration_points_rich :: "'d env \<Rightarrow> 'd spi_test_rich \<Rightarrow> (nat \<times> nat \<times> nat) list" where
  "iteration_points_rich e t =
     List.product (iterate_values (iterate_len t) 0)
       (List.product [0..<alignment_bound e (iterate_tx_align t)]
                     [0..<alignment_bound e (iterate_rx_align t)])"

definition run_point_base ::
  "'d env \<Rightarrow> 'd spi_test_base \<Rightarrow> addr \<Rightarrow> addr \<Rightarrow> nat \<times> nat \<times> nat \<Rightarrow> 'd world
     \<Rightarrow> (int \<times> 'd world) option" where
  "run_point_base e t tx rx = (\<lambda>(n, tx_off, rx_off). spi_test_run_iter_base e t tx rx n tx_off rx_off)"

definition run_point_rich ::
  "'d env \<Rightarrow> 'd spi_test_rich \<Rightarrow> addr \<Rightarrow> addr \<Rightarrow> nat \<times> nat \<times> nat \<Rightarrow> 'd world
     \<Rightarrow> (int \<times> 'd world) option" where
  "run_point_rich e t tx rx = (\<lambda>(n, tx_off, rx_off). spi_test_run_iter_rich e t tx rx n tx_off rx_off)"

text \<open>The progress lines among the diagnostics: one for each iteration point that ran.\<close>

fun is_progress :: "event \<Rightarrow> bool" where
  "is_progress (Info_running_test d) = True"
| "is_progress (Info_iteration_values n tx_off rx_off) = True"
| "is_progress (Err_loopback_idle b) = False"
| "is_progress (Err_loopback_mismatch i txb rxb) = False"

definition progress :: "event list \<Rightarrow> event list" where
  "progress es = filter is_progress es"

text \<open>
  The progress line of an iteration point of the test case described by \<open>d\<close>.
\<close>

definition progress_line :: "string \<Rightarrow> nat \<times> nat \<times> nat \<Rightarrow> event" where
  "progress_line d = (\<lambda>(n, tx_off, rx_off).
     if \<not> (n \<noteq> 0 \<or> tx_off \<noteq> 0 \<or> rx_off \<noteq> 0) then Info_running_test d
     else Info_iteration_values n tx_off rx_off)"

subsection \<open>Test cases and environments of the examples\<close>

text \<open>
  Two transfers of one byte each with \<^verbatim>\<open>FILL_COUNT_8\<close>, in both variants; one transfer
  of 17 bytes with \<^verbatim>\<open>FILL_COUNT_16\<close>; and the test \<^verbatim>\<open>simple rx-transfer\<close> of the
  catalog of \<^verbatim>\<open>spi-test.c\<close> as the fill pass sees it, its receive buffer translated
  to the address 8192. The buffers of the examples are at 4096 and 8192.
\<close>

definition two_bytes_rich :: "unit spi_test_rich" where
  "two_bytes_rich =
     \<lparr>description = ''two transfers of one byte'', iterate_len = [], test = None,
      expected_return = 0, fill = 0, fill_option = FILL_COUNT_8,
      iterate_tx_align = 0, iterate_rx_align = 0, transfer_count = 2,
      transfers = (\<lambda>i. no_transfer)
        (0 := \<lparr>tx_buf = 4096, rx_buf = 0, len = 1\<rparr>,
         1 := \<lparr>tx_buf = 4097, rx_buf = 0, len = 1\<rparr>)\<rparr>"

definition two_bytes_base :: "unit spi_test_base" where
  "two_bytes_base =
     \<lparr>description = ''two transfers of one byte'', iterate_len = [], test = None,
      expected_return = 0, fill = 0, fill_option = FILL_COUNT_8,
      iterate_tx_off = [], iterate_rx_off = [], transfers_base = 2,
      xfers = (\<lambda>i. no_transfer)
        (0 := \<lparr>tx_buf = 4096, rx_buf = 0, len = 1\<rparr>,
         1 := \<lparr>tx_buf = 4097, rx_buf = 0, len = 1\<rparr>)\<rparr>"

definition seventeen_bytes_rich :: "unit spi_test_rich" where
  "seventeen_bytes_rich =
     \<lparr>description = ''one transfer of 17 bytes'', iterate_len = [], test = None,
      expected_return = 0, fill = 0, fill_option = FILL_COUNT_16,
      iterate_tx_align = 0, iterate_rx_align = 0, transfer_count = 1,
      transfers = (\<lambda>i. no_transfer)(0 := \<lparr>tx_buf = 4096, rx_buf = 0, len = 17\<rparr>)\<rparr>"

definition simple_rx_transfer_base :: "unit spi_test_base" where
  "simple_rx_transfer_base =
     \<lparr>description = ''simple rx-transfer'',
      iterate_len = [], test = None, expected_return = 0, fill = 0, fill_option = 0,
      iterate_tx_off = [], iterate_rx_off = [], transfers_base = 1,
      xfers = (\<lambda>i. no_transfer)(0 := \<lparr>tx_buf = 0, rx_buf = 8192, len = 1\<rparr>)\<rparr>"

text \<open>
  The memories of the loopback examples: \<open>with_bytes a bs m\<close> is \<open>m\<close> with the bytes
  \<open>bs\<close> from address \<open>a\<close> on. The transmit buffer is at 4096, the receive buffer at 8192.
\<close>

fun with_bytes :: "addr \<Rightarrow> u8 list \<Rightarrow> memory \<Rightarrow> memory" where
  "with_bytes a [] m = m"
| "with_bytes a (b # bs) m = with_bytes (a + 1) bs (m(a := b))"

definition duplex_xfer :: spi_transfer where
  "duplex_xfer = \<lparr>tx_buf = 4096, rx_buf = 8192, len = 3\<rparr>"

definition rx_only_xfer :: spi_transfer where
  "rx_only_xfer = \<lparr>tx_buf = 0, rx_buf = 8192, len = 3\<rparr>"

definition echo_good :: memory where
  "echo_good = with_bytes 4096 [0x00, 0x11, 0x22] (with_bytes 8192 [0xFF, 0x11, 0x22] (\<lambda>a. 0))"

definition echo_bad :: memory where
  "echo_bad = with_bytes 4096 [0x00, 0x11, 0x22] (with_bytes 8192 [0xFF, 0x11, 0x23] (\<lambda>a. 0))"

definition idle_low :: memory where
  "idle_low = with_bytes 8192 [0x00, 0x00, 0x00] (\<lambda>a. 0x77)"

definition idle_five :: memory where
  "idle_five = with_bytes 8192 [0x05, 0x05, 0x05] (\<lambda>a. 0x77)"

definition idle_broken :: memory where
  "idle_broken = with_bytes 8192 [0xFF, 0xFF, 0x00] (\<lambda>a. 0x77)"

text \<open>
  Environments and worlds of the examples: pages of 4096 bytes, a little-endian
  machine, no alignment of the controller. \<open>simulation\<close> has \<^verbatim>\<open>simulate_only\<close> set;
  \<open>bus_returning r\<close> runs the transport, which returns \<open>r\<close> and touches nothing. The
  memory of \<open>blank\<close> is all 0, as \<^verbatim>\<open>kzalloc\<close> leaves the buffers.
\<close>

definition simulation :: "unit env" where
  "simulation =
     \<lparr>page_size = 4096, big_endian = False, simulate_only = 1, dump_messages = 0, loopback = 0,
      dma_alignment = 0, spi_sync = (\<lambda>msg m d. (0, m, d, 0, 0)),
      stack_tx_count = 0, stack_rx_count = 0\<rparr>"

definition bus_returning :: "int \<Rightarrow> unit env" where
  "bus_returning r = simulation\<lparr>simulate_only := 0, spi_sync := (\<lambda>msg m d. (r, m, d, 0, 0))\<rparr>"

definition blank :: "unit world" where
  "blank = \<lparr>mem = (\<lambda>a. 0), dev = (), msgs = []\<rparr>"

text \<open>
  Test cases with one transfer of one byte, each with the return code it expects:
  receive only and transmit only in the richer variant, transmit only in
  \<^verbatim>\<open>spi-test.c\<close>.
\<close>

definition rx_byte_rich :: "int \<Rightarrow> unit spi_test_rich" where
  "rx_byte_rich expected =
     end_of_tests_rich
       \<lparr>description := ''one byte received'', expected_return := expected, transfer_count := 1,
        transfers := (\<lambda>i. no_transfer)(0 := \<lparr>tx_buf = 0, rx_buf = RX 0, len = 1\<rparr>)\<rparr>"

definition tx_byte_base :: "int \<Rightarrow> unit spi_test_base" where
  "tx_byte_base expected =
     end_of_tests_base
       \<lparr>description := ''one byte sent'', expected_return := expected, transfers_base := 1,
        xfers := (\<lambda>i. no_transfer)(0 := \<lparr>tx_buf = TX 0, rx_buf = 0, len = 1\<rparr>)\<rparr>"

definition tx_byte_rich :: "int \<Rightarrow> unit spi_test_rich" where
  "tx_byte_rich expected =
     end_of_tests_rich
       \<lparr>description := ''one byte sent'', expected_return := expected, transfer_count := 1,
        transfers := (\<lambda>i. no_transfer)(0 := \<lparr>tx_buf = TX 0, rx_buf = 0, len = 1\<rparr>)\<rparr>"

text \<open>
  A custom test function that keeps the message it is given as the state of the device
  and returns 0, with an environment and a world for it, and a test case of the richer
  variant that uses it: a transfer with a receive buffer only, then a transfer with
  both buffers (the count is left to \<^verbatim>\<open>spi_test_run_iter\<close>).
\<close>

definition record_message :: "spi_transfer list custom_test" where
  "record_message = (\<lambda>msg tx rx m d. (0, m, msg))"

definition recording :: "spi_transfer list env" where
  "recording =
     \<lparr>page_size = 4096, big_endian = False, simulate_only = 0, dump_messages = 0, loopback = 0,
      dma_alignment = 0, spi_sync = (\<lambda>msg m d. (0, m, d, 0, 0)),
      stack_tx_count = 0, stack_rx_count = 0\<rparr>"

definition nothing_recorded :: "spi_transfer list world" where
  "nothing_recorded = \<lparr>mem = (\<lambda>a. 0), dev = [], msgs = []\<rparr>"

definition rx_then_duplex :: "spi_transfer list spi_test_rich" where
  "rx_then_duplex =
     end_of_tests_rich
       \<lparr>description := ''receive only, then both'', test := Some record_message,
        transfers := (\<lambda>i. no_transfer)
          (0 := \<lparr>tx_buf = 0, rx_buf = RX 0, len = 1\<rparr>,
           1 := \<lparr>tx_buf = TX 0, rx_buf = RX 64, len = 1\<rparr>)\<rparr>"

text \<open>
  Test cases with one transfer of one byte at the start of its region and two lengths
  on the length axis, the offset and alignment axes not configured: receive only in
  the richer variant (with the count calculated, as in its catalog), transmit only in
  \<^verbatim>\<open>spi-test.c\<close>. In \<open>two_lengths\<close> the lengths are 16 and 32; in \<open>long_first\<close> the
  first length, 1048576, is beyond the region and 16 comes after it.
\<close>

definition two_lengths_rich :: "unit spi_test_rich" where
  "two_lengths_rich =
     end_of_tests_rich
       \<lparr>description := ''two lengths'', iterate_len := [16, 32],
        transfers := (\<lambda>i. no_transfer)(0 := \<lparr>tx_buf = 0, rx_buf = RX 0, len = 1\<rparr>)\<rparr>"

definition two_lengths_base :: "unit spi_test_base" where
  "two_lengths_base =
     end_of_tests_base
       \<lparr>description := ''two lengths'', iterate_len := [16, 32], transfers_base := 1,
        xfers := (\<lambda>i. no_transfer)(0 := \<lparr>tx_buf = TX 0, rx_buf = 0, len = 1\<rparr>)\<rparr>"

definition long_first_rich :: "unit spi_test_rich" where
  "long_first_rich =
     end_of_tests_rich
       \<lparr>description := ''long first'', iterate_len := [1048576, 16],
        transfers := (\<lambda>i. no_transfer)(0 := \<lparr>tx_buf = 0, rx_buf = RX 0, len = 1\<rparr>)\<rparr>"

definition long_first_base :: "unit spi_test_base" where
  "long_first_base =
     end_of_tests_base
       \<lparr>description := ''long first'', iterate_len := [1048576, 16], transfers_base := 1,
        xfers := (\<lambda>i. no_transfer)(0 := \<lparr>tx_buf = TX 0, rx_buf = 0, len = 1\<rparr>)\<rparr>"

section \<open>Properties\<close>

subsection \<open>The address translator\<close>

lemmas placeholder_defs =
  RX_def TX_def RX_START_def TX_START_def SPI_TEST_MAX_SIZE_def SPI_TEST_MAX_SIZE_PLUS_def

text \<open>
  The richer variant keeps the translator's contract. A placeholder belongs to the RX
  region when it lies from \<open>RX_START\<close> up to \<open>TX_START\<close>, and to the TX region from
  \<open>TX_START\<close> on; the region's size is \<open>SPI_TEST_MAX_SIZE_PLUS\<close>, which must lie below
  the distance of the two start addresses (it does for every page size of the kernel).
\<close>

lemma translate_rich_null:
  "spi_test_translate_rich ps 0 n tx rx = (0, 0)"
  by (simp add: spi_test_translate_rich_def)

lemma translate_rich_rx_inside:
  assumes "off + n \<le> SPI_TEST_MAX_SIZE_PLUS ps"
  shows "spi_test_translate_rich ps (RX off) n tx rx = (0, rx + off)"
  using assms by (simp add: spi_test_translate_rich_def placeholder_defs)

lemma translate_rich_tx_inside:
  assumes "SPI_TEST_MAX_SIZE_PLUS ps < 2 ^ 30"
    and "off + n \<le> SPI_TEST_MAX_SIZE_PLUS ps"
  shows "spi_test_translate_rich ps (TX off) n tx rx = (0, tx + off)"
  using assms by (simp add: spi_test_translate_rich_def placeholder_defs)

lemma translate_rich_rx_outside:
  assumes "RX off < TX_START"
    and "SPI_TEST_MAX_SIZE_PLUS ps < off + n"
  shows "spi_test_translate_rich ps (RX off) n tx rx = (- EINVAL, RX off)"
  using assms by (simp add: spi_test_translate_rich_def placeholder_defs)

lemma translate_rich_tx_outside:
  assumes "SPI_TEST_MAX_SIZE_PLUS ps < off + n"
  shows "spi_test_translate_rich ps (TX off) n tx rx = (- EINVAL, TX off)"
  using assms by (simp add: spi_test_translate_rich_def placeholder_defs)

text \<open>
  C1, at the input where \<^verbatim>\<open>spi-test.c\<close> leaves the contract: the transfer that fills
  the TX region exactly (offset 0, length \<open>SPI_TEST_MAX_SIZE\<close>, the last length of the
  catalog's \<^verbatim>\<open>iterate_len\<close>) has offset + length equal to the region's size, and
  \<^verbatim>\<open>spi_test_translate\<close> of \<^verbatim>\<open>spi-test.c\<close> rejects it with \<open>-EINVAL\<close>, for every
  page size and every pair of buffers. The same holds in the RX region.
\<close>

theorem translate_base_rejects_full_region:
  "spi_test_translate_base ps (TX 0) (SPI_TEST_MAX_SIZE ps) tx rx
     = (- EINVAL, TX 0)
   \<and> spi_test_translate_base ps (RX 0) (SPI_TEST_MAX_SIZE ps) tx rx
     = (- EINVAL, RX 0)"
  by (simp add: spi_test_translate_base_def placeholder_defs)

subsection \<open>The fill patterns\<close>

lemmas fill_option_defs =
  FILL_MEMSET_8_def FILL_MEMSET_16_def FILL_MEMSET_24_def FILL_MEMSET_32_def
  FILL_COUNT_8_def FILL_COUNT_16_def FILL_COUNT_24_def FILL_COUNT_32_def
  FILL_TRANSFER_BYTE_8_def FILL_TRANSFER_BYTE_16_def FILL_TRANSFER_BYTE_24_def
  FILL_TRANSFER_BYTE_32_def FILL_TRANSFER_NUM_def

lemma fill_byte_rich_None:
  "fill_byte_rich be fopt fillv i j c = None \<longleftrightarrow> \<not> fill_option_known fopt"
  by (simp add: fill_byte_rich_def fill_option_known_def)

lemma count_mode_known: "(fopt, w) \<in> set count_modes \<Longrightarrow> fill_option_known fopt"
  by (auto simp: count_modes_def fill_option_known_def)

lemma fill_byte_rich_count:
  "(fopt, w) \<in> set count_modes \<Longrightarrow>
     fill_byte_rich be fopt fillv i j c = Some (count_byte be w c)"
  by (auto simp: count_modes_def fill_byte_rich_def count_byte_def fill_option_defs
        GET_VALUE_BYTE_def)

lemma upt_shift: "map f [0..<Suc m] = f 0 # map (\<lambda>k. f (Suc k)) [0..<m]"
  by (simp add: upt_rec[of 0] map_Suc_upt[symmetric] del: upt_Suc)

lemma map_count_upt: "map (\<lambda>k. f (c + k)) [0..<n] = map f [c..<c + n]"
proof -
  have "map f [c..<c + n] = map f (map (\<lambda>k. k + c) [0..<n])"
    by (simp only: map_add_upt add.commute)
  then show ?thesis by (simp add: comp_def add.commute)
qed

text \<open>
  The inner loop with a known fill option stores every byte of the transfer, from the
  pointer on, and advances the counter by one per byte.
\<close>

lemma fill_bytes_rich_known:
  assumes "fill_option_known fopt"
  shows "fill_bytes_rich be fopt fillv i n p j count stores =
     (0, count + (n - j),
      stores @ map (\<lambda>k. (p + k, the (fill_byte_rich be fopt fillv i (j + k) (count + k))))
                 [0..<n - j])"
  using assms
proof (induction be fopt fillv i n p j count stores rule: fill_bytes_rich.induct)
  case (1 be fopt fillv i n p j count stores)
  show ?case
  proof (cases "j < n")
    case False
    then show ?thesis by (simp add: fill_bytes_rich.simps)
  next
    case True
    from "1.prems" obtain v where v: "fill_byte_rich be fopt fillv i j count = Some v"
      using fill_byte_rich_None[of be fopt fillv i j count] by auto
    from True have nj: "n - j = Suc (n - (j + 1))" by simp
    have "fill_bytes_rich be fopt fillv i n p j count stores =
            fill_bytes_rich be fopt fillv i n (p + 1) (j + 1) (count + 1) (stores @ [(p, v)])"
      using True v by (subst fill_bytes_rich.simps) simp
    also have "\<dots> = (0, count + 1 + (n - (j + 1)),
        (stores @ [(p, v)]) @ map (\<lambda>k. (p + 1 + k,
            the (fill_byte_rich be fopt fillv i (j + 1 + k) (count + 1 + k)))) [0..<n - (j + 1)])"
      using "1.IH"[OF True v "1.prems"] .
    finally show ?thesis
      using True v by (simp only: nj upt_shift) simp
  qed
qed

lemma fill_bytes_rich_unknown:
  assumes "\<not> fill_option_known fopt"
  shows "fill_bytes_rich be fopt fillv i n p j count stores =
           (if j < n then (- EINVAL, count, stores) else (0, count, stores))"
  using assms fill_byte_rich_None[of be fopt fillv i j count]
  by (subst fill_bytes_rich.simps) simp

text \<open>
  The outer loop of the richer variant with a known fill option: it succeeds, and the
  addresses it stores to are the transmit buffers of the transfers, in order; a
  transfer without a transmit buffer adds nothing.
\<close>

lemma fill_xfers_rich_addrs:
  assumes "fill_option_known (fill_option t)"
  shows "\<exists>S. fill_xfers_rich be t i count stores = (0, stores @ S)
           \<and> map fst S = concat (map (\<lambda>k. tx_range (transfers t k)) [i..<transfer_count t])"
  using assms
proof (induction be t i count stores rule: fill_xfers_rich.induct)
  case (1 be t i count stores)
  show ?case
  proof (cases "i < transfer_count t")
    case False
    then show ?thesis by (simp add: fill_xfers_rich.simps)
  next
    case True
    note i = True
    show ?thesis
    proof (cases "tx_buf (transfers t i) = 0")
      case True
      from "1.IH"(1)[OF i True "1.prems"] obtain S where
        S: "fill_xfers_rich be t (i + 1) count stores = (0, stores @ S)"
           "map fst S = concat (map (\<lambda>k. tx_range (transfers t k)) [i + 1..<transfer_count t])"
        by blast
      have "fill_xfers_rich be t i count stores = fill_xfers_rich be t (i + 1) count stores"
        using i True by (subst fill_xfers_rich.simps) simp
      with S i True show ?thesis
        by (simp add: upt_conv_Cons tx_range_def)
    next
      case False
      let ?x = "transfers t i"
      let ?S1 = "map (\<lambda>k. (tx_buf ?x + k,
                   the (fill_byte_rich be (fill_option t) (fill t) i (0 + k) (count + k))))
                   [0..<len ?x - 0]"
      have b: "fill_bytes_rich be (fill_option t) (fill t) i (len ?x) (tx_buf ?x) 0 count stores
                 = (0, count + (len ?x - 0), stores @ ?S1)"
        by (rule fill_bytes_rich_known[OF "1.prems"])
      from "1.IH"(2)[OF i False b[symmetric] refl _ "1.prems"] obtain S where
        S: "fill_xfers_rich be t (i + 1) (count + (len ?x - 0)) (stores @ ?S1)
              = (0, (stores @ ?S1) @ S)"
           "map fst S = concat (map (\<lambda>k. tx_range (transfers t k)) [i + 1..<transfer_count t])"
        by auto
      have "fill_xfers_rich be t i count stores
              = fill_xfers_rich be t (i + 1) (count + (len ?x - 0)) (stores @ ?S1)"
        using i False b by (subst fill_xfers_rich.simps) simp
      with S have "fill_xfers_rich be t i count stores = (0, stores @ (?S1 @ S))" by simp
      moreover have "map fst (?S1 @ S)
                       = concat (map (\<lambda>k. tx_range (transfers t k)) [i..<transfer_count t])"
        using S(2) i False by (simp add: upt_conv_Cons tx_range_def comp_def)
      ultimately show ?thesis by blast
    qed
  qed
qed

text \<open>With an unknown fill option the pass stores nothing at all.\<close>

lemma fill_xfers_rich_unknown:
  assumes "\<not> fill_option_known (fill_option t)"
  shows "\<exists>ret. fill_xfers_rich be t i count stores = (ret, stores) \<and> (ret = 0 \<or> ret = - EINVAL)"
  using assms
proof (induction be t i count stores rule: fill_xfers_rich.induct)
  case (1 be t i count stores)
  show ?case
  proof (cases "i < transfer_count t")
    case False
    then show ?thesis by (simp add: fill_xfers_rich.simps)
  next
    case True
    note i = True
    show ?thesis
    proof (cases "tx_buf (transfers t i) = 0")
      case True
      with i "1.IH"(1)[OF i True "1.prems"] show ?thesis
        by (subst fill_xfers_rich.simps) simp
    next
      case False
      let ?x = "transfers t i"
      have b: "fill_bytes_rich be (fill_option t) (fill t) i (len ?x) (tx_buf ?x) 0 count stores
                 = (if 0 < len ?x then (- EINVAL, count, stores) else (0, count, stores))"
        by (rule fill_bytes_rich_unknown[OF "1.prems"])
      show ?thesis
      proof (cases "0 < len ?x")
        case True
        have "- EINVAL \<noteq> 0" by (simp add: EINVAL_def)
        with True i False b show ?thesis
          by (subst fill_xfers_rich.simps) simp
      next
        case len0: False
        with b have b0: "fill_bytes_rich be (fill_option t) (fill t) i (len ?x) (tx_buf ?x) 0
                            count stores = (0, count, stores)" by simp
        from "1.IH"(2)[OF i False b0[symmetric] refl _ "1.prems"]
        obtain ret where "fill_xfers_rich be t (i + 1) count stores = (ret, stores)"
          "ret = 0 \<or> ret = - EINVAL" by auto
        with i False b0 show ?thesis
          by (subst fill_xfers_rich.simps) simp
      qed
    qed
  qed
qed

lemma tx_range_not_null: "a \<in> set (tx_range x) \<Longrightarrow> a \<noteq> 0"
  by (auto simp: tx_range_def split: if_splits)

lemma store_bytes_Some:
  "0 \<notin> fst ` set S \<Longrightarrow> \<exists>m'. store_bytes m S = Some m'"
  by (induction S arbitrary: m) auto

lemma fill_stores_rich_not_null: "0 \<notin> fst ` set (snd (fill_stores_rich be t))"
proof (cases "fill_option_known (fill_option t)")
  case True
  from fill_xfers_rich_addrs[OF True, of be 0 0 "[]"] obtain S where
    S: "fill_xfers_rich be t 0 0 [] = (0, S)"
       "map fst S = concat (map (\<lambda>k. tx_range (transfers t k)) [0..<transfer_count t])"
    by auto
  have "0 \<notin> set (map fst S)"
    unfolding S(2) using tx_range_not_null by fastforce
  with S(1) show ?thesis by (simp add: fill_stores_rich_def)
next
  case False
  from fill_xfers_rich_unknown[OF False, of be 0 0 "[]"] show ?thesis
    by (auto simp: fill_stores_rich_def)
qed

text \<open>The fill pass of the richer variant never stores through the null pointer.\<close>

lemma spi_test_fill_tx_rich_total:
  "\<exists>ret m'. spi_test_fill_tx_rich be t w = Some (ret, w\<lparr>mem := m'\<rparr>)"
proof -
  obtain ret S where rs: "fill_stores_rich be t = (ret, S)" by (cases "fill_stores_rich be t")
  with fill_stores_rich_not_null[of be t] have "0 \<notin> fst ` set S" by simp
  from store_bytes_Some[OF this] obtain m' where "store_bytes (mem w) S = Some m'" by blast
  with rs show ?thesis by (auto simp: spi_test_fill_tx_rich_def)
qed

text \<open>
  Transfers without a transmit buffer are skipped: a test case none of whose transfers
  has one is filled without a store and without an error, whatever its fill option,
  and with a known fill option the stores are exactly the bytes of the transmit buffers.
\<close>

lemma fill_xfers_rich_all_absent:
  assumes "\<forall>k. i \<le> k \<and> k < transfer_count t \<longrightarrow> tx_buf (transfers t k) = 0"
  shows "fill_xfers_rich be t i count stores = (0, stores)"
  using assms
proof (induction be t i count stores rule: fill_xfers_rich.induct)
  case (1 be t i count stores)
  show ?case
  proof (cases "i < transfer_count t")
    case False
    then show ?thesis by (simp add: fill_xfers_rich.simps)
  next
    case True
    with "1.prems" have z: "tx_buf (transfers t i) = 0" by simp
    from "1.prems" have "\<forall>k. i + 1 \<le> k \<and> k < transfer_count t \<longrightarrow> tx_buf (transfers t k) = 0"
      by simp
    from "1.IH"(1)[OF True z this] True z show ?thesis
      by (subst fill_xfers_rich.simps) simp
  qed
qed

lemma fill_rich_skips_absent_tx:
  "(\<forall>k < transfer_count t. tx_buf (transfers t k) = 0) \<longrightarrow>
      spi_test_fill_tx_rich be t w = Some (0, w)"
  by (simp add: spi_test_fill_tx_rich_def fill_stores_rich_def fill_xfers_rich_all_absent)

lemma fill_rich_stores_tx_buffers:
  "fill_option_known (fill_option t) \<longrightarrow>
     fst (fill_stores_rich be t) = 0 \<and>
     map fst (snd (fill_stores_rich be t))
       = concat (map (\<lambda>k. tx_range (transfers t k)) [0..<transfer_count t])"
  using fill_xfers_rich_addrs[of t be 0 0 "[]"] by (auto simp: fill_stores_rich_def)

lemma fill_xfers_rich_count:
  assumes "(fill_option t, w) \<in> set count_modes"
  shows "\<exists>S. fill_xfers_rich be t i count stores = (0, stores @ S)
           \<and> length S = length (concat (map (\<lambda>k. tx_range (transfers t k)) [i..<transfer_count t]))
           \<and> map snd S = map (count_byte be w) [count..<count + length S]"
  using assms
proof (induction be t i count stores rule: fill_xfers_rich.induct)
  case (1 be t i count stores)
  note known = count_mode_known[OF "1.prems"]
  show ?case
  proof (cases "i < transfer_count t")
    case False
    then show ?thesis by (simp add: fill_xfers_rich.simps)
  next
    case True
    note i = True
    show ?thesis
    proof (cases "tx_buf (transfers t i) = 0")
      case True
      from "1.IH"(1)[OF i True "1.prems"] obtain S where
        S: "fill_xfers_rich be t (i + 1) count stores = (0, stores @ S)"
           "length S = length (concat (map (\<lambda>k. tx_range (transfers t k)) [i + 1..<transfer_count t]))"
           "map snd S = map (count_byte be w) [count..<count + length S]"
        by blast
      have "fill_xfers_rich be t i count stores = fill_xfers_rich be t (i + 1) count stores"
        using i True by (subst fill_xfers_rich.simps) simp
      with S i True show ?thesis
        by (simp add: upt_conv_Cons tx_range_def)
    next
      case False
      let ?x = "transfers t i"
      let ?S1 = "map (\<lambda>k. (tx_buf ?x + k, count_byte be w (count + k))) [0..<len ?x]"
      have b: "fill_bytes_rich be (fill_option t) (fill t) i (len ?x) (tx_buf ?x) 0 count stores
                 = (0, count + len ?x, stores @ ?S1)"
        using fill_bytes_rich_known[OF known, of be "fill t" i "len ?x" "tx_buf ?x" 0 count stores]
        by (simp add: fill_byte_rich_count[OF "1.prems"])
      from "1.IH"(2)[OF i False b[symmetric] refl _ "1.prems"] obtain S where
        S: "fill_xfers_rich be t (i + 1) (count + len ?x) (stores @ ?S1) = (0, (stores @ ?S1) @ S)"
           "length S = length (concat (map (\<lambda>k. tx_range (transfers t k)) [i + 1..<transfer_count t]))"
           "map snd S = map (count_byte be w) [count + len ?x..<count + len ?x + length S]"
        by auto
      have "fill_xfers_rich be t i count stores
              = fill_xfers_rich be t (i + 1) (count + len ?x) (stores @ ?S1)"
        using i False b by (subst fill_xfers_rich.simps) simp
      with S have "fill_xfers_rich be t i count stores = (0, stores @ (?S1 @ S))" by simp
      moreover have "length (?S1 @ S)
           = length (concat (map (\<lambda>k. tx_range (transfers t k)) [i..<transfer_count t]))"
        using S(2) i False by (simp add: upt_conv_Cons tx_range_def)
      moreover have "map snd (?S1 @ S) = map (count_byte be w) [count..<count + length (?S1 @ S)]"
      proof -
        have "map snd ?S1 = map (count_byte be w) [count..<count + len ?x]"
          by (simp add: comp_def map_count_upt)
        moreover have "count + length (?S1 @ S) = count + len ?x + length S"
          by simp
        moreover have "[count..<count + len ?x + length S]
              = [count..<count + len ?x] @ [count + len ?x..<count + len ?x + length S]"
          by (rule upt_add_eq_append) simp
        ultimately show ?thesis using S(3) by (simp only: map_append)
      qed
      ultimately show ?thesis by blast
    qed
  qed
qed

text \<open>
  C2, amended. In the richer variant, with a counter mode of width \<open>w\<close> bytes the fill
  pass succeeds and the byte stored at global position \<open>k\<close> (the positions count the
  bytes of the transfers that have a transmit buffer, over the whole test case) is
  \<open>count_byte be w k\<close>: byte number \<open>k mod w\<close> of the value \<open>k\<close>. It is a function of
  \<open>k\<close> alone: the counter advances once per byte and is not reset from one transfer to
  the next.
\<close>

theorem count_fill_rich_by_position:
  assumes "(fill_option t, w) \<in> set count_modes"
  shows "fst (fill_stores_rich be t) = 0
       \<and> map snd (snd (fill_stores_rich be t)) = map (count_byte be w) [0..<tx_bytes t]"
proof -
  from fill_xfers_rich_count[OF assms, of be 0 0 "[]"] obtain S where
    S: "fill_xfers_rich be t 0 0 [] = (0, S)"
       "length S = tx_bytes t"
       "map snd S = map (count_byte be w) [0..<length S]"
    by (auto simp: tx_bytes_def)
  then show ?thesis by (simp add: fill_stores_rich_def)
qed

text \<open>
  The example of the claim: two transfers of one byte each with \<^verbatim>\<open>FILL_COUNT_8\<close> get
  the bytes 0 and 1.
\<close>

theorem count_fill_rich_by_position_witness:
  "(fill_option two_bytes_rich, 1) \<in> set count_modes
   \<and> map snd (snd (fill_stores_rich False two_bytes_rich)) = [0, 1]"
  using count_fill_rich_by_position[of two_bytes_rich 1 False]
  by (simp add: two_bytes_rich_def count_modes_def tx_bytes_def tx_range_def upt_rec
        no_transfer_def count_byte_def)

text \<open>
  C2 as it is stated fails: the byte does not depend on \<open>k mod w\<close> only. With
  \<^verbatim>\<open>FILL_COUNT_16\<close> on a little-endian machine the positions 0 and 16 of one transfer
  agree modulo the width (2 bytes, 16 bits), and the bytes stored there are 0 and 16.
\<close>

theorem count_fill_rich_counterexample:
  "(0::nat) mod 2 = 16 mod 2 \<and> (0::nat) mod 16 = 16 mod 16
   \<and> fill_option seventeen_bytes_rich = FILL_COUNT_16
   \<and> snd (fill_stores_rich False seventeen_bytes_rich) ! 0 = (4096, 0)
   \<and> snd (fill_stores_rich False seventeen_bytes_rich) ! 16 = (4112, 16)"
  by (simp add: fill_stores_rich_def fill_xfers_rich.simps fill_bytes_rich.simps
        seventeen_bytes_rich_def no_transfer_def fill_byte_rich_def fill_option_defs
        GET_VALUE_BYTE_def)

text \<open>
  In \<^verbatim>\<open>spi-test.c\<close> the counter cases run \<^verbatim>\<open>count++\<close> and the loop runs it again: the
  two transfers of one byte get the bytes 0 and 2.
\<close>

lemma count_fill_base_counts_twice:
  "fill_stores_base False two_bytes_base = (0, [(4096, 0), (4097, 2)])"
  by (simp add: fill_stores_base_def fill_xfers_base.simps fill_bytes_base.simps
        two_bytes_base_def no_transfer_def fill_byte_base_def fill_option_defs)

text \<open>
  C4, at the input where \<^verbatim>\<open>spi-test.c\<close> leaves the claim: its fill pass does not skip
  a transfer without a transmit buffer. For the catalog's test \<^verbatim>\<open>simple rx-transfer\<close>
  (one transfer of one byte, receive buffer only) it stores the fill byte through the
  null pointer, for every byte order and in every world.
\<close>

theorem fill_base_stores_through_null:
  "fill_stores_base be simple_rx_transfer_base = (0, [(0, 0)])
   \<and> spi_test_fill_tx_base be simple_rx_transfer_base w = None"
  by (simp add: spi_test_fill_tx_base_def fill_stores_base_def fill_xfers_base.simps
        fill_bytes_base.simps simple_rx_transfer_base_def no_transfer_def fill_byte_base_def
        fill_option_defs)

subsection \<open>The loopback check\<close>

lemma loopback_compare_None:
  "loopback_compare m x i = None \<longleftrightarrow>
     (\<forall>k. i \<le> k \<and> k < len x \<longrightarrow> m (tx_buf x + k) = m (rx_buf x + k))"
proof (induction m x i rule: loopback_compare.induct)
  case (1 m x i)
  show ?case
  proof (cases "i < len x")
    case False
    then show ?thesis by (subst loopback_compare.simps) auto
  next
    case True
    show ?thesis
    proof (cases "m (tx_buf x + i) = m (rx_buf x + i)")
      case False
      with True show ?thesis
        by (subst loopback_compare.simps) (auto simp: Let_def)
    next
      case eq: True
      have "loopback_compare m x i = loopback_compare m x (i + 1)"
        using True eq by (subst loopback_compare.simps) (simp add: Let_def)
      moreover have "(\<forall>k. i \<le> k \<and> k < len x \<longrightarrow> m (tx_buf x + k) = m (rx_buf x + k))
          \<longleftrightarrow> (\<forall>k. i + 1 \<le> k \<and> k < len x \<longrightarrow> m (tx_buf x + k) = m (rx_buf x + k))"
        using eq by (metis Suc_eq_plus1 Suc_leI le_neq_implies_less le_add1 le_trans)
      ultimately show ?thesis
        using "1.IH"[OF True refl refl] eq by simp
    qed
  qed
qed

lemma loopback_compare_first:
  assumes "i \<le> k" "k < len x" "m (tx_buf x + k) \<noteq> m (rx_buf x + k)"
    and "\<forall>j. i \<le> j \<and> j < k \<longrightarrow> m (tx_buf x + j) = m (rx_buf x + j)"
  shows "loopback_compare m x i = Some (k, m (tx_buf x + k), m (rx_buf x + k))"
  using assms
proof (induction m x i rule: loopback_compare.induct)
  case (1 m x i)
  from "1.prems" have i: "i < len x" by simp
  show ?case
  proof (cases "i = k")
    case True
    with i "1.prems" show ?thesis
      by (subst loopback_compare.simps) (simp add: Let_def)
  next
    case False
    with "1.prems" have lt: "i < k" by simp
    with "1.prems" have eq: "m (tx_buf x + i) = m (rx_buf x + i)" by simp
    have "loopback_compare m x i = loopback_compare m x (i + 1)"
      using i eq by (subst loopback_compare.simps) (simp add: Let_def)
    moreover have "loopback_compare m x (i + 1) = Some (k, m (tx_buf x + k), m (rx_buf x + k))"
      using "1.IH"[OF i refl refl] eq lt "1.prems" by simp
    ultimately show ?thesis by simp
  qed
qed

lemma loopback_constant_None:
  "loopback_constant m x b i = None \<longleftrightarrow>
     (\<forall>k. i \<le> k \<and> k < len x \<longrightarrow> m (rx_buf x + k) = b)"
proof (induction m x b i rule: loopback_constant.induct)
  case (1 m x b i)
  show ?case
  proof (cases "i < len x")
    case False
    then show ?thesis by (subst loopback_constant.simps) auto
  next
    case True
    show ?thesis
    proof (cases "m (rx_buf x + i) = b")
      case False
      with True show ?thesis
        by (subst loopback_constant.simps) (auto simp: Let_def)
    next
      case eq: True
      have "loopback_constant m x b i = loopback_constant m x b (i + 1)"
        using True eq by (subst loopback_constant.simps) (simp add: Let_def)
      moreover have "(\<forall>k. i \<le> k \<and> k < len x \<longrightarrow> m (rx_buf x + k) = b)
          \<longleftrightarrow> (\<forall>k. i + 1 \<le> k \<and> k < len x \<longrightarrow> m (rx_buf x + k) = b)"
        using eq by (metis Suc_eq_plus1 Suc_leI le_neq_implies_less le_add1 le_trans)
      ultimately show ?thesis
        using "1.IH"[OF True refl] eq by simp
    qed
  qed
qed

lemma loopback_constant_first:
  assumes "i \<le> k" "k < len x" "m (rx_buf x + k) \<noteq> b"
    and "\<forall>j. i \<le> j \<and> j < k \<longrightarrow> m (rx_buf x + j) = b"
  shows "loopback_constant m x b i = Some (k, b, m (rx_buf x + k))"
  using assms
proof (induction m x b i rule: loopback_constant.induct)
  case (1 m x b i)
  from "1.prems" have i: "i < len x" by simp
  show ?case
  proof (cases "i = k")
    case True
    with i "1.prems" show ?thesis
      by (subst loopback_constant.simps) (simp add: Let_def)
  next
    case False
    with "1.prems" have lt: "i < k" by simp
    with "1.prems" have eq: "m (rx_buf x + i) = b" by simp
    have "loopback_constant m x b i = loopback_constant m x b (i + 1)"
      using i eq by (subst loopback_constant.simps) (simp add: Let_def)
    moreover have "loopback_constant m x b (i + 1) = Some (k, b, m (rx_buf x + k))"
      using "1.IH"[OF i refl] eq lt "1.prems" by simp
    ultimately show ?thesis by simp
  qed
qed

text \<open>Transfers that pass the check do not change the verdict on the rest of the message.\<close>

lemma check_loopback_append:
  "fst (spi_test_check_loopback_result m pre) = 0 \<Longrightarrow>
     spi_test_check_loopback_result m (pre @ rest) = spi_test_check_loopback_result m rest"
proof (induction pre)
  case Nil
  then show ?case by simp
next
  case (Cons x pre)
  then show ?case
    by (auto simp: Let_def EINVAL_def split: if_splits option.splits prod.splits)
qed

lemma below_two: "(i::nat) < 2 \<longleftrightarrow> i = 0 \<or> i = 1"
  by auto

lemma below_three: "(i::nat) < 3 \<longleftrightarrow> i = 0 \<or> i = 1 \<or> i = 2"
  by auto

text \<open>
  C6. A transfer \<open>x\<close> with both buffers, anywhere in a message whose earlier transfers
  pass: when the bytes 1 to \<open>len - 1\<close> of the two buffers agree, the check goes on with
  the transfers after \<open>x\<close> (byte 0 is not looked at); at the first index \<open>k\<close> from 1 on
  where they differ it fails with \<open>-EINVAL\<close>, and the error names \<open>k\<close>, the byte sent
  and the byte received. So the check of the message that is \<open>x\<close> alone succeeds if and
  only if the bytes from index 1 on agree.
\<close>

theorem loopback_duplex_check:
  assumes "tx_buf x \<noteq> 0" and "rx_buf x \<noteq> 0"
    and "fst (spi_test_check_loopback_result m pre) = 0"
  shows "((\<forall>i. 1 \<le> i \<and> i < len x \<longrightarrow> m (tx_buf x + i) = m (rx_buf x + i)) \<longrightarrow>
            spi_test_check_loopback_result m (pre @ x # post)
              = spi_test_check_loopback_result m post)
       \<and> (\<forall>k. 1 \<le> k \<and> k < len x \<and> m (tx_buf x + k) \<noteq> m (rx_buf x + k)
              \<and> (\<forall>i. 1 \<le> i \<and> i < k \<longrightarrow> m (tx_buf x + i) = m (rx_buf x + i)) \<longrightarrow>
            spi_test_check_loopback_result m (pre @ x # post)
              = (- EINVAL, [Err_loopback_mismatch k (m (tx_buf x + k)) (m (rx_buf x + k))]))
       \<and> (fst (spi_test_check_loopback_result m [x]) = 0 \<longleftrightarrow>
            (\<forall>i. 1 \<le> i \<and> i < len x \<longrightarrow> m (tx_buf x + i) = m (rx_buf x + i)))"
proof (intro conjI allI impI)
  assume "\<forall>i. 1 \<le> i \<and> i < len x \<longrightarrow> m (tx_buf x + i) = m (rx_buf x + i)"
  then have "loopback_compare m x 1 = None" by (simp add: loopback_compare_None)
  with assms show "spi_test_check_loopback_result m (pre @ x # post)
      = spi_test_check_loopback_result m post"
    by (simp add: check_loopback_append)
next
  fix k
  assume k: "1 \<le> k \<and> k < len x \<and> m (tx_buf x + k) \<noteq> m (rx_buf x + k)
    \<and> (\<forall>i. 1 \<le> i \<and> i < k \<longrightarrow> m (tx_buf x + i) = m (rx_buf x + i))"
  then have "loopback_compare m x 1 = Some (k, m (tx_buf x + k), m (rx_buf x + k))"
    by (intro loopback_compare_first) auto
  with assms show "spi_test_check_loopback_result m (pre @ x # post)
      = (- EINVAL, [Err_loopback_mismatch k (m (tx_buf x + k)) (m (rx_buf x + k))])"
    by (simp add: check_loopback_append)
next
  show "fst (spi_test_check_loopback_result m [x]) = 0 \<longleftrightarrow>
          (\<forall>i. 1 \<le> i \<and> i < len x \<longrightarrow> m (tx_buf x + i) = m (rx_buf x + i))"
    using assms(1,2) loopback_compare_None[of m x 1]
    by (auto simp: EINVAL_def split: option.splits)
qed

text \<open>
  The examples of the claim: sent 00 11 22 and received FF 11 22 passes; received
  FF 11 23 fails at index 2, expected 22, got 23.
\<close>

theorem loopback_duplex_check_witness:
  "tx_buf duplex_xfer \<noteq> 0 \<and> rx_buf duplex_xfer \<noteq> 0
   \<and> fst (spi_test_check_loopback_result echo_good []) = 0
   \<and> spi_test_check_loopback_result echo_good [duplex_xfer] = (0, [])
   \<and> spi_test_check_loopback_result echo_bad [duplex_xfer]
       = (- EINVAL, [Err_loopback_mismatch 2 0x22 0x23])"
proof -
  have x: "tx_buf duplex_xfer \<noteq> 0" "rx_buf duplex_xfer \<noteq> 0"
    by (simp_all add: duplex_xfer_def)
  have pre: "fst (spi_test_check_loopback_result m []) = 0" for m
    by simp
  have good: "\<forall>i. 1 \<le> i \<and> i < len duplex_xfer \<longrightarrow>
      echo_good (tx_buf duplex_xfer + i) = echo_good (rx_buf duplex_xfer + i)"
    by (auto simp: duplex_xfer_def echo_good_def below_three)
  have bad: "1 \<le> (2::nat) \<and> 2 < len duplex_xfer
      \<and> echo_bad (tx_buf duplex_xfer + 2) \<noteq> echo_bad (rx_buf duplex_xfer + 2)
      \<and> (\<forall>i. 1 \<le> i \<and> i < 2 \<longrightarrow>
            echo_bad (tx_buf duplex_xfer + i) = echo_bad (rx_buf duplex_xfer + i))"
    by (auto simp: duplex_xfer_def echo_bad_def below_two)
  have "spi_test_check_loopback_result echo_good ([] @ duplex_xfer # [])
          = spi_test_check_loopback_result echo_good []"
    using loopback_duplex_check[OF x pre, of echo_good "[]"] good by blast
  then have g: "spi_test_check_loopback_result echo_good [duplex_xfer] = (0, [])"
    by simp
  have "spi_test_check_loopback_result echo_bad ([] @ duplex_xfer # [])
          = (- EINVAL, [Err_loopback_mismatch 2 (echo_bad (tx_buf duplex_xfer + 2))
                          (echo_bad (rx_buf duplex_xfer + 2))])"
    using loopback_duplex_check[OF x pre, of echo_bad "[]"] bad by blast
  then have b: "spi_test_check_loopback_result echo_bad [duplex_xfer]
       = (- EINVAL, [Err_loopback_mismatch 2 0x22 0x23])"
    by (simp add: duplex_xfer_def echo_bad_def)
  from x g b show ?thesis by simp
qed

text \<open>
  C7. A transfer \<open>x\<close> with a receive buffer and no transmit buffer, anywhere in a
  message whose earlier transfers pass: when byte 0 of the receive buffer is 00 or FF
  and every byte after it equals byte 0, the check goes on with the transfers after
  \<open>x\<close>; when byte 0 is neither, it fails with \<open>-EINVAL\<close> and the error names byte 0;
  at the first index \<open>k\<close> from 1 on whose byte differs from byte 0 it fails with
  \<open>-EINVAL\<close> and the error names \<open>k\<close>, byte 0 and the byte found. So the check of the
  message that is \<open>x\<close> alone succeeds if and only if byte 0 is 00 or FF and all later
  bytes equal it.
\<close>

theorem loopback_rx_only_check:
  assumes "tx_buf x = 0" and "rx_buf x \<noteq> 0"
    and "fst (spi_test_check_loopback_result m pre) = 0"
  shows "(((m (rx_buf x) = 0 \<or> m (rx_buf x) = 0xff)
            \<and> (\<forall>i. 1 \<le> i \<and> i < len x \<longrightarrow> m (rx_buf x + i) = m (rx_buf x))) \<longrightarrow>
            spi_test_check_loopback_result m (pre @ x # post)
              = spi_test_check_loopback_result m post)
       \<and> (m (rx_buf x) \<noteq> 0 \<and> m (rx_buf x) \<noteq> 0xff \<longrightarrow>
            spi_test_check_loopback_result m (pre @ x # post)
              = (- EINVAL, [Err_loopback_idle (m (rx_buf x))]))
       \<and> (\<forall>k. (m (rx_buf x) = 0 \<or> m (rx_buf x) = 0xff)
              \<and> 1 \<le> k \<and> k < len x \<and> m (rx_buf x + k) \<noteq> m (rx_buf x)
              \<and> (\<forall>i. 1 \<le> i \<and> i < k \<longrightarrow> m (rx_buf x + i) = m (rx_buf x)) \<longrightarrow>
            spi_test_check_loopback_result m (pre @ x # post)
              = (- EINVAL, [Err_loopback_mismatch k (m (rx_buf x)) (m (rx_buf x + k))]))
       \<and> (fst (spi_test_check_loopback_result m [x]) = 0 \<longleftrightarrow>
            (m (rx_buf x) = 0 \<or> m (rx_buf x) = 0xff)
            \<and> (\<forall>i. 1 \<le> i \<and> i < len x \<longrightarrow> m (rx_buf x + i) = m (rx_buf x)))"
proof (intro conjI allI impI)
  assume ok: "(m (rx_buf x) = 0 \<or> m (rx_buf x) = 0xff)
    \<and> (\<forall>i. 1 \<le> i \<and> i < len x \<longrightarrow> m (rx_buf x + i) = m (rx_buf x))"
  then have "loopback_constant m x (m (rx_buf x)) 1 = None"
    by (simp add: loopback_constant_None)
  with assms ok show "spi_test_check_loopback_result m (pre @ x # post)
      = spi_test_check_loopback_result m post"
    by (auto simp: check_loopback_append Let_def)
next
  assume "m (rx_buf x) \<noteq> 0 \<and> m (rx_buf x) \<noteq> 0xff"
  with assms show "spi_test_check_loopback_result m (pre @ x # post)
      = (- EINVAL, [Err_loopback_idle (m (rx_buf x))])"
    by (simp add: check_loopback_append Let_def)
next
  fix k
  assume k: "(m (rx_buf x) = 0 \<or> m (rx_buf x) = 0xff)
    \<and> 1 \<le> k \<and> k < len x \<and> m (rx_buf x + k) \<noteq> m (rx_buf x)
    \<and> (\<forall>i. 1 \<le> i \<and> i < k \<longrightarrow> m (rx_buf x + i) = m (rx_buf x))"
  then have "loopback_constant m x (m (rx_buf x)) 1
      = Some (k, m (rx_buf x), m (rx_buf x + k))"
    by (intro loopback_constant_first) auto
  with assms k show "spi_test_check_loopback_result m (pre @ x # post)
      = (- EINVAL, [Err_loopback_mismatch k (m (rx_buf x)) (m (rx_buf x + k))])"
    by (auto simp: check_loopback_append Let_def)
next
  show "fst (spi_test_check_loopback_result m [x]) = 0 \<longleftrightarrow>
          (m (rx_buf x) = 0 \<or> m (rx_buf x) = 0xff)
          \<and> (\<forall>i. 1 \<le> i \<and> i < len x \<longrightarrow> m (rx_buf x + i) = m (rx_buf x))"
    using assms(1,2) loopback_constant_None[of m x "m (rx_buf x)" 1]
    by (auto simp: EINVAL_def Let_def split: option.splits)
qed

text \<open>
  The examples of the claim: received 00 00 00 passes; 05 05 05 fails on the idle
  byte 05; FF FF 00 fails at byte 2.
\<close>

theorem loopback_rx_only_check_witness:
  "tx_buf rx_only_xfer = 0 \<and> rx_buf rx_only_xfer \<noteq> 0
   \<and> fst (spi_test_check_loopback_result idle_low []) = 0
   \<and> spi_test_check_loopback_result idle_low [rx_only_xfer] = (0, [])
   \<and> spi_test_check_loopback_result idle_five [rx_only_xfer]
       = (- EINVAL, [Err_loopback_idle 0x05])
   \<and> spi_test_check_loopback_result idle_broken [rx_only_xfer]
       = (- EINVAL, [Err_loopback_mismatch 2 0xFF 0x00])"
proof -
  have x: "tx_buf rx_only_xfer = 0" "rx_buf rx_only_xfer \<noteq> 0"
    by (simp_all add: rx_only_xfer_def)
  have pre: "fst (spi_test_check_loopback_result m []) = 0" for m
    by simp
  have low: "(idle_low (rx_buf rx_only_xfer) = 0 \<or> idle_low (rx_buf rx_only_xfer) = 0xff)
      \<and> (\<forall>i. 1 \<le> i \<and> i < len rx_only_xfer \<longrightarrow>
            idle_low (rx_buf rx_only_xfer + i) = idle_low (rx_buf rx_only_xfer))"
    by (auto simp: rx_only_xfer_def idle_low_def below_three)
  have five: "idle_five (rx_buf rx_only_xfer) \<noteq> 0 \<and> idle_five (rx_buf rx_only_xfer) \<noteq> 0xff"
    by (simp add: rx_only_xfer_def idle_five_def)
  have broken: "(idle_broken (rx_buf rx_only_xfer) = 0 \<or> idle_broken (rx_buf rx_only_xfer) = 0xff)
      \<and> 1 \<le> (2::nat) \<and> 2 < len rx_only_xfer
      \<and> idle_broken (rx_buf rx_only_xfer + 2) \<noteq> idle_broken (rx_buf rx_only_xfer)
      \<and> (\<forall>i. 1 \<le> i \<and> i < 2 \<longrightarrow>
            idle_broken (rx_buf rx_only_xfer + i) = idle_broken (rx_buf rx_only_xfer))"
    by (auto simp: rx_only_xfer_def idle_broken_def below_two)
  have "spi_test_check_loopback_result idle_low ([] @ rx_only_xfer # [])
          = spi_test_check_loopback_result idle_low []"
    using loopback_rx_only_check[OF x pre, of idle_low "[]"] low by blast
  then have l: "spi_test_check_loopback_result idle_low [rx_only_xfer] = (0, [])"
    by simp
  have "spi_test_check_loopback_result idle_five ([] @ rx_only_xfer # [])
          = (- EINVAL, [Err_loopback_idle (idle_five (rx_buf rx_only_xfer))])"
    using loopback_rx_only_check[OF x pre, of idle_five "[]"] five by blast
  then have f: "spi_test_check_loopback_result idle_five [rx_only_xfer]
       = (- EINVAL, [Err_loopback_idle 0x05])"
    by (simp add: rx_only_xfer_def idle_five_def)
  have "spi_test_check_loopback_result idle_broken ([] @ rx_only_xfer # [])
          = (- EINVAL, [Err_loopback_mismatch 2 (idle_broken (rx_buf rx_only_xfer))
                          (idle_broken (rx_buf rx_only_xfer + 2))])"
    using loopback_rx_only_check[OF x pre, of idle_broken "[]"] broken by blast
  then have b: "spi_test_check_loopback_result idle_broken [rx_only_xfer]
       = (- EINVAL, [Err_loopback_mismatch 2 0xFF 0x00])"
    by (simp add: rx_only_xfer_def idle_broken_def)
  from x l f b show ?thesis by simp
qed

subsection \<open>The drivers run the enumerated points in order\<close>

lemma run_points_append:
  "run_points body (ps @ qs) w =
     (case run_points body ps w of
        None \<Rightarrow> None
      | Some (ret, w1) \<Rightarrow> if ret \<noteq> 0 then Some (ret, w1) else run_points body qs w1)"
  by (induction ps arbitrary: w) (auto split: option.splits)

lemma run_points_map_Pair:
  "run_points (\<lambda>(a, b). g a b) (map (Pair a) bs) w = run_points (g a) bs w"
  by (induction bs arbitrary: w) (auto split: option.splits)

lemma run_points_product:
  "run_points (\<lambda>a. run_points (g a) bs) as w
     = run_points (\<lambda>(a, b). g a b) (List.product as bs) w"
  by (induction as arbitrary: w)
     (auto simp: run_points_append run_points_map_Pair split: option.splits)

lemma FOR_EACH_ITERATE_from:
  "0 \<le> idx \<Longrightarrow>
     FOR_EACH_ITERATE arr d body idx w =
       run_points body
         (takeWhile (\<lambda>v. v \<noteq> 0) (map (array_get arr) [nat idx..<SPI_TEST_MAX_ITERATE])) w"
proof (induction arr d body idx w rule: FOR_EACH_ITERATE.induct)
  case (1 arr d body idx w)
  show ?case
  proof (cases "idx < int SPI_TEST_MAX_ITERATE \<and> array_get arr (nat idx) \<noteq> 0")
    case False
    show ?thesis
    proof (cases "nat idx < SPI_TEST_MAX_ITERATE")
      case True
      with False "1.prems" show ?thesis
        by (subst FOR_EACH_ITERATE.simps) (simp add: upt_conv_Cons)
    next
      case ge: False
      with "1.prems" have "\<not> idx < int SPI_TEST_MAX_ITERATE" by linarith
      with ge "1.prems" show ?thesis
        by (subst FOR_EACH_ITERATE.simps) simp
    qed
  next
    case True
    with "1.prems" have lt: "nat idx < SPI_TEST_MAX_ITERATE" by linarith
    have nat_suc: "nat (idx + 1) = Suc (nat idx)" using "1.prems" by simp
    show ?thesis
    proof (cases "body (array_get arr (nat idx)) w")
      case None
      with True "1.prems" lt show ?thesis
        by (subst FOR_EACH_ITERATE.simps) (simp add: upt_conv_Cons)
    next
      case (Some rw)
      obtain ret w1 where rw: "rw = (ret, w1)" by (cases rw)
      show ?thesis
      proof (cases "ret = 0")
        case False
        with Some rw True "1.prems" lt show ?thesis
          by (subst FOR_EACH_ITERATE.simps) (simp add: upt_conv_Cons)
      next
        case ret0: True
        have c: "idx < 0 \<or> idx < int SPI_TEST_MAX_ITERATE \<and> array_get arr (nat idx) \<noteq> 0"
          using True by simp
        have b: "body (if idx < 0 then d else array_get arr (nat idx)) w = Some rw"
          using Some "1.prems" by simp
        have ih: "FOR_EACH_ITERATE arr d body (idx + 1) w1 =
            run_points body (takeWhile (\<lambda>v. v \<noteq> 0)
               (map (array_get arr) [nat (idx + 1)..<SPI_TEST_MAX_ITERATE])) w1"
          using "1.IH"[OF c b rw[symmetric]] ret0 "1.prems" by simp
        show ?thesis
          using Some rw ret0 True "1.prems" lt ih
          by (subst FOR_EACH_ITERATE.simps) (simp add: upt_conv_Cons nat_suc)
      qed
    qed
  qed
qed

lemma FOR_EACH_ITERATE_run_points:
  "FOR_EACH_ITERATE arr d body (- 1) = run_points body (iterate_values arr d)"
proof
  fix w
  show "FOR_EACH_ITERATE arr d body (- 1) w = run_points body (iterate_values arr d) w"
    using FOR_EACH_ITERATE_from[of 0 arr d body]
    by (subst FOR_EACH_ITERATE.simps) (auto simp: iterate_values_def split: option.splits)
qed

lemma FOR_EACH_ALIGNMENT_from:
  "FOR_EACH_ALIGNMENT bound body var w = run_points body [var..<bound] w"
proof (induction bound body var w rule: FOR_EACH_ALIGNMENT.induct)
  case (1 bound body var w)
  show ?case
  proof (cases "var < bound")
    case False
    then show ?thesis by (subst FOR_EACH_ALIGNMENT.simps) simp
  next
    case True
    show ?thesis
    proof (cases "body var w")
      case None
      with True show ?thesis
        by (subst FOR_EACH_ALIGNMENT.simps) (simp add: upt_conv_Cons)
    next
      case (Some rw)
      obtain ret w1 where rw: "rw = (ret, w1)" by (cases rw)
      show ?thesis
      proof (cases "ret = 0")
        case False
        with Some rw True show ?thesis
          by (subst FOR_EACH_ALIGNMENT.simps) (simp add: upt_conv_Cons)
      next
        case ret0: True
        from "1.IH"[OF True Some rw[symmetric]] ret0 Some rw True show ?thesis
          by (subst FOR_EACH_ALIGNMENT.simps) (simp add: upt_conv_Cons)
      qed
    qed
  qed
qed

lemma FOR_EACH_ALIGNMENT_run_points:
  "FOR_EACH_ALIGNMENT bound body var = run_points body [var..<bound]"
  by (rule ext) (rule FOR_EACH_ALIGNMENT_from)

lemma run_points_product_fun:
  "run_points (\<lambda>a. run_points (g a) bs) as = run_points (\<lambda>(a, b). g a b) (List.product as bs)"
  by (rule ext) (rule run_points_product)

text \<open>
  The iteration drivers run the enumerated points in order and stop at the first
  code other than 0.
\<close>

lemma spi_test_run_base_points:
  "spi_test_run_base e tx rx t w
     = run_points (run_point_base e t tx rx) (iteration_points_base t) w"
  by (simp add: spi_test_run_base_def FOR_EACH_ITERATE_run_points run_points_product_fun
        iteration_points_base_def run_point_base_def split_def)

lemma spi_test_run_rich_points:
  "spi_test_run_rich e tx rx t w
     = (if SPI_TEST_MAX_TRANSFERS \<le> transfer_count t then Some (- E2BIG, w)
        else run_points (run_point_rich e t tx rx) (iteration_points_rich e t) w)"
  by (simp add: spi_test_run_rich_def FOR_EACH_ITERATE_run_points FOR_EACH_ALIGNMENT_run_points
        run_points_product_fun iteration_points_rich_def run_point_rich_def split_def)

lemma run_tests_base_points:
  "run_tests_base e tx rx ts w
     = run_points (spi_test_run_base e tx rx) (takeWhile (\<lambda>t. description t \<noteq> []) ts) w"
  by (induction ts arbitrary: w) (auto split: option.splits)

lemma run_tests_rich_points:
  "run_tests_rich e tx rx ts w
     = run_points (spi_test_run_rich e tx rx) (takeWhile (\<lambda>t. description t \<noteq> []) ts) w"
  by (induction ts arbitrary: w) (auto split: option.splits)

subsection \<open>Building and running one message\<close>

lemma spi_test_translate_base_code:
  "fst (spi_test_translate_base ps p n tx rx) = 0 \<or> fst (spi_test_translate_base ps p n tx rx) = - EINVAL"
  by (simp add: spi_test_translate_base_def)

lemma spi_test_translate_rich_code:
  "fst (spi_test_translate_rich ps p n tx rx) = 0 \<or> fst (spi_test_translate_rich ps p n tx rx) = - EINVAL"
  by (simp add: spi_test_translate_rich_def)

text \<open>The translation loop changes the transfers only, and its code is 0 or \<open>-EINVAL\<close>.\<close>

lemma translate_xfers_base_frame:
  "\<exists>f r. translate_xfers_base ps t tx rx i = (r, t\<lparr>xfers := f\<rparr>) \<and> (r = 0 \<or> r = - EINVAL)"
proof (induction ps t tx rx i rule: translate_xfers_base.induct)
  case (1 ps t tx rx i)
  show ?case
  proof (cases "i < transfers_base t")
    case False
    then have "translate_xfers_base ps t tx rx i = (0, t\<lparr>xfers := xfers t\<rparr>)"
      by (subst translate_xfers_base.simps) simp
    then show ?thesis by blast
  next
    case True
    obtain r1 p where
      a: "spi_test_translate_base ps (tx_buf (xfers t i)) (len (xfers t i)) tx rx = (r1, p)"
      by (cases "spi_test_translate_base ps (tx_buf (xfers t i)) (len (xfers t i)) tx rx")
    let ?t1 = "t\<lparr>xfers := (xfers t)(i := (xfers t i)\<lparr>tx_buf := p\<rparr>)\<rparr>"
    obtain r2 q where
      b: "spi_test_translate_base ps (rx_buf (xfers ?t1 i)) (len (xfers ?t1 i)) tx rx = (r2, q)"
      by (cases "spi_test_translate_base ps (rx_buf (xfers ?t1 i)) (len (xfers ?t1 i)) tx rx")
    let ?t2 = "?t1\<lparr>xfers := (xfers ?t1)(i := (xfers ?t1 i)\<lparr>rx_buf := q\<rparr>)\<rparr>"
    have r1: "r1 = 0 \<or> r1 = - EINVAL"
      using spi_test_translate_base_code[of ps "tx_buf (xfers t i)" "len (xfers t i)" tx rx] a
      by simp
    have r2: "r2 = 0 \<or> r2 = - EINVAL"
      using spi_test_translate_base_code[of ps "rx_buf (xfers ?t1 i)" "len (xfers ?t1 i)" tx rx] b
      by simp
    have unfold: "translate_xfers_base ps t tx rx i =
        (if r1 \<noteq> 0 then (r1, ?t1) else if r2 \<noteq> 0 then (r2, ?t2)
         else translate_xfers_base ps ?t2 tx rx (i + 1))"
      using True a b
      by (subst translate_xfers_base.simps) (simp add: Let_def)
    show ?thesis
    proof (cases "r1 \<noteq> 0")
      case True
      with unfold r1 show ?thesis by auto
    next
      case r10: False
      show ?thesis
      proof (cases "r2 \<noteq> 0")
        case True
        with unfold r10 r2 show ?thesis by auto
      next
        case r20: False
        from "1.IH"[OF True a[symmetric] refl r10 b[symmetric] refl r20]
        obtain f r where "translate_xfers_base ps ?t2 tx rx (i + 1) = (r, ?t2\<lparr>xfers := f\<rparr>)"
          "r = 0 \<or> r = - EINVAL"
          by auto
        with unfold r10 r20 show ?thesis by auto
      qed
    qed
  qed
qed


lemma translate_xfers_rich_frame:
  "\<exists>f r. translate_xfers_rich ps t tx rx i = (r, t\<lparr>transfers := f\<rparr>) \<and> (r = 0 \<or> r = - EINVAL)"
proof (induction ps t tx rx i rule: translate_xfers_rich.induct)
  case (1 ps t tx rx i)
  show ?case
  proof (cases "i < transfer_count t")
    case False
    then have "translate_xfers_rich ps t tx rx i = (0, t\<lparr>transfers := transfers t\<rparr>)"
      by (subst translate_xfers_rich.simps) simp
    then show ?thesis by blast
  next
    case True
    obtain r1 p where
      a: "spi_test_translate_rich ps (tx_buf (transfers t i)) (len (transfers t i)) tx rx = (r1, p)"
      by (cases "spi_test_translate_rich ps (tx_buf (transfers t i)) (len (transfers t i)) tx rx")
    let ?t1 = "t\<lparr>transfers := (transfers t)(i := (transfers t i)\<lparr>tx_buf := p\<rparr>)\<rparr>"
    obtain r2 q where
      b: "spi_test_translate_rich ps (rx_buf (transfers ?t1 i)) (len (transfers ?t1 i)) tx rx = (r2, q)"
      by (cases "spi_test_translate_rich ps (rx_buf (transfers ?t1 i)) (len (transfers ?t1 i)) tx rx")
    let ?t2 = "?t1\<lparr>transfers := (transfers ?t1)(i := (transfers ?t1 i)\<lparr>rx_buf := q\<rparr>)\<rparr>"
    have r1: "r1 = 0 \<or> r1 = - EINVAL"
      using spi_test_translate_rich_code[of ps "tx_buf (transfers t i)" "len (transfers t i)" tx rx] a
      by simp
    have r2: "r2 = 0 \<or> r2 = - EINVAL"
      using spi_test_translate_rich_code[of ps "rx_buf (transfers ?t1 i)" "len (transfers ?t1 i)" tx rx] b
      by simp
    have unfold: "translate_xfers_rich ps t tx rx i =
        (if r1 \<noteq> 0 then (r1, ?t1) else if r2 \<noteq> 0 then (r2, ?t2)
         else translate_xfers_rich ps ?t2 tx rx (i + 1))"
      using True a b
      by (subst translate_xfers_rich.simps) (simp add: Let_def)
    show ?thesis
    proof (cases "r1 \<noteq> 0")
      case True
      with unfold r1 show ?thesis by auto
    next
      case r10: False
      show ?thesis
      proof (cases "r2 \<noteq> 0")
        case True
        with unfold r10 r2 show ?thesis by auto
      next
        case r20: False
        from "1.IH"[OF True a[symmetric] refl r10 b[symmetric] refl r20]
        obtain f r where "translate_xfers_rich ps ?t2 tx rx (i + 1) = (r, ?t2\<lparr>transfers := f\<rparr>)"
          "r = 0 \<or> r = - EINVAL"
          by auto
        with unfold r10 r20 show ?thesis by auto
      qed
    qed
  qed
qed


lemma fill_bytes_base_code:
  "fst (fill_bytes_base be fopt fillv i n p j count stores) = 0
   \<or> fst (fill_bytes_base be fopt fillv i n p j count stores) = - EINVAL"
proof (induction be fopt fillv i n p j count stores rule: fill_bytes_base.induct)
  case (1 be fopt fillv i n p j count stores)
  then show ?case
    by (subst (1 2) fill_bytes_base.simps) (auto split: option.splits)
qed

lemma fill_xfers_base_code:
  "fst (fill_xfers_base be t i count stores) = 0
   \<or> fst (fill_xfers_base be t i count stores) = - EINVAL"
proof (induction be t i count stores rule: fill_xfers_base.induct)
  case (1 be t i count stores)
  show ?case
  proof (cases "i < transfers_base t")
    case False
    then show ?thesis by (subst (1 2) fill_xfers_base.simps) simp
  next
    case True
    obtain r c s where b: "fill_bytes_base be (fill_option t) (fill t) i (len (xfers t i))
        (tx_buf (xfers t i)) 0 count stores = (r, c, s)"
      by (metis prod_cases3)
    from fill_bytes_base_code[of be "fill_option t" "fill t" i "len (xfers t i)"
        "tx_buf (xfers t i)" 0 count stores] b
    have r: "r = 0 \<or> r = - EINVAL" by simp
    show ?thesis
    proof (cases "r = 0")
      case False
      with True b r show ?thesis by (subst (1 2) fill_xfers_base.simps) simp
    next
      case r0: True
      from "1.IH"[OF True b[symmetric] refl] r0 True b show ?thesis
        by (subst (1 2) fill_xfers_base.simps) simp
    qed
  qed
qed

lemma fill_stores_rich_code:
  "fst (fill_stores_rich be t) = 0 \<or> fst (fill_stores_rich be t) = - EINVAL"
proof (cases "fill_option_known (fill_option t)")
  case True
  from fill_xfers_rich_addrs[OF True, of be 0 0 "[]"] show ?thesis
    by (auto simp: fill_stores_rich_def)
next
  case False
  from fill_xfers_rich_unknown[OF False, of be 0 0 "[]"] show ?thesis
    by (auto simp: fill_stores_rich_def)
qed

text \<open>The fill pass changes the memory only; its code is 0 or \<open>-EINVAL\<close>.\<close>

lemma spi_test_fill_tx_base_Some:
  assumes "spi_test_fill_tx_base be t w = Some (r, w')"
  shows "(r = 0 \<or> r = - EINVAL) \<and> (\<exists>m. w' = w\<lparr>mem := m\<rparr>)"
  using assms fill_xfers_base_code[of be t 0 0 "[]"]
  by (auto simp: spi_test_fill_tx_base_def fill_stores_base_def split: prod.splits option.splits)

lemma spi_test_fill_tx_rich_Some:
  assumes "spi_test_fill_tx_rich be t w = Some (r, w')"
  shows "(r = 0 \<or> r = - EINVAL) \<and> (\<exists>m. w' = w\<lparr>mem := m\<rparr>)"
  using assms fill_stores_rich_code[of be t]
  by (auto simp: spi_test_fill_tx_rich_def split: prod.splits option.splits)

text \<open>The diagnostics of the loopback check are error lines.\<close>

lemma check_loopback_no_progress:
  "progress (snd (spi_test_check_loopback_result m xs)) = []"
  by (induction xs) (auto simp: progress_def Let_def split: option.splits)

lemma execute_base_frame:
  assumes "execute_base e t tx rx w = (r, w')"
  shows "msgs w' = msgs w"
  using assms
  by (auto simp: execute_base_def spi_test_execute_msg_base_def
        split: option.splits prod.splits if_splits)

text \<open>
  The dump without the data reads no buffer; with the data it reads through the null
  pointer exactly when the message has a transfer with a receive buffer, no transmit
  buffer and a length.
\<close>

lemma spi_test_dump_message_no_data: "spi_test_dump_message msg False = Some ()"
  by (induction msg) simp_all

lemma spi_test_dump_message_None:
  "spi_test_dump_message msg dump_data = None
     \<longleftrightarrow> dump_data \<and> (\<exists>x \<in> set msg. rx_buf x \<noteq> 0 \<and> tx_buf x = 0 \<and> len x \<noteq> 0)"
  by (induction msg) auto

lemma execute_result_rich_progress:
  assumes "execute_result_rich e msg w = (r, w')"
  shows "\<exists>es. msgs w' = msgs w @ es \<and> progress es = []"
proof (cases "simulate_only e = 0")
  case False
  with assms show ?thesis
    by (auto simp: execute_result_rich_def progress_def)
next
  case True
  obtain ret m d fl al where s: "spi_sync e msg (mem w) (dev w) = (ret, m, d, fl, al)"
    by (metis prod_cases5)
  obtain r' es where c: "spi_test_check_loopback_result m msg = (r', es)"
    by (cases "spi_test_check_loopback_result m msg")
  from check_loopback_no_progress[of m msg] c have "progress es = []" by simp
  with True s c assms show ?thesis
    by (auto simp: execute_result_rich_def Let_def progress_def split: if_splits)
qed

lemma spi_test_execute_msg_rich_Some:
  assumes "spi_test_execute_msg_rich e msg w = Some (r, w')"
  shows "execute_result_rich e msg w = (r, w')"
  using assms
  by (auto simp: spi_test_execute_msg_rich_def split: prod.splits if_splits option.splits)

lemma execute_rich_progress:
  assumes "execute_rich e t tx rx w = Some (r, w')"
  shows "\<exists>es. msgs w' = msgs w @ es \<and> progress es = []"
proof (cases "test t")
  case (Some f)
  with assms show ?thesis
    by (auto simp: execute_rich_def progress_def split: prod.splits)
next
  case None
  with assms have "spi_test_execute_msg_rich e (message_rich t) w = Some (r, w')"
    by (simp add: execute_rich_def)
  from execute_result_rich_progress[OF spi_test_execute_msg_rich_Some[OF this]]
  show ?thesis .
qed

lemma execute_base_simulated:
  "simulate_only e \<noteq> 0 \<Longrightarrow> test t = None \<Longrightarrow> execute_base e t tx rx w = (0, w)"
  by (simp add: execute_base_def spi_test_execute_msg_base_def)


lemma execute_rich_simulated:
  "simulate_only e \<noteq> 0 \<Longrightarrow> dump_messages e \<noteq> 2 \<Longrightarrow> test t = None
     \<Longrightarrow> execute_rich e t tx rx w = Some (0, w)"
  by (simp add: execute_rich_def spi_test_execute_msg_rich_def execute_result_rich_def
        spi_test_dump_message_no_data)

lemma translate_xfers_base_fields:
  assumes "translate_xfers_base ps t tx rx i = (r, t1)"
  shows "expected_return t1 = expected_return t \<and> test t1 = test t
       \<and> description t1 = description t \<and> transfers_base t1 = transfers_base t
       \<and> (r = 0 \<or> r = - EINVAL)"
  using translate_xfers_base_frame[of ps t tx rx i] assms by auto

lemma translate_xfers_rich_fields:
  assumes "translate_xfers_rich ps t tx rx i = (r, t1)"
  shows "expected_return t1 = expected_return t \<and> test t1 = test t
       \<and> description t1 = description t \<and> transfer_count t1 = transfer_count t
       \<and> (r = 0 \<or> r = - EINVAL)"
  using translate_xfers_rich_frame[of ps t tx rx i] assms by auto

lemma handle_result_cases:
  "handle_result ret expected =
     (if ret = expected then 0 else if ret \<noteq> 0 then ret else - EFAULT)"
  by (simp add: handle_result_def)

lemma u_spi_test_run_rich_executed:
  assumes "translate_xfers_rich (page_size e) t tx rx 0 = (0, t1)"
    and "spi_test_fill_tx_rich (big_endian e) t1 w = Some (0, w1)"
    and "execute_rich e t1 tx rx w1 = Some (ret, w2)"
  shows "u_spi_test_run_rich e t tx rx w = Some (handle_result ret (expected_return t), t1, w2)"
  using assms translate_xfers_rich_fields[of "page_size e" t tx rx 0 0 t1]
  by (simp add: u_spi_test_run_rich_def)

lemma u_spi_test_run_base_executed:
  assumes "transfers_base t < SPI_TEST_MAX_TRANSFERS"
    and "translate_xfers_base (page_size e) t tx rx 0 = (0, t1)"
    and "spi_test_fill_tx_base (big_endian e) t1 w = Some (0, w1)"
    and "execute_base e t1 tx rx w1 = (ret, w2)"
  shows "u_spi_test_run_base e t tx rx w = Some (handle_result ret (expected_return t), t1, w2)"
  using assms translate_xfers_base_fields[of "page_size e" t tx rx 0 0 t1]
  by (simp add: u_spi_test_run_base_def)

text \<open>
  C5, amended. When the translation and the fill pass of \<^verbatim>\<open>_spi_test_run\<close> have
  succeeded and the execution has produced \<open>ret\<close>, the outcome is 0 if \<open>ret\<close> equals
  \<^verbatim>\<open>expected_return\<close>; it is \<open>ret\<close> itself if \<open>ret\<close> is an error other than the expected
  value; and it is \<open>-EFAULT\<close> if \<open>ret\<close> is 0 and another value was expected. \<open>-EFAULT\<close>
  is not 0, and it differs from the expected value unless the test case expects
  \<open>-EFAULT\<close> itself. The same holds in both variants.
\<close>

theorem outcome_against_expected_return:
  "(translate_xfers_rich (page_size e) t tx rx 0 = (0, t1)
      \<and> spi_test_fill_tx_rich (big_endian e) t1 w = Some (0, w1)
      \<and> execute_rich e t1 tx rx w1 = Some (ret, w2) \<longrightarrow>
    u_spi_test_run_rich e t tx rx w
      = Some (if ret = expected_return t then 0 else if ret \<noteq> 0 then ret else - EFAULT, t1, w2))
   \<and> (transfers_base b < SPI_TEST_MAX_TRANSFERS
      \<and> translate_xfers_base (page_size e) b tx rx 0 = (0, b1)
      \<and> spi_test_fill_tx_base (big_endian e) b1 w = Some (0, w1)
      \<and> execute_base e b1 tx rx w1 = (ret, w2) \<longrightarrow>
    u_spi_test_run_base e b tx rx w
      = Some (if ret = expected_return b then 0 else if ret \<noteq> 0 then ret else - EFAULT, b1, w2))
   \<and> - EFAULT \<noteq> 0
   \<and> (expected_return t \<noteq> - EFAULT \<longrightarrow> - EFAULT \<noteq> expected_return t)"
proof (intro conjI impI)
  assume "translate_xfers_rich (page_size e) t tx rx 0 = (0, t1)
      \<and> spi_test_fill_tx_rich (big_endian e) t1 w = Some (0, w1)
      \<and> execute_rich e t1 tx rx w1 = Some (ret, w2)"
  then show "u_spi_test_run_rich e t tx rx w
      = Some (if ret = expected_return t then 0 else if ret \<noteq> 0 then ret else - EFAULT, t1, w2)"
    using u_spi_test_run_rich_executed[of e t tx rx t1 w w1 ret w2]
    by (simp add: handle_result_cases)
next
  assume "transfers_base b < SPI_TEST_MAX_TRANSFERS
      \<and> translate_xfers_base (page_size e) b tx rx 0 = (0, b1)
      \<and> spi_test_fill_tx_base (big_endian e) b1 w = Some (0, w1)
      \<and> execute_base e b1 tx rx w1 = (ret, w2)"
  then show "u_spi_test_run_base e b tx rx w
      = Some (if ret = expected_return b then 0 else if ret \<noteq> 0 then ret else - EFAULT, b1, w2)"
    using u_spi_test_run_base_executed[of b e tx rx b1 w w1 ret w2]
    by (simp add: handle_result_cases)
next
  show "- EFAULT \<noteq> 0" by (simp add: EFAULT_def)
next
  assume "expected_return t \<noteq> - EFAULT"
  then show "- EFAULT \<noteq> expected_return t" by simp
qed

lemma rx_byte_rich_translated:
  "translate_xfers_rich 4096 (rx_byte_rich x) 4096 8192 0
     = (0, (rx_byte_rich x)\<lparr>transfers := (\<lambda>i. no_transfer)(0 := \<lparr>tx_buf = 0, rx_buf = 8192, len = 1\<rparr>)\<rparr>)"
  by (simp add: translate_xfers_rich.simps rx_byte_rich_def end_of_tests_rich_def
        spi_test_translate_rich_def placeholder_defs)

lemma rx_byte_rich_filled:
  "spi_test_fill_tx_rich be
     ((rx_byte_rich x)\<lparr>transfers := (\<lambda>i. no_transfer)(0 := \<lparr>tx_buf = 0, rx_buf = 8192, len = 1\<rparr>)\<rparr>) w
     = Some (0, w)"
  using fill_rich_skips_absent_tx[of "(rx_byte_rich x)\<lparr>transfers := (\<lambda>i. no_transfer)(0 := \<lparr>tx_buf = 0, rx_buf = 8192, len = 1\<rparr>)\<rparr>" be w]
  by (simp add: rx_byte_rich_def end_of_tests_rich_def no_transfer_def)

lemma tx_byte_base_translated:
  "translate_xfers_base 4096 (tx_byte_base x) 4096 8192 0
     = (0, (tx_byte_base x)\<lparr>xfers := (\<lambda>i. no_transfer)(0 := \<lparr>tx_buf = 4096, rx_buf = 0, len = 1\<rparr>)\<rparr>)"
  by (simp add: translate_xfers_base.simps tx_byte_base_def end_of_tests_base_def
        spi_test_translate_base_def placeholder_defs)

lemma tx_byte_base_filled:
  "spi_test_fill_tx_base False
     ((tx_byte_base x)\<lparr>xfers := (\<lambda>i. no_transfer)(0 := \<lparr>tx_buf = 4096, rx_buf = 0, len = 1\<rparr>)\<rparr>) w
     = Some (0, w\<lparr>mem := (mem w)(4096 := 0)\<rparr>)"
  by (simp add: spi_test_fill_tx_base_def fill_stores_base_def fill_xfers_base.simps
        fill_bytes_base.simps tx_byte_base_def end_of_tests_base_def fill_byte_base_def
        fill_option_defs)

lemma tx_byte_rich_translated:
  "translate_xfers_rich 4096 (tx_byte_rich x) 4096 8192 0
     = (0, (tx_byte_rich x)\<lparr>transfers := (\<lambda>i. no_transfer)(0 := \<lparr>tx_buf = 4096, rx_buf = 0, len = 1\<rparr>)\<rparr>)"
  by (simp add: translate_xfers_rich.simps tx_byte_rich_def end_of_tests_rich_def
        spi_test_translate_rich_def placeholder_defs)

lemma tx_byte_rich_filled:
  "spi_test_fill_tx_rich False
     ((tx_byte_rich x)\<lparr>transfers := (\<lambda>i. no_transfer)(0 := \<lparr>tx_buf = 4096, rx_buf = 0, len = 1\<rparr>)\<rparr>) w
     = Some (0, w\<lparr>mem := (mem w)(4096 := 0)\<rparr>)"
  by (simp add: spi_test_fill_tx_rich_def fill_stores_rich_def fill_xfers_rich.simps
        fill_bytes_rich.simps tx_byte_rich_def end_of_tests_rich_def fill_byte_rich_def
        fill_option_defs)

text \<open>
  The examples of the specification, with a test case that expects \<open>-EINVAL\<close>: the
  transport returns \<open>-EINVAL\<close> and the outcome is 0; the run is simulated (the result
  is 0) and the outcome is \<open>-EFAULT\<close>; the transport returns \<open>-EIO\<close> and the outcome is
  \<open>-EIO\<close>. Where the transport fails, the test case has a transmit buffer only, so
  that the dump of the message reads a buffer that is there.
\<close>

theorem outcome_against_expected_return_witness:
  "map_option fst (u_spi_test_run_rich (bus_returning (- EINVAL)) (tx_byte_rich (- EINVAL)) 4096 8192 blank)
     = Some 0
   \<and> map_option fst (u_spi_test_run_rich simulation (rx_byte_rich (- EINVAL)) 4096 8192 blank)
     = Some (- EFAULT)
   \<and> map_option fst (u_spi_test_run_rich (bus_returning (- EIO)) (tx_byte_rich (- EINVAL)) 4096 8192 blank)
     = Some (- EIO)
   \<and> map_option fst (u_spi_test_run_base (bus_returning (- EINVAL)) (tx_byte_base (- EINVAL)) 4096 8192 blank)
     = Some 0"
proof -
  let ?t = "rx_byte_rich (- EINVAL)"
  let ?s = "tx_byte_rich (- EINVAL)"
  let ?b = "tx_byte_base (- EINVAL)"
  let ?t1 = "?t\<lparr>transfers := (\<lambda>i. no_transfer)(0 := \<lparr>tx_buf = 0, rx_buf = 8192, len = 1\<rparr>)\<rparr>"
  let ?s1 = "?s\<lparr>transfers := (\<lambda>i. no_transfer)(0 := \<lparr>tx_buf = 4096, rx_buf = 0, len = 1\<rparr>)\<rparr>"
  let ?b1 = "?b\<lparr>xfers := (\<lambda>i. no_transfer)(0 := \<lparr>tx_buf = 4096, rx_buf = 0, len = 1\<rparr>)\<rparr>"
  let ?w1 = "blank\<lparr>mem := (mem blank)(4096 := 0)\<rparr>"
  have env: "page_size (bus_returning r) = 4096" "big_endian (bus_returning r) = False"
     "page_size simulation = 4096" "big_endian simulation = False" for r
    by (simp_all add: bus_returning_def simulation_def)
  have tr: "translate_xfers_rich (page_size (bus_returning r)) ?s 4096 8192 0 = (0, ?s1)"
     "translate_xfers_rich (page_size simulation) ?t 4096 8192 0 = (0, ?t1)" for r
    by (simp_all only: env rx_byte_rich_translated tx_byte_rich_translated)
  have fi: "spi_test_fill_tx_rich (big_endian (bus_returning r)) ?s1 blank = Some (0, ?w1)"
     "spi_test_fill_tx_rich (big_endian simulation) ?t1 blank = Some (0, blank)" for r
    by (simp_all only: env rx_byte_rich_filled tx_byte_rich_filled)
  have ex: "execute_rich (bus_returning r) ?s1 4096 8192 ?w1 = Some (r, ?w1)" for r
    by (simp add: execute_rich_def spi_test_execute_msg_rich_def execute_result_rich_def
          message_rich_def bus_returning_def simulation_def tx_byte_rich_def
          end_of_tests_rich_def blank_def Let_def)
  have exs: "execute_rich simulation ?t1 4096 8192 blank = Some (0, blank)"
    by (rule execute_rich_simulated)
       (simp_all add: simulation_def rx_byte_rich_def end_of_tests_rich_def)
  have small: "transfers_base ?b < SPI_TEST_MAX_TRANSFERS"
    by (simp add: tx_byte_base_def end_of_tests_base_def SPI_TEST_MAX_TRANSFERS_def)
  have trb: "translate_xfers_base (page_size (bus_returning r)) ?b 4096 8192 0 = (0, ?b1)" for r
    by (simp only: env tx_byte_base_translated)
  have fib: "spi_test_fill_tx_base (big_endian (bus_returning r)) ?b1 blank = Some (0, ?w1)" for r
    by (simp only: env tx_byte_base_filled)
  have exb: "execute_base (bus_returning r) ?b1 4096 8192 ?w1 = (r, ?w1)" for r
    by (simp add: execute_base_def spi_test_execute_msg_base_def bus_returning_def
          simulation_def tx_byte_base_def end_of_tests_base_def blank_def)
  have exp: "expected_return ?t = - EINVAL" "expected_return ?s = - EINVAL"
    "expected_return ?b = - EINVAL"
    by (simp_all add: rx_byte_rich_def tx_byte_rich_def tx_byte_base_def end_of_tests_rich_def
          end_of_tests_base_def)
  have codes: "- EIO \<noteq> - EINVAL" "- EIO \<noteq> 0" "- EINVAL \<noteq> 0"
    by (simp_all add: EIO_def EINVAL_def)
  note rich = outcome_against_expected_return[THEN conjunct1, THEN mp]
  note base = outcome_against_expected_return[THEN conjunct2, THEN conjunct1, THEN mp]
  have 1: "map_option fst (u_spi_test_run_rich (bus_returning (- EINVAL)) ?s 4096 8192 blank) = Some 0"
    using rich[OF conjI[OF tr(1) conjI[OF fi(1) ex]], of "- EINVAL"] exp by simp
  have 2: "map_option fst (u_spi_test_run_rich simulation ?t 4096 8192 blank) = Some (- EFAULT)"
    using rich[OF conjI[OF tr(2) conjI[OF fi(2) exs]]] exp codes by simp
  have 3: "map_option fst (u_spi_test_run_rich (bus_returning (- EIO)) ?s 4096 8192 blank)
      = Some (- EIO)"
    using rich[OF conjI[OF tr(1) conjI[OF fi(1) ex]], of "- EIO"] exp codes by simp
  have 4: "map_option fst (u_spi_test_run_base (bus_returning (- EINVAL)) ?b 4096 8192 blank) = Some 0"
    using base[OF conjI[OF small conjI[OF trb conjI[OF fib exb]]], of "- EINVAL"] exp by simp
  from 1 2 3 4 show ?thesis by simp
qed

text \<open>
  C5 as it is stated fails where the test case expects \<open>-EFAULT\<close>: the simulated run
  succeeds (the execution returns 0), another value was expected, and the outcome is
  the expected value itself.
\<close>

theorem outcome_unexpected_success_counterexample:
  "expected_return (rx_byte_rich (- EFAULT)) \<noteq> 0
   \<and> simulate_only simulation \<noteq> 0 \<and> test (rx_byte_rich (- EFAULT)) = None
   \<and> map_option fst (u_spi_test_run_rich simulation (rx_byte_rich (- EFAULT)) 4096 8192 blank)
       = Some (expected_return (rx_byte_rich (- EFAULT)))"
proof -
  let ?t1 = "(rx_byte_rich (- EFAULT))\<lparr>transfers :=
                (\<lambda>i. no_transfer)(0 := \<lparr>tx_buf = 0, rx_buf = 8192, len = 1\<rparr>)\<rparr>"
  have exs: "execute_rich simulation ?t1 4096 8192 blank = Some (0, blank)"
    by (rule execute_rich_simulated)
       (simp_all add: simulation_def rx_byte_rich_def end_of_tests_rich_def)
  have env: "page_size simulation = 4096" "big_endian simulation = False"
      "simulate_only simulation \<noteq> 0"
    by (simp_all add: simulation_def)
  have exp: "expected_return (rx_byte_rich (- EFAULT)) = - EFAULT"
      "expected_return ?t1 = - EFAULT" "test (rx_byte_rich (- EFAULT)) = None"
    by (simp_all add: rx_byte_rich_def end_of_tests_rich_def)
  have code: "- EFAULT \<noteq> 0" by (simp add: EFAULT_def)
  have tr: "translate_xfers_rich (page_size simulation) (rx_byte_rich (- EFAULT)) 4096 8192 0
      = (0, ?t1)"
    by (simp only: env rx_byte_rich_translated)
  have fi: "spi_test_fill_tx_rich (big_endian simulation) ?t1 blank = Some (0, blank)"
    by (simp only: env rx_byte_rich_filled)
  have "u_spi_test_run_rich simulation (rx_byte_rich (- EFAULT)) 4096 8192 blank
      = Some (handle_result 0 (expected_return (rx_byte_rich (- EFAULT))), ?t1, blank)"
    by (rule u_spi_test_run_rich_executed[OF tr fi exs])
  then have "map_option fst (u_spi_test_run_rich simulation (rx_byte_rich (- EFAULT)) 4096 8192 blank)
      = Some (- EFAULT)"
    using code by (simp add: exp(1) handle_result_def)
  with env exp code show ?thesis by simp
qed

text \<open>
  With a receive buffer only, the same failing transport ends in the dump of the
  message, which reads the receive data through the transmit buffer that is not there:
  the run does not return.
\<close>

lemma rx_byte_rich_bus_error_faults:
  "u_spi_test_run_rich (bus_returning (- EIO)) (rx_byte_rich x) 4096 8192 blank = None"
proof -
  let ?t1 = "(rx_byte_rich x)\<lparr>transfers :=
                (\<lambda>i. no_transfer)(0 := \<lparr>tx_buf = 0, rx_buf = 8192, len = 1\<rparr>)\<rparr>"
  have env: "page_size (bus_returning (- EIO)) = 4096" "big_endian (bus_returning (- EIO)) = False"
    by (simp_all add: bus_returning_def simulation_def)
  have tr: "translate_xfers_rich (page_size (bus_returning (- EIO))) (rx_byte_rich x) 4096 8192 0
      = (0, ?t1)"
    by (simp only: env rx_byte_rich_translated)
  have fi: "spi_test_fill_tx_rich (big_endian (bus_returning (- EIO))) ?t1 blank = Some (0, blank)"
    by (simp only: env rx_byte_rich_filled)
  have "execute_rich (bus_returning (- EIO)) ?t1 4096 8192 blank = None"
    by (simp add: execute_rich_def spi_test_execute_msg_rich_def execute_result_rich_def
          message_rich_def bus_returning_def simulation_def rx_byte_rich_def end_of_tests_rich_def blank_def
          Let_def EIO_def)
  with tr fi show ?thesis
    by (simp add: u_spi_test_run_rich_def)
qed
subsection \<open>One iteration point\<close>

text \<open>The patch loops change the transfers from index \<open>i\<close> up to the count, and nothing else.\<close>

lemma patch_xfers_rich_result:
  "patch_xfers_rich t n tx_off rx_off i =
     t\<lparr>transfers := (\<lambda>k. if i \<le> k \<and> k < transfer_count t
                          then patch_xfer_rich n tx_off rx_off (transfers t k)
                          else transfers t k)\<rparr>"
proof (induction t n tx_off rx_off i rule: patch_xfers_rich.induct)
  case (1 t n tx_off rx_off i)
  show ?case
  proof (cases "i < transfer_count t")
    case False
    then have "(\<lambda>k. if i \<le> k \<and> k < transfer_count t
                   then patch_xfer_rich n tx_off rx_off (transfers t k) else transfers t k)
               = transfers t"
      by auto
    with False show ?thesis by (subst patch_xfers_rich.simps) simp
  next
    case True
    let ?t' = "t\<lparr>transfers := (transfers t)(i := patch_xfer_rich n tx_off rx_off (transfers t i))\<rparr>"
    have "(\<lambda>k. if i + 1 \<le> k \<and> k < transfer_count ?t'
                then patch_xfer_rich n tx_off rx_off (transfers ?t' k) else transfers ?t' k)
          = (\<lambda>k. if i \<le> k \<and> k < transfer_count t
                then patch_xfer_rich n tx_off rx_off (transfers t k) else transfers t k)"
      using True by (auto simp: fun_eq_iff)
    with "1.IH"[OF True] True show ?thesis
      by (subst patch_xfers_rich.simps) simp
  qed
qed

lemma patch_xfers_base_result:
  "patch_xfers_base t n tx_off rx_off i =
     t\<lparr>xfers := (\<lambda>k. if i \<le> k \<and> k < transfers_base t
                      then patch_xfer_base n tx_off rx_off (xfers t k)
                      else xfers t k)\<rparr>"
proof (induction t n tx_off rx_off i rule: patch_xfers_base.induct)
  case (1 t n tx_off rx_off i)
  show ?case
  proof (cases "i < transfers_base t")
    case False
    then have "(\<lambda>k. if i \<le> k \<and> k < transfers_base t
                   then patch_xfer_base n tx_off rx_off (xfers t k) else xfers t k)
               = xfers t"
      by auto
    with False show ?thesis by (subst patch_xfers_base.simps) simp
  next
    case True
    let ?t' = "t\<lparr>xfers := (xfers t)(i := patch_xfer_base n tx_off rx_off (xfers t i))\<rparr>"
    have "(\<lambda>k. if i + 1 \<le> k \<and> k < transfers_base ?t'
                then patch_xfer_base n tx_off rx_off (xfers ?t' k) else xfers ?t' k)
          = (\<lambda>k. if i \<le> k \<and> k < transfers_base t
                then patch_xfer_base n tx_off rx_off (xfers t k) else xfers t k)"
      using True by (auto simp: fun_eq_iff)
    with "1.IH"[OF True] True show ?thesis
      by (subst patch_xfers_base.simps) simp
  qed
qed

text \<open>
  C10. \<^verbatim>\<open>spi_test_run_iter\<close> of the richer variant at an iteration point other than
  (0, 0, 0) that it does not skip (\<open>c\<close> is the number of transfers it works with, the
  declared one or, when that is 0, the calculated one; \<open>tx_count\<close> and \<open>rx_count\<close> are
  its two counters): it writes the line with the iteration values and runs
  \<^verbatim>\<open>_spi_test_run\<close> on the working copy in which each of the first \<open>c\<close> transfers is
  patched as follows. When the transfer has no transmit buffer, \<^verbatim>\<open>tx_buf\<close> stays null
  and \<^verbatim>\<open>rx_buf\<close> is left as it is, whatever the rx offset; when it has one, \<open>tx_off\<close> is
  added to \<^verbatim>\<open>tx_buf\<close> (also when \<open>tx_off\<close> is 0) and \<open>rx_off\<close> is added to \<^verbatim>\<open>rx_buf\<close>.
  The length is replaced when the point gives one. The transfers from \<open>c\<close> on are not
  touched.
\<close>

theorem iteration_patch_rx_follows_tx:
  "(n \<noteq> 0 \<or> tx_off \<noteq> 0 \<or> rx_off \<noteq> 0)
   \<and> c = (if transfer_count t = 0 then count_transfers (transfers t) 0 0 else transfer_count t)
   \<and> count_buffers (t\<lparr>transfer_count := c\<rparr>) 0 (stack_tx_count e) (stack_rx_count e)
        = (tx_count, rx_count)
   \<and> \<not> (tx_off \<noteq> 0 \<and> tx_count = 0) \<and> \<not> (rx_off \<noteq> 0 \<and> rx_count = 0) \<longrightarrow>
   spi_test_run_iter_rich e t tx rx n tx_off rx_off w =
     map_option (\<lambda>(ret, t3, w2). (ret, w2))
       (u_spi_test_run_rich e
          (t\<lparr>transfer_count := c,
             transfers := (\<lambda>k.
               if k < c then
                 \<lparr>tx_buf = (if tx_buf (transfers t k) \<noteq> 0 then tx_buf (transfers t k) + tx_off
                            else 0),
                  rx_buf = (if tx_buf (transfers t k) \<noteq> 0 then rx_buf (transfers t k) + rx_off
                            else rx_buf (transfers t k)),
                  len = (if n \<noteq> 0 then n else len (transfers t k))\<rparr>
               else transfers t k)\<rparr>)
          tx rx (w\<lparr>msgs := msgs w @ [Info_iteration_values n tx_off rx_off]\<rparr>))"
proof
  let ?patched = "\<lambda>k. if k < c then
                 \<lparr>tx_buf = (if tx_buf (transfers t k) \<noteq> 0 then tx_buf (transfers t k) + tx_off
                            else 0),
                  rx_buf = (if tx_buf (transfers t k) \<noteq> 0 then rx_buf (transfers t k) + rx_off
                            else rx_buf (transfers t k)),
                  len = (if n \<noteq> 0 then n else len (transfers t k))\<rparr>
               else transfers t k"
  let ?w1 = "w\<lparr>msgs := msgs w @ [Info_iteration_values n tx_off rx_off]\<rparr>"
  assume a: "(n \<noteq> 0 \<or> tx_off \<noteq> 0 \<or> rx_off \<noteq> 0)
   \<and> c = (if transfer_count t = 0 then count_transfers (transfers t) 0 0 else transfer_count t)
   \<and> count_buffers (t\<lparr>transfer_count := c\<rparr>) 0 (stack_tx_count e) (stack_rx_count e)
        = (tx_count, rx_count)
   \<and> \<not> (tx_off \<noteq> 0 \<and> tx_count = 0) \<and> \<not> (rx_off \<noteq> 0 \<and> rx_count = 0)"
  define t1 where "t1 = (if transfer_count t = 0
      then t\<lparr>transfer_count := count_transfers (transfers t) 0 0\<rparr> else t)"
  from a have "c = (if transfer_count t = 0 then count_transfers (transfers t) 0 0
      else transfer_count t)"
    by blast
  then have t1: "t1 = t\<lparr>transfer_count := c\<rparr>"
    by (simp add: t1_def)
  have fn: "(\<lambda>k. if 0 \<le> k \<and> k < transfer_count t1
                 then patch_xfer_rich n tx_off rx_off (transfers t1 k)
                 else transfers t1 k) = ?patched"
    by (auto simp: t1 fun_eq_iff patch_xfer_rich_def Let_def intro!: spi_transfer.equality)
  have "patch_xfers_rich t1 n tx_off rx_off 0 = t1\<lparr>transfers := ?patched\<rparr>"
    by (simp only: patch_xfers_rich_result fn)
  then have patched: "patch_xfers_rich t1 n tx_off rx_off 0 =
      t\<lparr>transfer_count := c, transfers := ?patched\<rparr>"
    by (simp add: t1)
  have cb: "count_buffers t1 0 (stack_tx_count e) (stack_rx_count e) = (tx_count, rx_count)"
    unfolding t1 using a by blast
  from a have point: "n \<noteq> 0 \<or> tx_off \<noteq> 0 \<or> rx_off \<noteq> 0"
    and keep: "\<not> (tx_off \<noteq> 0 \<and> tx_count = 0)" "\<not> (rx_off \<noteq> 0 \<and> rx_count = 0)"
    by blast+
  have "spi_test_run_iter_rich e t tx rx n tx_off rx_off w =
      (case u_spi_test_run_rich e (patch_xfers_rich t1 n tx_off rx_off 0) tx rx ?w1 of
         None \<Rightarrow> None | Some (ret, t3, w2) \<Rightarrow> Some (ret, w2))"
    using point keep
    by (auto simp: spi_test_run_iter_rich_def t1_def[symmetric] cb Let_def)
  then show "spi_test_run_iter_rich e t tx rx n tx_off rx_off w =
     map_option (\<lambda>(ret, t3, w2). (ret, w2))
       (u_spi_test_run_rich e (t\<lparr>transfer_count := c, transfers := ?patched\<rparr>) tx rx ?w1)"
    unfolding patched by (auto split: option.splits)
qed

text \<open>
  The test case \<open>rx_then_duplex\<close> at the point (2, 2, 1), with the buffers at 4096 and
  8192: the custom test function sees the transfer without a transmit buffer with its
  receive buffer at the start of the receive region (the rx offset is not added), and
  the transfer with both buffers moved by 2 and by 1.
\<close>

theorem iteration_patch_rx_follows_tx_witness:
  "map_option (\<lambda>(ret, w'). (ret, dev w', msgs w'))
     (spi_test_run_iter_rich recording rx_then_duplex 4096 8192 2 2 1 nothing_recorded)
   = Some (0, [\<lparr>tx_buf = 0, rx_buf = 8192, len = 2\<rparr>,
               \<lparr>tx_buf = 4098, rx_buf = 8257, len = 2\<rparr>],
           [Info_iteration_values 2 2 1])"
proof -
  let ?c = "\<lambda>k. if k < (2::nat) then
                 \<lparr>tx_buf = (if tx_buf (transfers rx_then_duplex k) \<noteq> 0
                            then tx_buf (transfers rx_then_duplex k) + 2 else 0),
                  rx_buf = (if tx_buf (transfers rx_then_duplex k) \<noteq> 0
                            then rx_buf (transfers rx_then_duplex k) + 1
                            else rx_buf (transfers rx_then_duplex k)),
                  len = (if (2::nat) \<noteq> 0 then 2 else len (transfers rx_then_duplex k))\<rparr>
               else transfers rx_then_duplex k"
  let ?w1 = "nothing_recorded\<lparr>msgs := msgs nothing_recorded @ [Info_iteration_values 2 2 1]\<rparr>"
  have xs: "transfers rx_then_duplex 0 = \<lparr>tx_buf = 0, rx_buf = RX 0, len = 1\<rparr>"
    "transfers rx_then_duplex (Suc 0) = \<lparr>tx_buf = TX 0, rx_buf = RX 64, len = 1\<rparr>"
    "transfers rx_then_duplex (Suc (Suc 0)) = no_transfer"
    "transfer_count rx_then_duplex = 0"
    by (simp_all add: rx_then_duplex_def end_of_tests_rich_def)
  have cnt: "count_transfers (transfers rx_then_duplex) 0 0 = 2"
    by (simp add: count_transfers.simps[of _ 0] count_transfers.simps[of _ "Suc 0"]
          count_transfers.simps[of _ "Suc (Suc 0)"] xs no_transfer_def SPI_TEST_MAX_TRANSFERS_def)
  have c: "(2::nat) = (if transfer_count rx_then_duplex = 0
      then count_transfers (transfers rx_then_duplex) 0 0 else transfer_count rx_then_duplex)"
    by (simp add: xs cnt)
  have cb: "count_buffers (rx_then_duplex\<lparr>transfer_count := 2\<rparr>) 0
      (stack_tx_count recording) (stack_rx_count recording) = (1, 2)"
    by (simp add: count_buffers.simps[of _ 0] count_buffers.simps[of _ "Suc 0"]
          count_buffers.simps[of _ "Suc (Suc 0)"] xs recording_def placeholder_defs)
  have hyp: "((2::nat) \<noteq> 0 \<or> (2::nat) \<noteq> 0 \<or> (1::nat) \<noteq> 0)
   \<and> (2::nat) = (if transfer_count rx_then_duplex = 0
      then count_transfers (transfers rx_then_duplex) 0 0 else transfer_count rx_then_duplex)
   \<and> count_buffers (rx_then_duplex\<lparr>transfer_count := 2\<rparr>) 0
        (stack_tx_count recording) (stack_rx_count recording) = (1, 2)
   \<and> \<not> ((2::nat) \<noteq> 0 \<and> (1::32 word) = 0) \<and> \<not> ((1::nat) \<noteq> 0 \<and> (2::32 word) = 0)"
    using c cb by simp
  note run = iteration_patch_rx_follows_tx[where n = 2 and tx_off = 2 and rx_off = 1
      and c = 2 and t = rx_then_duplex and e = recording and tx_count = 1 and rx_count = 2
      and tx = 4096 and rx = 8192 and w = nothing_recorded, THEN mp, OF hyp]
  let ?t2 = "rx_then_duplex\<lparr>transfer_count := 2, transfers := ?c\<rparr>"
  have cs: "?c 0 = \<lparr>tx_buf = 0, rx_buf = RX 0, len = 2\<rparr>"
    "?c (Suc 0) = \<lparr>tx_buf = TX 2, rx_buf = RX 65, len = 2\<rparr>"
    by (simp_all add: xs placeholder_defs)
  let ?A = "\<lparr>tx_buf = 0, rx_buf = 8192, len = 2\<rparr>"
  let ?B = "\<lparr>tx_buf = 4098, rx_buf = 8257, len = 2\<rparr>"
  let ?t3 = "?t2\<lparr>transfers := (?c)(0 := ?A, Suc 0 := ?B)\<rparr>"
  have tr: "translate_xfers_rich (page_size recording) ?t2 4096 8192 0 = (0, ?t3)"
    by (simp add: translate_xfers_rich.simps[of _ _ _ _ 0]
          translate_xfers_rich.simps[of _ _ _ _ "Suc 0"]
          translate_xfers_rich.simps[of _ _ _ _ "Suc (Suc 0)"]
          translate_xfers_rich.simps[of _ _ _ _ 2]
          recording_def xs spi_test_translate_rich_def placeholder_defs)
  have f: "test rx_then_duplex = Some record_message" "expected_return ?t3 = 0"
    "expected_return rx_then_duplex = 0"
    "fill_option_known (fill_option ?t3)"
    by (simp_all add: rx_then_duplex_def end_of_tests_rich_def fill_option_known_def
          fill_option_defs)
  from fill_rich_stores_tx_buffers[of ?t3 "big_endian recording"] f(4)
  have z: "fst (fill_stores_rich (big_endian recording) ?t3) = 0"
    by blast
  from spi_test_fill_tx_rich_total[of "big_endian recording" ?t3 ?w1] obtain r1 m where
    fi0: "spi_test_fill_tx_rich (big_endian recording) ?t3 ?w1 = Some (r1, ?w1\<lparr>mem := m\<rparr>)"
    by blast
  with z have "r1 = 0"
    by (auto simp: spi_test_fill_tx_rich_def split: prod.splits option.splits)
  with fi0 have fi: "spi_test_fill_tx_rich (big_endian recording) ?t3 ?w1
      = Some (0, ?w1\<lparr>mem := m\<rparr>)"
    by simp
  have msg: "message_rich ?t3 = [?A, ?B]"
    by (simp add: message_rich_def upt_rec[of 0] upt_rec[of "Suc 0"] upt_rec[of 1] numeral_2_eq_2)
  have ex: "execute_rich recording ?t3 4096 8192 (?w1\<lparr>mem := m\<rparr>)
      = Some (0, ?w1\<lparr>mem := m, dev := [?A, ?B]\<rparr>)"
    unfolding execute_rich_def msg by (simp add: f(1) record_message_def)
  from u_spi_test_run_rich_executed[OF tr fi ex]
  have "u_spi_test_run_rich recording ?t2 4096 8192 ?w1
      = Some (0, ?t3, ?w1\<lparr>mem := m, dev := [?A, ?B]\<rparr>)"
    by (simp add: handle_result_def f)
  with run show ?thesis
    by (simp add: nothing_recorded_def)
qed
lemma progress_append [simp]: "progress (xs @ ys) = progress xs @ progress ys"
  by (simp add: progress_def)

text \<open>
  \<^verbatim>\<open>_spi_test_run\<close> of the richer variant adds no progress line. Its fill pass never
  stores through the null pointer, so a simulated run without a custom test function
  returns, unless \<^verbatim>\<open>dump_messages\<close> asks for the data.
\<close>

lemma u_spi_test_run_rich_msgs:
  assumes "u_spi_test_run_rich e t tx rx w = Some (r, t', w')"
  shows "\<exists>es. msgs w' = msgs w @ es \<and> progress es = []"
proof -
  obtain r0 t1 where tr: "translate_xfers_rich (page_size e) t tx rx 0 = (r0, t1)"
    by (cases "translate_xfers_rich (page_size e) t tx rx 0")
  show ?thesis
  proof (cases "r0 = 0")
    case False
    with tr assms have "w' = w" by (simp add: u_spi_test_run_rich_def)
    then show ?thesis by (simp add: progress_def)
  next
    case True
    with tr assms obtain r1 w1 where
      fi: "spi_test_fill_tx_rich (big_endian e) t1 w = Some (r1, w1)"
      by (auto simp: u_spi_test_run_rich_def split: option.splits)
    from spi_test_fill_tx_rich_Some[OF fi] have w1: "msgs w1 = msgs w" by auto
    show ?thesis
    proof (cases "r1 = 0")
      case False
      with tr True fi assms have "w' = w1" by (simp add: u_spi_test_run_rich_def)
      with w1 show ?thesis by (simp add: progress_def)
    next
      case r1: True
      with tr True fi assms obtain r2 where
        ex: "execute_rich e t1 tx rx w1 = Some (r2, w')"
        by (auto simp: u_spi_test_run_rich_def split: option.splits)
      from execute_rich_progress[OF ex] w1 show ?thesis by simp
    qed
  qed
qed


lemma u_spi_test_run_base_msgs:
  assumes "u_spi_test_run_base e t tx rx w = Some (r, t', w')"
  shows "msgs w' = msgs w"
proof (cases "SPI_TEST_MAX_TRANSFERS \<le> transfers_base t")
  case True
  with assms show ?thesis by (simp add: u_spi_test_run_base_def)
next
  case False
  obtain r0 t1 where tr: "translate_xfers_base (page_size e) t tx rx 0 = (r0, t1)"
    by (cases "translate_xfers_base (page_size e) t tx rx 0")
  show ?thesis
  proof (cases "r0 = 0")
    case r0: False
    with False tr assms show ?thesis by (simp add: u_spi_test_run_base_def)
  next
    case True
    with False tr assms obtain r1 w1 where
      fi: "spi_test_fill_tx_base (big_endian e) t1 w = Some (r1, w1)"
      by (auto simp: u_spi_test_run_base_def split: option.splits)
    from spi_test_fill_tx_base_Some[OF fi] have w1: "msgs w1 = msgs w" by auto
    show ?thesis
    proof (cases "r1 = 0")
      case r1: False
      with False tr True fi assms w1 show ?thesis by (simp add: u_spi_test_run_base_def)
    next
      case r1: True
      obtain r2 w2 where ex: "execute_base e t1 tx rx w1 = (r2, w2)"
        by (cases "execute_base e t1 tx rx w1")
      from execute_base_frame[OF ex] w1 have "msgs w2 = msgs w" by simp
      with False tr True fi r1 ex assms show ?thesis by (simp add: u_spi_test_run_base_def)
    qed
  qed
qed

text \<open>The codes of a simulated run without a custom test function.\<close>

lemma u_spi_test_run_base_simulated:
  assumes "simulate_only e \<noteq> 0" and "test t = None"
    and "transfers_base t < SPI_TEST_MAX_TRANSFERS"
    and "u_spi_test_run_base e t tx rx w = Some (r, t', w')"
  shows "r = 0 \<or> r = - EINVAL \<or> r = - EFAULT"
proof -
  obtain r0 t1 where tr: "translate_xfers_base (page_size e) t tx rx 0 = (r0, t1)"
    by (cases "translate_xfers_base (page_size e) t tx rx 0")
  note f = translate_xfers_base_fields[OF tr]
  show ?thesis
  proof (cases "r0 = 0")
    case False
    with tr assms f show ?thesis by (auto simp: u_spi_test_run_base_def)
  next
    case True
    with tr assms obtain r1 w1 where
      fi: "spi_test_fill_tx_base (big_endian e) t1 w = Some (r1, w1)"
      by (auto simp: u_spi_test_run_base_def split: option.splits)
    note c = spi_test_fill_tx_base_Some[OF fi]
    show ?thesis
    proof (cases "r1 = 0")
      case False
      with tr True fi assms c show ?thesis by (auto simp: u_spi_test_run_base_def)
    next
      case r1: True
      from assms(1,2) f have "execute_base e t1 tx rx w1 = (0, w1)"
        by (simp add: execute_base_simulated)
      with tr True fi r1 assms show ?thesis
        by (auto simp: u_spi_test_run_base_def handle_result_def)
    qed
  qed
qed


text \<open>
  An iteration point of \<^verbatim>\<open>spi-test.c\<close> that returns has written its progress line
  and nothing else.
\<close>

lemma run_point_base_msgs:
  assumes "run_point_base e t tx rx p w = Some (r, w')"
  shows "msgs w' = msgs w @ [progress_line (description t) p]"
proof -
  obtain n a b where p: "p = (n, a, b)" by (cases p)
  let ?w1 = "w\<lparr>msgs := msgs w @ [progress_line (description t) p]\<rparr>"
  from assms p obtain t2 where
    "u_spi_test_run_base e (patch_xfers_base t n a b 0) tx rx ?w1 = Some (r, t2, w')"
    by (auto simp: run_point_base_def spi_test_run_iter_base_def progress_line_def Let_def
          split: option.splits)
  from u_spi_test_run_base_msgs[OF this] show ?thesis by simp
qed


lemma run_point_rich_no_offsets:
  assumes "run_point_rich e t tx rx (n, 0, 0) w = Some (r, w')"
  shows "\<exists>es. msgs w' = msgs w @ progress_line (description t) (n, 0, 0) # es
            \<and> progress es = []"
proof -
  define t1 where "t1 = (if transfer_count t = 0
      then t\<lparr>transfer_count := count_transfers (transfers t) 0 0\<rparr> else t)"
  obtain txc rxc where c: "count_buffers t1 0 (stack_tx_count e) (stack_rx_count e) = (txc, rxc)"
    by (cases "count_buffers t1 0 (stack_tx_count e) (stack_rx_count e)")
  define t2 where "t2 = (if \<not> (n \<noteq> 0) then t1 else patch_xfers_rich t1 n 0 0 0)"
  let ?w1 = "w\<lparr>msgs := msgs w @ [progress_line (description t) (n, 0, 0)]\<rparr>"
  have d: "description t1 = description t" by (simp add: t1_def)
  from c d have "run_point_rich e t tx rx (n, 0, 0) w
      = (case u_spi_test_run_rich e t2 tx rx ?w1 of
           None \<Rightarrow> None | Some (ret, t3, w2) \<Rightarrow> Some (ret, w2))"
    by (auto simp: run_point_rich_def spi_test_run_iter_rich_def t1_def[symmetric] Let_def
          t2_def progress_line_def)
  with assms obtain t3 where "u_spi_test_run_rich e t2 tx rx ?w1 = Some (r, t3, w')"
    by (auto split: option.splits)
  from u_spi_test_run_rich_msgs[OF this] show ?thesis by auto
qed


text \<open>Codes of simulated iteration points.\<close>

lemma run_point_base_simulated:
  assumes "simulate_only e \<noteq> 0" and "test t = None"
    and "transfers_base t < SPI_TEST_MAX_TRANSFERS"
    and "run_point_base e t tx rx p w = Some (r, w')"
  shows "r = 0 \<or> r = - EINVAL \<or> r = - EFAULT"
proof -
  obtain n a b where p: "p = (n, a, b)" by (cases p)
  let ?t1 = "patch_xfers_base t n a b 0"
  have f: "test ?t1 = None" "transfers_base ?t1 < SPI_TEST_MAX_TRANSFERS"
    using assms(2,3) by (simp_all add: patch_xfers_base_result)
  from assms(4) p obtain w1 t2 where
    "u_spi_test_run_base e ?t1 tx rx w1 = Some (r, t2, w')"
    by (auto simp: run_point_base_def spi_test_run_iter_base_def Let_def split: option.splits)
  from u_spi_test_run_base_simulated[OF assms(1) f this] show ?thesis .
qed





lemma run_points_progress:
  assumes "\<And>p w r w'. p \<in> set ps \<Longrightarrow> body p w = Some (r, w') \<Longrightarrow>
             progress (msgs w') = progress (msgs w) @ [line p]"
    and "run_points body ps w = Some (0, w')"
  shows "progress (msgs w') = progress (msgs w) @ map line ps"
  using assms
proof (induction ps arbitrary: w)
  case Nil
  then show ?case by simp
next
  case (Cons p ps)
  from Cons.prems(2) obtain w1 where
    b: "body p w = Some (0, w1)" and rest: "run_points body ps w1 = Some (0, w')"
    by (auto split: option.splits prod.splits if_splits)
  from Cons.prems(1)[OF _ b] have "progress (msgs w1) = progress (msgs w) @ [line p]" by simp
  moreover from Cons.IH[OF _ rest] Cons.prems(1)
  have "progress (msgs w') = progress (msgs w1) @ map line ps" by simp
  ultimately show ?case by simp
qed

lemma run_points_stops:
  assumes "run_points body pre w = Some (0, w1)" and "body p w1 = Some (r, w2)" and "r \<noteq> 0"
  shows "run_points body (pre @ p # post) w = Some (r, w2)"
  using assms by (simp add: run_points_append)

subsection \<open>The examples, run\<close>

lemma iterate_values_two:
  assumes "array_get arr 0 = a" "array_get arr 1 = b" "array_get arr 2 = 0" "a \<noteq> 0" "b \<noteq> 0"
  shows "iterate_values arr d = [d, a, b]"
proof -
  have "[0..<SPI_TEST_MAX_ITERATE] = 0 # Suc 0 # Suc (Suc 0) # [3..<SPI_TEST_MAX_ITERATE]"
    by (simp add: SPI_TEST_MAX_ITERATE_def upt_conv_Cons)
  moreover have "array_get arr (Suc 0) = b" "array_get arr (Suc (Suc 0)) = 0"
    using assms by (simp_all add: numeral_2_eq_2)
  ultimately show ?thesis
    using assms by (simp add: iterate_values_def)
qed

lemma iterate_values_none:
  assumes "array_get arr 0 = 0"
  shows "iterate_values arr d = [d]"
  using assms by (simp add: iterate_values_def SPI_TEST_MAX_ITERATE_def upt_rec[of 0])

lemma simulation_fields:
  "page_size simulation = 4096" "big_endian simulation = False" "simulate_only simulation \<noteq> 0"
  "dump_messages simulation \<noteq> 2"
  by (simp_all add: simulation_def)

text \<open>
  In the simulation, an iteration point without offsets of a test case of the richer
  variant that has one transfer, receive only, of one byte at \<open>RX 0\<close> (the count
  calculated): it writes its progress line and returns 0 when the length fits into
  the region, \<open>-EINVAL\<close> when it does not.
\<close>

lemma run_point_rich_rx_byte:
  assumes "transfer_count t = 0"
    and "transfers t = (\<lambda>i. no_transfer)(0 := \<lparr>tx_buf = 0, rx_buf = RX 0, len = 1\<rparr>)"
    and "test t = None" and "expected_return t = 0"
  shows "run_point_rich simulation t 4096 8192 (n, 0, 0) w =
           Some (if n \<le> SPI_TEST_MAX_SIZE_PLUS 4096 then 0 else - EINVAL,
                 w\<lparr>msgs := msgs w @ [progress_line (description t) (n, 0, 0)]\<rparr>)"
proof -
  let ?w1 = "w\<lparr>msgs := msgs w @ [progress_line (description t) (n, 0, 0)]\<rparr>"
  have cnt: "count_transfers (transfers t) 0 0 = Suc 0"
    by (simp add: assms(2) count_transfers.simps no_transfer_def SPI_TEST_MAX_TRANSFERS_def)
  define t1 where "t1 = t\<lparr>transfer_count := Suc 0\<rparr>"
  define t2 where "t2 = (if n = 0 then t1 else patch_xfers_rich t1 n 0 0 0)"
  define m where "m = (if n = 0 then 1 else n)"
  have t2: "t2 = t1\<lparr>transfers := (\<lambda>i. no_transfer)(0 := \<lparr>tx_buf = 0, rx_buf = RX 0, len = m\<rparr>)\<rparr>"
    by (auto simp: t2_def t1_def m_def assms(2) patch_xfers_rich_result patch_xfer_rich_def
          fun_eq_iff no_transfer_def)
  have f: "test t2 = None" "expected_return t2 = 0" "transfer_count t2 = 1"
    by (simp_all add: t2 t1_def assms)
  have d: "description t1 = description t" by (simp add: t1_def)
  obtain c where c: "count_buffers t1 0 (stack_tx_count simulation) (stack_rx_count simulation) = c"
    by simp
  have iter: "run_point_rich simulation t 4096 8192 (n, 0, 0) w =
      (case u_spi_test_run_rich simulation t2 4096 8192 ?w1 of
         None \<Rightarrow> None | Some (ret, t3, w2) \<Rightarrow> Some (ret, w2))"
    by (cases c)
       (simp add: run_point_rich_def spi_test_run_iter_rich_def assms(1) cnt t1_def[symmetric] c
          t2_def progress_line_def d)
  show ?thesis
  proof (cases "n \<le> SPI_TEST_MAX_SIZE_PLUS 4096")
    case True
    then have fits: "m \<le> SPI_TEST_MAX_SIZE_PLUS 4096"
      by (simp add: m_def SPI_TEST_MAX_SIZE_PLUS_def SPI_TEST_MAX_SIZE_def)
    let ?t3 = "t2\<lparr>transfers := (\<lambda>i. no_transfer)(0 := \<lparr>tx_buf = 0, rx_buf = 8192, len = m\<rparr>)\<rparr>"
    have tr: "translate_xfers_rich (page_size simulation) t2 4096 8192 0 = (0, ?t3)"
      using fits
      by (simp add: simulation_fields translate_xfers_rich.simps[of _ _ _ _ 0]
            translate_xfers_rich.simps[of _ _ _ _ "Suc 0"] t2 t1_def spi_test_translate_rich_def
            placeholder_defs)
    have fi: "spi_test_fill_tx_rich (big_endian simulation) ?t3 ?w1 = Some (0, ?w1)"
      using fill_rich_skips_absent_tx[of ?t3 "big_endian simulation" ?w1]
      by (simp add: t2 t1_def no_transfer_def)
    have ex: "execute_rich simulation ?t3 4096 8192 ?w1 = Some (0, ?w1)"
      by (rule execute_rich_simulated) (simp_all add: simulation_fields f)
    from u_spi_test_run_rich_executed[OF tr fi ex] True iter show ?thesis
      by (simp add: f handle_result_def)
  next
    case False
    then have "\<not> m \<le> SPI_TEST_MAX_SIZE_PLUS 4096" "m \<noteq> 0"
      by (simp_all add: m_def)
    then have "translate_xfers_rich (page_size simulation) t2 4096 8192 0 = (- EINVAL, t2)"
      by (simp add: simulation_fields translate_xfers_rich.simps[of _ _ _ _ 0] t2
            spi_test_translate_rich_def placeholder_defs t1_def EINVAL_def Let_def)
    then have "u_spi_test_run_rich simulation t2 4096 8192 ?w1 = Some (- EINVAL, t2, ?w1)"
      by (simp add: u_spi_test_run_rich_def EINVAL_def)
    with False iter show ?thesis by simp
  qed
qed

text \<open>
  The inner loop of \<^verbatim>\<open>spi-test.c\<close> with \<^verbatim>\<open>FILL_MEMSET_8\<close> on a buffer that is there:
  it returns 0 and stores through no null pointer.
\<close>

lemma fill_bytes_base_memset:
  assumes "fopt = FILL_MEMSET_8" and "p \<noteq> 0" and "0 \<notin> fst ` set stores"
  shows "\<exists>c S. fill_bytes_base be fopt fillv i n p j count stores = (0, c, S)
           \<and> 0 \<notin> fst ` set S"
  using assms
proof (induction be fopt fillv i n p j count stores rule: fill_bytes_base.induct)
  case (1 be fopt fillv i n p j count stores)
  show ?case
  proof (cases "j < n")
    case False
    with "1.prems" show ?thesis by (simp add: fill_bytes_base.simps)
  next
    case True
    have b: "fill_byte_base be fopt fillv i j count = Some (of_nat (unat fillv), count)"
      using "1.prems"(1) by (simp add: fill_byte_base_def)
    have "\<exists>c S. fill_bytes_base be fopt fillv i n (p + 1) (j + 1) (count + 1)
              (stores @ [(p, of_nat (unat fillv))]) = (0, c, S) \<and> 0 \<notin> fst ` set S"
      using "1.prems" by (intro "1.IH"[OF True b refl]) auto
    with True b show ?thesis
      by (subst fill_bytes_base.simps) simp
  qed
qed

lemma fill_tx_base_one_memset:
  assumes "transfers_base t = Suc 0" and "tx_buf (xfers t 0) \<noteq> 0"
    and "fill_option t = FILL_MEMSET_8"
  shows "\<exists>m. spi_test_fill_tx_base be t w = Some (0, w\<lparr>mem := m\<rparr>)"
proof -
  from fill_bytes_base_memset[OF assms(3) assms(2), of "[]" be "fill t" 0 "len (xfers t 0)" 0 0]
  obtain c S where
    S: "fill_bytes_base be (fill_option t) (fill t) 0 (len (xfers t 0)) (tx_buf (xfers t 0)) 0 0 []
          = (0, c, S)" "0 \<notin> fst ` set S"
    by auto
  have "fill_stores_base be t = (0, S)"
    by (simp add: fill_stores_base_def fill_xfers_base.simps[of _ _ 0]
          fill_xfers_base.simps[of _ _ "Suc 0"] assms(1) S)
  moreover from store_bytes_Some[OF S(2), of "mem w"] obtain m where
    "store_bytes (mem w) S = Some m" by blast
  ultimately have "spi_test_fill_tx_base be t w = Some (0, w\<lparr>mem := m\<rparr>)"
    by (simp add: spi_test_fill_tx_base_def)
  then show ?thesis by blast
qed

text \<open>
  In the simulation, an iteration point without offsets of a test case of
  \<^verbatim>\<open>spi-test.c\<close> that has one transfer, transmit only, of one byte at \<open>TX 0\<close>, filled
  with \<^verbatim>\<open>FILL_MEMSET_8\<close>: it writes its progress line and returns 0 when the length is
  below the size of the region, \<open>-EINVAL\<close> when it is not.
\<close>

lemma run_point_base_tx_byte:
  assumes "transfers_base t = Suc 0"
    and "xfers t = (\<lambda>i. no_transfer)(0 := \<lparr>tx_buf = TX 0, rx_buf = 0, len = 1\<rparr>)"
    and "test t = None" and "expected_return t = 0" and "fill_option t = FILL_MEMSET_8"
  shows "\<exists>m. run_point_base simulation t 4096 8192 (n, 0, 0) w =
           Some (if n < SPI_TEST_MAX_SIZE 4096 then 0 else - EINVAL,
                 w\<lparr>mem := m, msgs := msgs w @ [progress_line (description t) (n, 0, 0)]\<rparr>)"
proof -
  let ?w1 = "w\<lparr>msgs := msgs w @ [progress_line (description t) (n, 0, 0)]\<rparr>"
  define k where "k = (if n = 0 then 1 else n)"
  define t1 where "t1 = patch_xfers_base t n 0 0 0"
  have t1: "t1 = t\<lparr>xfers := (\<lambda>i. no_transfer)(0 := \<lparr>tx_buf = TX 0, rx_buf = 0, len = k\<rparr>)\<rparr>"
    by (auto simp: t1_def k_def assms(1,2) patch_xfers_base_result patch_xfer_base_def
          fun_eq_iff no_transfer_def)
  have f: "test t1 = None" "expected_return t1 = 0" "transfers_base t1 = Suc 0"
    "fill_option t1 = FILL_MEMSET_8"
    by (simp_all add: t1 assms)
  have iter: "run_point_base simulation t 4096 8192 (n, 0, 0) w =
      (case u_spi_test_run_base simulation t1 4096 8192 ?w1 of
         None \<Rightarrow> None | Some (ret, t3, w2) \<Rightarrow> Some (ret, w2))"
    by (simp add: run_point_base_def spi_test_run_iter_base_def t1_def progress_line_def)
  show ?thesis
  proof (cases "n < SPI_TEST_MAX_SIZE 4096")
    case True
    then have fits: "k < SPI_TEST_MAX_SIZE 4096"
      by (simp add: k_def SPI_TEST_MAX_SIZE_def)
    let ?t3 = "t1\<lparr>xfers := (\<lambda>i. no_transfer)(0 := \<lparr>tx_buf = 4096, rx_buf = 0, len = k\<rparr>)\<rparr>"
    have tr: "translate_xfers_base (page_size simulation) t1 4096 8192 0 = (0, ?t3)"
      using fits
      by (simp add: simulation_fields translate_xfers_base.simps[of _ _ _ _ 0]
            translate_xfers_base.simps[of _ _ _ _ "Suc 0"] t1 assms(1) spi_test_translate_base_def
            placeholder_defs)
    from fill_tx_base_one_memset[of ?t3 "big_endian simulation" ?w1] obtain m where
      fi: "spi_test_fill_tx_base (big_endian simulation) ?t3 ?w1 = Some (0, ?w1\<lparr>mem := m\<rparr>)"
      by (auto simp: f)
    have ex: "execute_base simulation ?t3 4096 8192 (?w1\<lparr>mem := m\<rparr>) = (0, ?w1\<lparr>mem := m\<rparr>)"
      by (rule execute_base_simulated) (simp_all add: simulation_fields f)
    have lt: "transfers_base t1 < SPI_TEST_MAX_TRANSFERS"
      by (simp add: f SPI_TEST_MAX_TRANSFERS_def)
    from u_spi_test_run_base_executed[OF lt tr fi ex] True iter
    have "run_point_base simulation t 4096 8192 (n, 0, 0) w =
           Some (if n < SPI_TEST_MAX_SIZE 4096 then 0 else - EINVAL,
                 w\<lparr>mem := m, msgs := msgs w @ [progress_line (description t) (n, 0, 0)]\<rparr>)"
      by (simp add: f handle_result_def)
    then show ?thesis by blast
  next
    case False
    then have "\<not> k < SPI_TEST_MAX_SIZE 4096" "k \<noteq> 0"
      by (simp_all add: k_def)
    then have "translate_xfers_base (page_size simulation) t1 4096 8192 0 = (- EINVAL, t1)"
      by (simp add: simulation_fields translate_xfers_base.simps[of _ _ _ _ 0] t1 assms(1)
            spi_test_translate_base_def placeholder_defs EINVAL_def Let_def)
    then have "u_spi_test_run_base simulation t1 4096 8192 ?w1 = Some (- EINVAL, t1, ?w1)"
      by (simp add: u_spi_test_run_base_def EINVAL_def f SPI_TEST_MAX_TRANSFERS_def)
    with False iter have "run_point_base simulation t 4096 8192 (n, 0, 0) w =
           Some (if n < SPI_TEST_MAX_SIZE 4096 then 0 else - EINVAL,
                 w\<lparr>mem := mem w, msgs := msgs w @ [progress_line (description t) (n, 0, 0)]\<rparr>)"
      by simp
    then show ?thesis by blast
  qed
qed

text \<open>
  The test cases \<open>two_lengths\<close> and \<open>long_first\<close>: their iteration points and what
  the iteration driver does with them in the simulation.
\<close>

lemma two_lengths_rich_points:
  "iteration_points_rich simulation two_lengths_rich = [(0, 0, 0), (16, 0, 0), (32, 0, 0)]"
  using iterate_values_two[of "iterate_len two_lengths_rich" 16 32 0]
  by (simp add: iteration_points_rich_def alignment_bound_def two_lengths_rich_def
        end_of_tests_rich_def array_get_def)

lemma long_first_rich_points:
  "iteration_points_rich simulation long_first_rich = [(0, 0, 0), (1048576, 0, 0), (16, 0, 0)]"
  using iterate_values_two[of "iterate_len long_first_rich" 1048576 16 0]
  by (simp add: iteration_points_rich_def alignment_bound_def long_first_rich_def
        end_of_tests_rich_def array_get_def)

lemma two_lengths_base_points:
  "iteration_points_base two_lengths_base = [(0, 0, 0), (16, 0, 0), (32, 0, 0)]"
  using iterate_values_two[of "iterate_len two_lengths_base" 16 32 0]
    iterate_values_none[of "iterate_tx_off two_lengths_base" 0]
    iterate_values_none[of "iterate_rx_off two_lengths_base" 0]
  by (simp add: iteration_points_base_def two_lengths_base_def end_of_tests_base_def array_get_def)

lemma long_first_base_points:
  "iteration_points_base long_first_base = [(0, 0, 0), (1048576, 0, 0), (16, 0, 0)]"
  using iterate_values_two[of "iterate_len long_first_base" 1048576 16 0]
    iterate_values_none[of "iterate_tx_off long_first_base" 0]
    iterate_values_none[of "iterate_rx_off long_first_base" 0]
  by (simp add: iteration_points_base_def long_first_base_def end_of_tests_base_def array_get_def)

lemma two_lengths_rich_point:
  "run_point_rich simulation two_lengths_rich 4096 8192 (n, 0, 0) w =
     Some (if n \<le> SPI_TEST_MAX_SIZE_PLUS 4096 then 0 else - EINVAL,
           w\<lparr>msgs := msgs w @ [progress_line ''two lengths'' (n, 0, 0)]\<rparr>)"
  using run_point_rich_rx_byte[of two_lengths_rich n w]
  by (simp add: two_lengths_rich_def end_of_tests_rich_def)

lemma long_first_rich_point:
  "run_point_rich simulation long_first_rich 4096 8192 (n, 0, 0) w =
     Some (if n \<le> SPI_TEST_MAX_SIZE_PLUS 4096 then 0 else - EINVAL,
           w\<lparr>msgs := msgs w @ [progress_line ''long first'' (n, 0, 0)]\<rparr>)"
  using run_point_rich_rx_byte[of long_first_rich n w]
  by (simp add: long_first_rich_def end_of_tests_rich_def)

lemma two_lengths_rich_run:
  "spi_test_run_rich simulation 4096 8192 two_lengths_rich w =
     Some (0, w\<lparr>msgs := msgs w @
       [Info_running_test ''two lengths'', Info_iteration_values 16 0 0,
        Info_iteration_values 32 0 0]\<rparr>)"
proof -
  have "transfer_count two_lengths_rich = 0"
    by (simp add: two_lengths_rich_def end_of_tests_rich_def)
  then show ?thesis
    by (simp add: spi_test_run_rich_points two_lengths_rich_points two_lengths_rich_point
          SPI_TEST_MAX_TRANSFERS_def placeholder_defs progress_line_def)
qed

lemma long_first_rich_run:
  "spi_test_run_rich simulation 4096 8192 long_first_rich w =
     Some (- EINVAL, w\<lparr>msgs := msgs w @
       [Info_running_test ''long first'', Info_iteration_values 1048576 0 0]\<rparr>)"
proof -
  have "transfer_count long_first_rich = 0"
    by (simp add: long_first_rich_def end_of_tests_rich_def)
  then show ?thesis
    by (simp add: spi_test_run_rich_points long_first_rich_points long_first_rich_point
          SPI_TEST_MAX_TRANSFERS_def placeholder_defs progress_line_def EINVAL_def)
qed

lemma two_lengths_base_point:
  "\<exists>m. run_point_base simulation two_lengths_base 4096 8192 (n, 0, 0) w =
     Some (if n < SPI_TEST_MAX_SIZE 4096 then 0 else - EINVAL,
           w\<lparr>mem := m, msgs := msgs w @ [progress_line ''two lengths'' (n, 0, 0)]\<rparr>)"
  using run_point_base_tx_byte[of two_lengths_base n w]
  by (simp add: two_lengths_base_def end_of_tests_base_def fill_option_defs)

lemma long_first_base_point:
  "\<exists>m. run_point_base simulation long_first_base 4096 8192 (n, 0, 0) w =
     Some (if n < SPI_TEST_MAX_SIZE 4096 then 0 else - EINVAL,
           w\<lparr>mem := m, msgs := msgs w @ [progress_line ''long first'' (n, 0, 0)]\<rparr>)"
  using run_point_base_tx_byte[of long_first_base n w]
  by (simp add: long_first_base_def end_of_tests_base_def fill_option_defs)

lemma two_lengths_base_run:
  "\<exists>m. spi_test_run_base simulation 4096 8192 two_lengths_base w =
     Some (0, w\<lparr>mem := m, msgs := msgs w @
       [Info_running_test ''two lengths'', Info_iteration_values 16 0 0,
        Info_iteration_values 32 0 0]\<rparr>)"
proof -
  let ?run = "run_point_base simulation two_lengths_base 4096 8192"
  from two_lengths_base_point[of 0 w] obtain m1 where
    p1: "?run (0, 0, 0) w = Some (0, w\<lparr>mem := m1, msgs := msgs w @ [Info_running_test ''two lengths'']\<rparr>)"
    by (auto simp: placeholder_defs progress_line_def)
  let ?w1 = "w\<lparr>mem := m1, msgs := msgs w @ [Info_running_test ''two lengths'']\<rparr>"
  from two_lengths_base_point[of 16 ?w1] obtain m2 where
    p2: "?run (16, 0, 0) ?w1 = Some (0, w\<lparr>mem := m2, msgs := msgs w @
           [Info_running_test ''two lengths'', Info_iteration_values 16 0 0]\<rparr>)"
    by (auto simp: placeholder_defs progress_line_def)
  let ?w2 = "w\<lparr>mem := m2, msgs := msgs w @
           [Info_running_test ''two lengths'', Info_iteration_values 16 0 0]\<rparr>"
  from two_lengths_base_point[of 32 ?w2] obtain m3 where
    p3: "?run (32, 0, 0) ?w2 = Some (0, w\<lparr>mem := m3, msgs := msgs w @
           [Info_running_test ''two lengths'', Info_iteration_values 16 0 0,
            Info_iteration_values 32 0 0]\<rparr>)"
    by (auto simp: placeholder_defs progress_line_def)
  have "spi_test_run_base simulation 4096 8192 two_lengths_base w =
     Some (0, w\<lparr>mem := m3, msgs := msgs w @
       [Info_running_test ''two lengths'', Info_iteration_values 16 0 0,
        Info_iteration_values 32 0 0]\<rparr>)"
    by (simp add: spi_test_run_base_points two_lengths_base_points p1 p2 p3)
  then show ?thesis by blast
qed

lemma long_first_base_run:
  "\<exists>m. spi_test_run_base simulation 4096 8192 long_first_base w =
     Some (- EINVAL, w\<lparr>mem := m, msgs := msgs w @
       [Info_running_test ''long first'', Info_iteration_values 1048576 0 0]\<rparr>)"
proof -
  let ?run = "run_point_base simulation long_first_base 4096 8192"
  from long_first_base_point[of 0 w] obtain m1 where
    p1: "?run (0, 0, 0) w = Some (0, w\<lparr>mem := m1, msgs := msgs w @ [Info_running_test ''long first'']\<rparr>)"
    by (auto simp: placeholder_defs progress_line_def)
  let ?w1 = "w\<lparr>mem := m1, msgs := msgs w @ [Info_running_test ''long first'']\<rparr>"
  from long_first_base_point[of 1048576 ?w1] obtain m2 where
    p2: "?run (1048576, 0, 0) ?w1 = Some (- EINVAL, w\<lparr>mem := m2, msgs := msgs w @
           [Info_running_test ''long first'', Info_iteration_values 1048576 0 0]\<rparr>)"
    by (auto simp: placeholder_defs progress_line_def)
  have "spi_test_run_base simulation 4096 8192 long_first_base w =
     Some (- EINVAL, w\<lparr>mem := m2, msgs := msgs w @
       [Info_running_test ''long first'', Info_iteration_values 1048576 0 0]\<rparr>)"
    by (simp add: spi_test_run_base_points long_first_base_points p1 p2 EINVAL_def)
  then show ?thesis by blast
qed

subsection \<open>The iteration driver and the catalog driver\<close>

lemma progress_progress_line:
  "progress (progress_line d p # es) = progress_line d p # progress es"
  by (simp add: progress_def progress_line_def split: prod.splits)





text \<open>
  C3, amended. A test case whose length axis holds the values 16 and 32 and whose
  other two axes are not configured has three iteration points: the one with the
  length unset, then one for each of the two lengths. The iteration driver runs them
  in this order, and a run that succeeds has written the progress lines of all three.
  This holds in both variants (in the richer one below the limit of transfers).
\<close>

theorem two_lengths_three_points:
  "(array_get (iterate_len t) 0 = 16 \<and> array_get (iterate_len t) 1 = 32
      \<and> array_get (iterate_len t) 2 = 0 \<and> iterate_tx_align t = 0 \<and> iterate_rx_align t = 0 \<longrightarrow>
      iteration_points_rich e t = [(0, 0, 0), (16, 0, 0), (32, 0, 0)]
      \<and> (transfer_count t < SPI_TEST_MAX_TRANSFERS
           \<and> spi_test_run_rich e tx rx t w = Some (0, w') \<longrightarrow>
         progress (msgs w') = progress (msgs w) @
           [Info_running_test (description t), Info_iteration_values 16 0 0,
            Info_iteration_values 32 0 0]))
   \<and> (array_get (iterate_len b) 0 = 16 \<and> array_get (iterate_len b) 1 = 32
      \<and> array_get (iterate_len b) 2 = 0 \<and> array_get (iterate_tx_off b) 0 = 0
      \<and> array_get (iterate_rx_off b) 0 = 0 \<longrightarrow>
      iteration_points_base b = [(0, 0, 0), (16, 0, 0), (32, 0, 0)]
      \<and> (spi_test_run_base e tx rx b w = Some (0, w') \<longrightarrow>
         progress (msgs w') = progress (msgs w) @
           [Info_running_test (description b), Info_iteration_values 16 0 0,
            Info_iteration_values 32 0 0]))"
proof (intro conjI impI)
  assume a: "array_get (iterate_len t) 0 = 16 \<and> array_get (iterate_len t) 1 = 32
      \<and> array_get (iterate_len t) 2 = 0 \<and> iterate_tx_align t = 0 \<and> iterate_rx_align t = 0"
  then show pts: "iteration_points_rich e t = [(0, 0, 0), (16, 0, 0), (32, 0, 0)]"
    using iterate_values_two[of "iterate_len t" 16 32 0]
    by (simp add: iteration_points_rich_def alignment_bound_def)
  assume r: "transfer_count t < SPI_TEST_MAX_TRANSFERS
      \<and> spi_test_run_rich e tx rx t w = Some (0, w')"
  then have "\<not> SPI_TEST_MAX_TRANSFERS \<le> transfer_count t"
    and "spi_test_run_rich e tx rx t w = Some (0, w')" by simp_all
  then have "run_points (run_point_rich e t tx rx) (iteration_points_rich e t) w = Some (0, w')"
    by (simp only: spi_test_run_rich_points if_False)
  then have run: "run_points (run_point_rich e t tx rx) [(0, 0, 0), (16, 0, 0), (32, 0, 0)] w
      = Some (0, w')"
    unfolding pts .
  have line: "progress (msgs w2) = progress (msgs w1) @ [progress_line (description t) p]"
    if "p \<in> set [(0, 0, 0), (16, 0, 0), (32::nat, 0::nat, 0::nat)]"
      and "run_point_rich e t tx rx p w1 = Some (r, w2)" for p w1 r w2
  proof -
    from that(1) obtain n where p: "p = (n, 0, 0)" by auto
    from run_point_rich_no_offsets[of e t tx rx n w1 r w2] that(2) p show ?thesis
      by (auto simp: progress_progress_line)
  qed
  from run_points_progress[of _ "run_point_rich e t tx rx" "progress_line (description t)",
      OF line run]
  show "progress (msgs w') = progress (msgs w) @
           [Info_running_test (description t), Info_iteration_values 16 0 0,
            Info_iteration_values 32 0 0]"
    by (simp add: progress_line_def)
next
  assume a: "array_get (iterate_len b) 0 = 16 \<and> array_get (iterate_len b) 1 = 32
      \<and> array_get (iterate_len b) 2 = 0 \<and> array_get (iterate_tx_off b) 0 = 0
      \<and> array_get (iterate_rx_off b) 0 = 0"
  then show pts: "iteration_points_base b = [(0, 0, 0), (16, 0, 0), (32, 0, 0)]"
    using iterate_values_two[of "iterate_len b" 16 32 0]
      iterate_values_none[of "iterate_tx_off b" 0] iterate_values_none[of "iterate_rx_off b" 0]
    by (simp add: iteration_points_base_def)
  assume r: "spi_test_run_base e tx rx b w = Some (0, w')"
  then have "run_points (run_point_base e b tx rx) (iteration_points_base b) w = Some (0, w')"
    using spi_test_run_base_points[of e tx rx b w] by simp
  then have run: "run_points (run_point_base e b tx rx) [(0, 0, 0), (16, 0, 0), (32, 0, 0)] w
      = Some (0, w')"
    unfolding pts .
  have line: "progress (msgs w2) = progress (msgs w1) @ [progress_line (description b) p]"
    if "run_point_base e b tx rx p w1 = Some (r, w2)" for p w1 r w2
    using run_point_base_msgs[OF that] by (simp add: progress_def progress_line_def split: prod.splits)
  from run_points_progress[of _ "run_point_base e b tx rx" "progress_line (description b)",
      OF line run]
  show "progress (msgs w') = progress (msgs w) @
           [Info_running_test (description b), Info_iteration_values 16 0 0,
            Info_iteration_values 32 0 0]"
    by (simp add: progress_line_def)
qed

text \<open>
  The test case \<open>two_lengths\<close> in the simulation, from the blank world: its three
  iteration points and the three progress lines of its run, in both variants.
\<close>

theorem two_lengths_three_points_witness:
  "iteration_points_rich simulation two_lengths_rich = [(0, 0, 0), (16, 0, 0), (32, 0, 0)]
   \<and> spi_test_run_rich simulation 4096 8192 two_lengths_rich blank
       = Some (0, blank\<lparr>msgs := [Info_running_test ''two lengths'',
            Info_iteration_values 16 0 0, Info_iteration_values 32 0 0]\<rparr>)
   \<and> progress (msgs (blank\<lparr>msgs := [Info_running_test ''two lengths'',
            Info_iteration_values 16 0 0, Info_iteration_values 32 0 0]\<rparr>))
       = [Info_running_test ''two lengths'', Info_iteration_values 16 0 0,
          Info_iteration_values 32 0 0]
   \<and> iteration_points_base two_lengths_base = [(0, 0, 0), (16, 0, 0), (32, 0, 0)]
   \<and> (\<exists>w'. spi_test_run_base simulation 4096 8192 two_lengths_base blank = Some (0, w')
        \<and> progress (msgs w')
            = [Info_running_test ''two lengths'', Info_iteration_values 16 0 0,
               Info_iteration_values 32 0 0])"
proof -
  let ?W = "blank\<lparr>msgs := [Info_running_test ''two lengths'',
            Info_iteration_values 16 0 0, Info_iteration_values 32 0 0]\<rparr>"
  have empty: "msgs blank = []" "progress [] = []"
    by (simp_all add: blank_def progress_def)
  have rich: "array_get (iterate_len two_lengths_rich) 0 = 16
      \<and> array_get (iterate_len two_lengths_rich) 1 = 32
      \<and> array_get (iterate_len two_lengths_rich) 2 = 0
      \<and> iterate_tx_align two_lengths_rich = 0 \<and> iterate_rx_align two_lengths_rich = 0"
    by (simp add: two_lengths_rich_def end_of_tests_rich_def array_get_def)
  have run: "spi_test_run_rich simulation 4096 8192 two_lengths_rich blank = Some (0, ?W)"
    using two_lengths_rich_run[of blank] by (simp add: empty)
  have few: "transfer_count two_lengths_rich < SPI_TEST_MAX_TRANSFERS"
    by (simp add: two_lengths_rich_def end_of_tests_rich_def SPI_TEST_MAX_TRANSFERS_def)
  have d: "description two_lengths_rich = ''two lengths''"
    "description two_lengths_base = ''two lengths''"
    by (simp_all add: two_lengths_rich_def two_lengths_base_def)
  from two_lengths_three_points[where t = two_lengths_rich and e = simulation and tx = 4096
      and rx = 8192 and w = blank and w' = ?W] rich run few
  have r: "iteration_points_rich simulation two_lengths_rich = [(0, 0, 0), (16, 0, 0), (32, 0, 0)]"
    "progress (msgs ?W) = progress (msgs blank) @
       [Info_running_test (description two_lengths_rich), Info_iteration_values 16 0 0,
        Info_iteration_values 32 0 0]"
    by blast+
  have base: "array_get (iterate_len two_lengths_base) 0 = 16
      \<and> array_get (iterate_len two_lengths_base) 1 = 32
      \<and> array_get (iterate_len two_lengths_base) 2 = 0
      \<and> array_get (iterate_tx_off two_lengths_base) 0 = 0
      \<and> array_get (iterate_rx_off two_lengths_base) 0 = 0"
    by (simp add: two_lengths_base_def end_of_tests_base_def array_get_def)
  from two_lengths_base_run[of blank] obtain w' where
    run': "spi_test_run_base simulation 4096 8192 two_lengths_base blank = Some (0, w')"
    by blast
  from two_lengths_three_points[where b = two_lengths_base and e = simulation and tx = 4096
      and rx = 8192 and w = blank and w' = w'] base run'
  have b: "iteration_points_base two_lengths_base = [(0, 0, 0), (16, 0, 0), (32, 0, 0)]"
    "progress (msgs w') = progress (msgs blank) @
       [Info_running_test (description two_lengths_base), Info_iteration_values 16 0 0,
        Info_iteration_values 32 0 0]"
    by blast+
  from r(2) have r2: "progress (msgs ?W)
       = [Info_running_test ''two lengths'', Info_iteration_values 16 0 0,
          Info_iteration_values 32 0 0]"
    unfolding d empty by simp
  from b(2) have b2: "progress (msgs w')
       = [Info_running_test ''two lengths'', Info_iteration_values 16 0 0,
          Info_iteration_values 32 0 0]"
    unfolding d empty by simp
  from r(1) run r2 b(1) run' b2 show ?thesis by blast
qed

text \<open>
  The test case \<open>two_lengths\<close>, whose length axis holds 16 and 32 and whose other axes
  are not configured, has three iteration points and not two, and its run in the
  simulation writes three progress lines: the first pass is the one with the length
  unset, where the transfer has its own length.
\<close>

theorem two_lengths_counterexample:
  "iterate_len two_lengths_rich = [16, 32]
   \<and> iterate_tx_align two_lengths_rich = 0 \<and> iterate_rx_align two_lengths_rich = 0
   \<and> length (iteration_points_rich simulation two_lengths_rich) \<noteq> 2
   \<and> spi_test_run_rich simulation 4096 8192 two_lengths_rich blank
       = Some (0, blank\<lparr>msgs := [Info_running_test ''two lengths'',
            Info_iteration_values 16 0 0, Info_iteration_values 32 0 0]\<rparr>)
   \<and> iterate_len two_lengths_base = [16, 32]
   \<and> iterate_tx_off two_lengths_base = [] \<and> iterate_rx_off two_lengths_base = []
   \<and> length (iteration_points_base two_lengths_base) \<noteq> 2"
proof -
  have "spi_test_run_rich simulation 4096 8192 two_lengths_rich blank
       = Some (0, blank\<lparr>msgs := [Info_running_test ''two lengths'',
            Info_iteration_values 16 0 0, Info_iteration_values 32 0 0]\<rparr>)"
    using two_lengths_rich_run[of blank] by (simp add: blank_def)
  moreover have "iterate_len two_lengths_rich = [16, 32]"
    "iterate_tx_align two_lengths_rich = 0" "iterate_rx_align two_lengths_rich = 0"
    "iterate_len two_lengths_base = [16, 32]"
    "iterate_tx_off two_lengths_base = []" "iterate_rx_off two_lengths_base = []"
    by (simp_all add: two_lengths_rich_def two_lengths_base_def end_of_tests_rich_def
          end_of_tests_base_def)
  moreover have "length (iteration_points_rich simulation two_lengths_rich) \<noteq> 2"
    "length (iteration_points_base two_lengths_base) \<noteq> 2"
    by (simp_all add: two_lengths_rich_points two_lengths_base_points)
  ultimately show ?thesis by blast
qed

text \<open>
  C9. When the iteration points before \<open>p\<close> have returned 0 and \<open>p\<close> returns the
  error \<open>r\<close>, the iteration driver returns \<open>r\<close> in the world that \<open>p\<close> left: no point
  after \<open>p\<close> has run, wherever \<open>p\<close> stands in the enumeration. When the tests before \<open>t\<close>
  in the catalog have passed and \<open>t\<close> returns the error \<open>r\<close>, \<^verbatim>\<open>spi_test_probe\<close> returns
  \<open>r\<close> in the world that \<open>t\<close> left: no later test has run. This holds in both variants.
\<close>

theorem first_error_aborts:
  "(transfer_count t < SPI_TEST_MAX_TRANSFERS
      \<and> iteration_points_rich e t = pre @ p # post
      \<and> run_points (run_point_rich e t tx rx) pre w = Some (0, w1)
      \<and> run_point_rich e t tx rx p w1 = Some (r, w2) \<and> r \<noteq> 0 \<longrightarrow>
    spi_test_run_rich e tx rx t w = Some (r, w2))
   \<and> (rx \<noteq> 0 \<and> tx \<noteq> 0 \<and> (\<forall>x \<in> set ts. description x \<noteq> []) \<and> description t \<noteq> []
      \<and> run_tests_rich e tx rx ts w = Some (0, w1)
      \<and> spi_test_run_rich e tx rx t w1 = Some (r, w2) \<and> r \<noteq> 0 \<longrightarrow>
    spi_test_probe_rich e (ts @ t # us) rx tx w = Some (r, w2))
   \<and> (iteration_points_base b = pre' @ p # post'
      \<and> run_points (run_point_base e b tx rx) pre' w = Some (0, w1)
      \<and> run_point_base e b tx rx p w1 = Some (r, w2) \<and> r \<noteq> 0 \<longrightarrow>
    spi_test_run_base e tx rx b w = Some (r, w2))
   \<and> (rx \<noteq> 0 \<and> tx \<noteq> 0 \<and> (\<forall>x \<in> set bs. description x \<noteq> []) \<and> description b \<noteq> []
      \<and> run_tests_base e tx rx bs w = Some (0, w1)
      \<and> spi_test_run_base e tx rx b w1 = Some (r, w2) \<and> r \<noteq> 0 \<longrightarrow>
    spi_test_probe_base e (bs @ b # cs) rx tx w = Some (r, w2))"
proof (intro conjI impI)
  assume "transfer_count t < SPI_TEST_MAX_TRANSFERS
      \<and> iteration_points_rich e t = pre @ p # post
      \<and> run_points (run_point_rich e t tx rx) pre w = Some (0, w1)
      \<and> run_point_rich e t tx rx p w1 = Some (r, w2) \<and> r \<noteq> 0"
  then show "spi_test_run_rich e tx rx t w = Some (r, w2)"
    by (simp add: spi_test_run_rich_points run_points_stops)
next
  assume a: "rx \<noteq> 0 \<and> tx \<noteq> 0 \<and> (\<forall>x \<in> set ts. description x \<noteq> []) \<and> description t \<noteq> []
      \<and> run_tests_rich e tx rx ts w = Some (0, w1)
      \<and> spi_test_run_rich e tx rx t w1 = Some (r, w2) \<and> r \<noteq> 0"
  then have all: "takeWhile (\<lambda>x. description x \<noteq> []) (ts @ t # us)
      = ts @ t # takeWhile (\<lambda>x. description x \<noteq> []) us"
    by (simp add: takeWhile_append2)
  from a have "takeWhile (\<lambda>x. description x \<noteq> []) ts = ts"
    by simp
  with a have "run_points (spi_test_run_rich e tx rx) ts w = Some (0, w1)"
    using run_tests_rich_points[of e tx rx ts w] by simp
  from run_points_stops[OF this, of t r w2] a
  have "run_tests_rich e tx rx (ts @ t # us) w = Some (r, w2)"
    unfolding run_tests_rich_points all by simp
  with a show "spi_test_probe_rich e (ts @ t # us) rx tx w = Some (r, w2)"
    by (simp add: spi_test_probe_rich_def)
next
  assume "iteration_points_base b = pre' @ p # post'
      \<and> run_points (run_point_base e b tx rx) pre' w = Some (0, w1)
      \<and> run_point_base e b tx rx p w1 = Some (r, w2) \<and> r \<noteq> 0"
  then show "spi_test_run_base e tx rx b w = Some (r, w2)"
    by (simp add: spi_test_run_base_points run_points_stops)
next
  assume a: "rx \<noteq> 0 \<and> tx \<noteq> 0 \<and> (\<forall>x \<in> set bs. description x \<noteq> []) \<and> description b \<noteq> []
      \<and> run_tests_base e tx rx bs w = Some (0, w1)
      \<and> spi_test_run_base e tx rx b w1 = Some (r, w2) \<and> r \<noteq> 0"
  then have all: "takeWhile (\<lambda>x. description x \<noteq> []) (bs @ b # cs)
      = bs @ b # takeWhile (\<lambda>x. description x \<noteq> []) cs"
    by (simp add: takeWhile_append2)
  from a have "takeWhile (\<lambda>x. description x \<noteq> []) bs = bs"
    by simp
  with a have "run_points (spi_test_run_base e tx rx) bs w = Some (0, w1)"
    using run_tests_base_points[of e tx rx bs w] by simp
  from run_points_stops[OF this, of b r w2] a
  have "run_tests_base e tx rx (bs @ b # cs) w = Some (r, w2)"
    unfolding run_tests_base_points all by simp
  with a show "spi_test_probe_base e (bs @ b # cs) rx tx w = Some (r, w2)"
    by (simp add: spi_test_probe_base_def)
qed

text \<open>
  The test case \<open>long_first\<close> in the simulation: the point with the length 1048576
  fails with \<open>-EINVAL\<close> and the point with the length 16 does not run. In a catalog
  where \<open>two_lengths\<close> stands before and after \<open>long_first\<close>, the first \<open>two_lengths\<close>
  runs, \<open>long_first\<close> fails, and the second \<open>two_lengths\<close> does not run.
\<close>

theorem first_error_aborts_witness:
  "spi_test_run_rich simulation 4096 8192 long_first_rich blank
     = Some (- EINVAL, blank\<lparr>msgs := [Info_running_test ''long first'',
          Info_iteration_values 1048576 0 0]\<rparr>)
   \<and> spi_test_probe_rich simulation
         [two_lengths_rich, long_first_rich, two_lengths_rich, end_of_tests_rich] 8192 4096 blank
     = Some (- EINVAL, blank\<lparr>msgs := [Info_running_test ''two lengths'',
          Info_iteration_values 16 0 0, Info_iteration_values 32 0 0,
          Info_running_test ''long first'', Info_iteration_values 1048576 0 0]\<rparr>)
   \<and> (\<exists>w2. spi_test_run_base simulation 4096 8192 long_first_base blank = Some (- EINVAL, w2)
        \<and> msgs w2 = [Info_running_test ''long first'', Info_iteration_values 1048576 0 0])
   \<and> (\<exists>w2. spi_test_probe_base simulation
              [two_lengths_base, long_first_base, two_lengths_base, end_of_tests_base]
              8192 4096 blank = Some (- EINVAL, w2)
        \<and> msgs w2 = [Info_running_test ''two lengths'', Info_iteration_values 16 0 0,
             Info_iteration_values 32 0 0, Info_running_test ''long first'',
             Info_iteration_values 1048576 0 0])"
proof -
  have e: "- EINVAL \<noteq> 0" "msgs blank = []"
    by (simp_all add: EINVAL_def blank_def)
  have d: "description two_lengths_rich \<noteq> []" "description long_first_rich \<noteq> []"
    "description two_lengths_base \<noteq> []" "description long_first_base \<noteq> []"
    by (simp_all add: two_lengths_rich_def long_first_rich_def two_lengths_base_def
          long_first_base_def)
  have few: "transfer_count long_first_rich < SPI_TEST_MAX_TRANSFERS"
    by (simp add: long_first_rich_def end_of_tests_rich_def SPI_TEST_MAX_TRANSFERS_def)

  let ?v1 = "blank\<lparr>msgs := [Info_running_test ''long first'']\<rparr>"
  let ?v2 = "blank\<lparr>msgs := [Info_running_test ''long first'',
          Info_iteration_values 1048576 0 0]\<rparr>"
  have r1: "iteration_points_rich simulation long_first_rich
      = [(0, 0, 0)] @ (1048576, 0, 0) # [(16, 0, 0)]"
    by (simp add: long_first_rich_points)
  have r2: "run_points (run_point_rich simulation long_first_rich 4096 8192) [(0, 0, 0)] blank
      = Some (0, ?v1)"
    by (simp add: long_first_rich_point e progress_line_def)
  have r3: "run_point_rich simulation long_first_rich 4096 8192 (1048576, 0, 0) ?v1
      = Some (- EINVAL, ?v2)"
    by (simp add: long_first_rich_point placeholder_defs progress_line_def)
  from first_error_aborts[where t = long_first_rich and e = simulation and tx = 4096
      and rx = 8192 and w = blank and ?pre = "[(0, 0, 0)]" and p = "(1048576, 0, 0)"
      and post = "[(16, 0, 0)]" and ?w1.0 = ?v1 and r = "- EINVAL" and ?w2.0 = ?v2]
    few r1 r2 r3 e(1)
  have c1: "spi_test_run_rich simulation 4096 8192 long_first_rich blank = Some (- EINVAL, ?v2)"
    by blast

  let ?u1 = "blank\<lparr>msgs := [Info_running_test ''two lengths'',
          Info_iteration_values 16 0 0, Info_iteration_values 32 0 0]\<rparr>"
  let ?u2 = "blank\<lparr>msgs := [Info_running_test ''two lengths'',
          Info_iteration_values 16 0 0, Info_iteration_values 32 0 0,
          Info_running_test ''long first'', Info_iteration_values 1048576 0 0]\<rparr>"
  have s0: "(8192::nat) \<noteq> 0" "(4096::nat) \<noteq> 0" by simp_all
  have s1: "\<forall>x \<in> set [two_lengths_rich]. description x \<noteq> []"
    by (simp add: d)
  have s2: "run_tests_rich simulation 4096 8192 [two_lengths_rich] blank = Some (0, ?u1)"
    by (simp add: d two_lengths_rich_run e)
  have s3: "spi_test_run_rich simulation 4096 8192 long_first_rich ?u1 = Some (- EINVAL, ?u2)"
    by (simp add: long_first_rich_run)
  from first_error_aborts[where ts = "[two_lengths_rich]" and t = long_first_rich
      and us = "[two_lengths_rich, end_of_tests_rich]" and e = simulation and tx = 4096
      and rx = 8192 and w = blank and ?w1.0 = ?u1 and r = "- EINVAL" and ?w2.0 = ?u2]
    s0 s1 d(2) s2 s3 e(1)
  have "spi_test_probe_rich simulation
         ([two_lengths_rich] @ long_first_rich # [two_lengths_rich, end_of_tests_rich])
         8192 4096 blank = Some (- EINVAL, ?u2)"
    by blast
  then have c2: "spi_test_probe_rich simulation
         [two_lengths_rich, long_first_rich, two_lengths_rich, end_of_tests_rich]
         8192 4096 blank = Some (- EINVAL, ?u2)"
    by simp

  have b1: "iteration_points_base long_first_base
      = [(0, 0, 0)] @ (1048576, 0, 0) # [(16, 0, 0)]"
    by (simp add: long_first_base_points)
  from long_first_base_point[of 0 blank] obtain m1 where
    "run_point_base simulation long_first_base 4096 8192 (0, 0, 0) blank
       = Some (0, blank\<lparr>mem := m1, msgs := [Info_running_test ''long first'']\<rparr>)"
    by (auto simp: placeholder_defs progress_line_def e)
  then have b2: "run_points (run_point_base simulation long_first_base 4096 8192) [(0, 0, 0)] blank
      = Some (0, blank\<lparr>mem := m1, msgs := [Info_running_test ''long first'']\<rparr>)"
    by simp
  from long_first_base_point[of 1048576
      "blank\<lparr>mem := m1, msgs := [Info_running_test ''long first'']\<rparr>"]
  obtain m2 where
    b3: "run_point_base simulation long_first_base 4096 8192 (1048576, 0, 0)
           (blank\<lparr>mem := m1, msgs := [Info_running_test ''long first'']\<rparr>)
       = Some (- EINVAL, blank\<lparr>mem := m2, msgs := [Info_running_test ''long first'',
            Info_iteration_values 1048576 0 0]\<rparr>)"
    by (auto simp: placeholder_defs progress_line_def)
  from first_error_aborts[where b = long_first_base and e = simulation and tx = 4096
      and rx = 8192 and w = blank and ?pre' = "[(0, 0, 0)]" and p = "(1048576, 0, 0)"
      and post' = "[(16, 0, 0)]"
      and ?w1.0 = "blank\<lparr>mem := m1, msgs := [Info_running_test ''long first'']\<rparr>"
      and r = "- EINVAL"
      and ?w2.0 = "blank\<lparr>mem := m2, msgs := [Info_running_test ''long first'',
            Info_iteration_values 1048576 0 0]\<rparr>"]
    b1 b2 b3 e(1)
  have "spi_test_run_base simulation 4096 8192 long_first_base blank
      = Some (- EINVAL, blank\<lparr>mem := m2, msgs := [Info_running_test ''long first'',
            Info_iteration_values 1048576 0 0]\<rparr>)"
    by blast
  then have c3: "\<exists>w2. spi_test_run_base simulation 4096 8192 long_first_base blank
        = Some (- EINVAL, w2)
      \<and> msgs w2 = [Info_running_test ''long first'', Info_iteration_values 1048576 0 0]"
    by simp

  from two_lengths_base_run[of blank] obtain m3 where
    "spi_test_run_base simulation 4096 8192 two_lengths_base blank
       = Some (0, blank\<lparr>mem := m3, msgs := [Info_running_test ''two lengths'',
            Info_iteration_values 16 0 0, Info_iteration_values 32 0 0]\<rparr>)"
    by (auto simp: e)
  then have q2: "run_tests_base simulation 4096 8192 [two_lengths_base] blank
       = Some (0, blank\<lparr>mem := m3, msgs := [Info_running_test ''two lengths'',
            Info_iteration_values 16 0 0, Info_iteration_values 32 0 0]\<rparr>)"
    by (simp add: d)
  from long_first_base_run[of "blank\<lparr>mem := m3, msgs := [Info_running_test ''two lengths'',
            Info_iteration_values 16 0 0, Info_iteration_values 32 0 0]\<rparr>"]
  obtain m4 where
    q3: "spi_test_run_base simulation 4096 8192 long_first_base
           (blank\<lparr>mem := m3, msgs := [Info_running_test ''two lengths'',
              Info_iteration_values 16 0 0, Info_iteration_values 32 0 0]\<rparr>)
       = Some (- EINVAL, blank\<lparr>mem := m4, msgs := [Info_running_test ''two lengths'',
            Info_iteration_values 16 0 0, Info_iteration_values 32 0 0,
            Info_running_test ''long first'', Info_iteration_values 1048576 0 0]\<rparr>)"
    by auto
  have q1: "\<forall>x \<in> set [two_lengths_base]. description x \<noteq> []"
    by (simp add: d)
  from first_error_aborts[where bs = "[two_lengths_base]" and b = long_first_base
      and cs = "[two_lengths_base, end_of_tests_base]" and e = simulation and tx = 4096
      and rx = 8192 and w = blank
      and ?w1.0 = "blank\<lparr>mem := m3, msgs := [Info_running_test ''two lengths'',
            Info_iteration_values 16 0 0, Info_iteration_values 32 0 0]\<rparr>"
      and r = "- EINVAL"
      and ?w2.0 = "blank\<lparr>mem := m4, msgs := [Info_running_test ''two lengths'',
            Info_iteration_values 16 0 0, Info_iteration_values 32 0 0,
            Info_running_test ''long first'', Info_iteration_values 1048576 0 0]\<rparr>"]
    s0 q1 d(4) q2 q3 e(1)
  have "spi_test_probe_base simulation
         ([two_lengths_base] @ long_first_base # [two_lengths_base, end_of_tests_base])
         8192 4096 blank
      = Some (- EINVAL, blank\<lparr>mem := m4, msgs := [Info_running_test ''two lengths'',
            Info_iteration_values 16 0 0, Info_iteration_values 32 0 0,
            Info_running_test ''long first'', Info_iteration_values 1048576 0 0]\<rparr>)"
    by blast
  then have c4: "\<exists>w2. spi_test_probe_base simulation
              [two_lengths_base, long_first_base, two_lengths_base, end_of_tests_base]
              8192 4096 blank = Some (- EINVAL, w2)
        \<and> msgs w2 = [Info_running_test ''two lengths'', Info_iteration_values 16 0 0,
             Info_iteration_values 32 0 0, Info_running_test ''long first'',
             Info_iteration_values 1048576 0 0]"
    by simp
  from c1 c2 c3 c4 show ?thesis by blast
qed

end
